(* ===== verification/SF_Prelude.thy ===== *)
theory SF_Prelude
  imports Main "HOL-Library.Char_ord" "HOL-Library.List_Lexorder" "HOL-Library.Word"
begin

text \<open>
  Shared ground of the development: the part of Rust's standard library the schema forge
  backend calls (characters, strings, slices, decimal printing and parsing), the types the
  components name, the collections of rewrite rules, and generic list facts.

  A Rust \<open>String\<close> is a sequence of Unicode scalar values. The development models it by
  \<open>string\<close>, one \<open>char\<close> per scalar value, for the scalar values up to U+00FF. On that range
  every character table below (white space, letters, digits, case mapping, UTF-8 length) is the
  one of Unicode, so that the model computes what the code computes for text in that range.
\<close>

section \<open>Types and collections of rewrite rules\<close>

type_synonym u32 = "32 word"

text \<open>A double is kept as its IEEE 754 bit pattern; a timestamp is a number of microseconds.\<close>

type_synonym f64 = "64 word"
type_synonym timestamp = int

named_theorems text_simps \<open>unfolding rules for the modelled parts of Rust's str and char\<close>

section \<open>Characters\<close>

definition code_point :: "char \<Rightarrow> nat" where
  "code_point c = of_char c"

definition is_whitespace :: "char \<Rightarrow> bool" where
  "is_whitespace c = (let n = code_point c in (9 \<le> n \<and> n \<le> 13) \<or> n = 32 \<or> n = 133 \<or> n = 160)"

definition is_ascii_digit :: "char \<Rightarrow> bool" where
  "is_ascii_digit c = (let n = code_point c in 48 \<le> n \<and> n \<le> 57)"

definition is_ascii_upper :: "char \<Rightarrow> bool" where
  "is_ascii_upper c = (let n = code_point c in 65 \<le> n \<and> n \<le> 90)"

definition is_ascii_lower :: "char \<Rightarrow> bool" where
  "is_ascii_lower c = (let n = code_point c in 97 \<le> n \<and> n \<le> 122)"

definition is_uppercase :: "char \<Rightarrow> bool" where
  "is_uppercase c = (let n = code_point c in
     (65 \<le> n \<and> n \<le> 90) \<or> (192 \<le> n \<and> n \<le> 222 \<and> n \<noteq> 215))"

definition is_lowercase :: "char \<Rightarrow> bool" where
  "is_lowercase c = (let n = code_point c in
     (97 \<le> n \<and> n \<le> 122) \<or> n = 170 \<or> n = 181 \<or> n = 186 \<or> (223 \<le> n \<and> n \<noteq> 247))"

definition is_alphabetic :: "char \<Rightarrow> bool" where
  "is_alphabetic c = (is_uppercase c \<or> is_lowercase c)"

definition is_numeric :: "char \<Rightarrow> bool" where
  "is_numeric c = (let n = code_point c in
     (48 \<le> n \<and> n \<le> 57) \<or> n = 178 \<or> n = 179 \<or> n = 185 \<or> (188 \<le> n \<and> n \<le> 190))"

definition is_alphanumeric :: "char \<Rightarrow> bool" where
  "is_alphanumeric c = (is_alphabetic c \<or> is_numeric c)"

definition lower_ascii :: "char \<Rightarrow> char" where
  "lower_ascii c = (if is_ascii_upper c then char_of (code_point c + 32) else c)"

definition upper_ascii :: "char \<Rightarrow> char" where
  "upper_ascii c = (if is_ascii_lower c then char_of (code_point c - 32) else c)"

definition lower_char :: "char \<Rightarrow> char" where
  "lower_char c = (if is_uppercase c then char_of (code_point c + 32) else c)"

text \<open>The number of bytes the scalar value takes in UTF-8.\<close>

definition len_utf8 :: "char \<Rightarrow> nat" where
  "len_utf8 c = (if code_point c < 128 then 1 else 2)"

lemmas char_class_defs [text_simps] =
  code_point_def is_whitespace_def is_ascii_digit_def is_ascii_upper_def is_ascii_lower_def
  is_uppercase_def is_lowercase_def is_alphabetic_def is_numeric_def is_alphanumeric_def
  lower_ascii_def upper_ascii_def lower_char_def len_utf8_def Let_def

lemma char_of_numeral [text_simps]:
  "char_of (numeral k :: nat) =
     Char (bit (numeral k :: nat) 0) (bit (numeral k :: nat) 1) (bit (numeral k :: nat) 2)
       (bit (numeral k :: nat) 3) (bit (numeral k :: nat) 4) (bit (numeral k :: nat) 5)
       (bit (numeral k :: nat) 6) (bit (numeral k :: nat) 7)"
  by (rule char_of_def)

lemma bit_one_zero [text_simps]: "bit (Suc 0) 0"
  by (simp add: bit_0)

section \<open>Strings\<close>

definition trim_start :: "string \<Rightarrow> string" where
  "trim_start s = dropWhile is_whitespace s"

definition trim_end :: "string \<Rightarrow> string" where
  "trim_end s = rev (dropWhile is_whitespace (rev s))"

definition trim :: "string \<Rightarrow> string" where
  "trim s = trim_end (trim_start s)"

definition to_ascii_lowercase :: "string \<Rightarrow> string" where
  "to_ascii_lowercase s = map lower_ascii s"

definition to_ascii_uppercase :: "string \<Rightarrow> string" where
  "to_ascii_uppercase s = map upper_ascii s"

definition to_lowercase :: "string \<Rightarrow> string" where
  "to_lowercase s = map lower_char s"

definition eq_ignore_ascii_case :: "string \<Rightarrow> string \<Rightarrow> bool" where
  "eq_ignore_ascii_case a b = (to_ascii_lowercase a = to_ascii_lowercase b)"

text \<open>\<open>str::replace\<close> of one character by a string.\<close>

definition replace_char :: "char \<Rightarrow> string \<Rightarrow> string \<Rightarrow> string" where
  "replace_char c r s = concat (map (\<lambda>x. if x = c then r else [x]) s)"

fun join :: "string \<Rightarrow> string list \<Rightarrow> string" where
  "join sep [] = []"
| "join sep [x] = x"
| "join sep (x # y # ys) = x @ sep @ join sep (y # ys)"

fun strip_prefix :: "string \<Rightarrow> string \<Rightarrow> string option" where
  "strip_prefix [] s = Some s"
| "strip_prefix (p # ps) [] = None"
| "strip_prefix (p # ps) (c # cs) = (if p = c then strip_prefix ps cs else None)"

definition split_once :: "char \<Rightarrow> string \<Rightarrow> (string \<times> string) option" where
  "split_once c s = (case dropWhile (\<lambda>x. x \<noteq> c) s of
     [] \<Rightarrow> None
   | _ # rest \<Rightarrow> Some (takeWhile (\<lambda>x. x \<noteq> c) s, rest))"

definition rsplit_once :: "char \<Rightarrow> string \<Rightarrow> (string \<times> string) option" where
  "rsplit_once c s = (case split_once c (rev s) of
     None \<Rightarrow> None
   | Some (tail, front) \<Rightarrow> Some (rev front, rev tail))"

definition bytes_len :: "string \<Rightarrow> nat" where
  "bytes_len s = sum_list (map len_utf8 s)"

lemmas str_defs [text_simps] =
  trim_start_def trim_end_def trim_def to_ascii_lowercase_def to_ascii_uppercase_def
  to_lowercase_def eq_ignore_ascii_case_def replace_char_def split_once_def rsplit_once_def
  bytes_len_def

section \<open>Decimal numbers\<close>

definition digit_char :: "nat \<Rightarrow> char" where
  "digit_char d = char_of (48 + d)"

fun show_nat :: "nat \<Rightarrow> string" where
  "show_nat n = (if n < 10 then [digit_char n] else show_nat (n div 10) @ [digit_char (n mod 10)])"

declare show_nat.simps [simp del]

definition show_u32 :: "u32 \<Rightarrow> string" where
  "show_u32 w = show_nat (unat w)"

definition show_int :: "int \<Rightarrow> string" where
  "show_int i = (if i < 0 then ''-'' @ show_nat (nat (- i)) else show_nat (nat i))"

definition digit_value :: "char \<Rightarrow> nat" where
  "digit_value c = code_point c - 48"

definition digits_value :: "string \<Rightarrow> nat" where
  "digits_value s = foldl (\<lambda>n c. 10 * n + digit_value c) 0 s"

text \<open>
  \<open>str::parse::<u32>\<close>: an optional plus sign, at least one ASCII digit and nothing else, and a
  value that fits 32 bits.
\<close>

definition parse_u32 :: "string \<Rightarrow> u32 option" where
  "parse_u32 s = (let ds = (case s of c # cs \<Rightarrow> (if c = CHR ''+'' then cs else s) | [] \<Rightarrow> s) in
     if ds \<noteq> [] \<and> list_all is_ascii_digit ds \<and> digits_value ds < 2 ^ 32
     then Some (of_nat (digits_value ds)) else None)"

lemma code_point_digit: "d < 10 \<Longrightarrow> code_point (digit_char d) = 48 + d"
  by (simp add: code_point_def digit_char_def)

lemma digit_char_props:
  assumes "d < 10"
  shows "is_ascii_digit (digit_char d)" "digit_value (digit_char d) = d"
  using assms by (simp_all add: is_ascii_digit_def digit_value_def code_point_digit)

lemma show_nat_digits: "list_all is_ascii_digit (show_nat n)"
proof (induction n rule: show_nat.induct)
  case (1 n)
  then show ?case by (subst show_nat.simps) (auto simp: digit_char_props(1))
qed

lemma show_nat_nonempty [simp]: "show_nat n \<noteq> []"
  by (subst show_nat.simps) simp

lemma digits_value_append: "digits_value (s @ [c]) = 10 * digits_value s + digit_value c"
  by (simp add: digits_value_def)

lemma digits_value_show_nat [simp]: "digits_value (show_nat n) = n"
proof (induction n rule: show_nat.induct)
  case (1 n)
  show ?case
  proof (cases "n < 10")
    case True
    then show ?thesis
      by (subst show_nat.simps) (simp add: digits_value_def digit_char_props(2))
  next
    case False
    then have "digits_value (show_nat n) = 10 * (n div 10) + n mod 10"
      using 1 by (subst show_nat.simps) (simp add: digits_value_append digit_char_props(2))
    then show ?thesis by simp
  qed
qed

lemma is_ascii_digit_neq:
  "is_ascii_digit c \<Longrightarrow> code_point d < 48 \<or> 57 < code_point d \<Longrightarrow> c \<noteq> d"
  by (auto simp: is_ascii_digit_def Let_def)

lemma show_nat_all: "c \<in> set (show_nat n) \<Longrightarrow> is_ascii_digit c"
  using show_nat_digits [of n] by (simp add: list_all_iff)

text \<open>A printed number is read back by \<open>parse_u32\<close>.\<close>

lemma parse_show_u32 [simp]: "parse_u32 (show_u32 w) = Some w"
proof -
  obtain c cs where s: "show_nat (unat w) = c # cs" by (meson list.exhaust show_nat_nonempty)
  then have "is_ascii_digit c" using show_nat_all [of c "unat w"] by simp
  then have "c \<noteq> CHR ''+''" by (rule is_ascii_digit_neq) (simp add: code_point_def)
  moreover have "unat w < 2 ^ 32" using unsigned_less [of w, where ?'a = nat] by simp
  ultimately show ?thesis
    using show_nat_digits [of "unat w"] digits_value_show_nat [of "unat w"]
    by (simp add: parse_u32_def show_u32_def s)
qed

section \<open>Looking up by a distinct key, and in a mapped list\<close>

lemma find_key:
  assumes "distinct (map key xs)" and "x \<in> set xs"
  shows "List.find (\<lambda>y. key y = key x) xs = Some x"
  using assms by (induction xs) (auto simp: image_iff)

lemma find_map: "List.find p (map f xs) = map_option f (List.find (p \<circ> f) xs)"
  by (induction xs) auto

end
