(* ===== verification/Domain.thy ===== *)
theory Domain
  imports SF_Prelude
begin

text \<open>
  The canonical schema model, \<^verbatim>\<open>module/schema/core/domain\<close>: data types, attributes, entities,
  relationships, schemas, dialects and exchange formats, in the order of the source files, with
  the lookups and builders each type carries.
\<close>

section \<open>Data types (data\_type.rs)\<close>

datatype data_type_kind =
    Text | Varchar | Char_kind | SmallInt | Integer | BigInt | Numeric | Real | DoublePrecision
  | Boolean | Date | Time | Timestamp | TimestampTz | Uuid | Json | Jsonb | Bytea

datatype type_family =
    Textual | Integral | Decimal | Boolean_family | Temporal | Uuid_family | Document | Binary

fun kind_as_str :: "data_type_kind \<Rightarrow> string" where
  "kind_as_str Text = ''text''"
| "kind_as_str Varchar = ''varchar''"
| "kind_as_str Char_kind = ''char''"
| "kind_as_str SmallInt = ''smallint''"
| "kind_as_str Integer = ''integer''"
| "kind_as_str BigInt = ''bigint''"
| "kind_as_str Numeric = ''numeric''"
| "kind_as_str Real = ''real''"
| "kind_as_str DoublePrecision = ''double precision''"
| "kind_as_str Boolean = ''boolean''"
| "kind_as_str Date = ''date''"
| "kind_as_str Time = ''time''"
| "kind_as_str Timestamp = ''timestamp''"
| "kind_as_str TimestampTz = ''timestamptz''"
| "kind_as_str Uuid = ''uuid''"
| "kind_as_str Json = ''json''"
| "kind_as_str Jsonb = ''jsonb''"
| "kind_as_str Bytea = ''bytea''"

definition kind_variants :: "data_type_kind list" where
  "kind_variants =
     [Text, Varchar, Char_kind, SmallInt, Integer, BigInt, Numeric, Real, DoublePrecision,
      Boolean, Date, Time, Timestamp, TimestampTz, Uuid, Json, Jsonb, Bytea]"

definition takes_length :: "data_type_kind \<Rightarrow> bool" where
  "takes_length k = (case k of Varchar \<Rightarrow> True | Char_kind \<Rightarrow> True | _ \<Rightarrow> False)"

definition takes_precision :: "data_type_kind \<Rightarrow> bool" where
  "takes_precision k = (case k of Numeric \<Rightarrow> True | _ \<Rightarrow> False)"

fun family :: "data_type_kind \<Rightarrow> type_family" where
  "family Text = Textual"
| "family Varchar = Textual"
| "family Char_kind = Textual"
| "family SmallInt = Integral"
| "family Integer = Integral"
| "family BigInt = Integral"
| "family Numeric = Decimal"
| "family Real = Decimal"
| "family DoublePrecision = Decimal"
| "family Boolean = Boolean_family"
| "family Date = Temporal"
| "family Time = Temporal"
| "family Timestamp = Temporal"
| "family TimestampTz = Temporal"
| "family Uuid = Uuid_family"
| "family Json = Document"
| "family Jsonb = Document"
| "family Bytea = Binary"

definition kind_from_str :: "string \<Rightarrow> data_type_kind option" where
  "kind_from_str value =
     (let name = to_ascii_lowercase (trim value)
      in List.find (\<lambda>kind. kind_as_str kind = name) kind_variants)"

record data_type =
  dt_kind :: data_type_kind
  dt_length :: "u32 option"
  dt_precision :: "u32 option"
  dt_scale :: "u32 option"

definition simple :: "data_type_kind \<Rightarrow> data_type" where
  "simple kind = \<lparr>dt_kind = kind, dt_length = None, dt_precision = None, dt_scale = None\<rparr>"

definition varchar :: "u32 \<Rightarrow> data_type" where
  "varchar n = \<lparr>dt_kind = Varchar, dt_length = Some n, dt_precision = None, dt_scale = None\<rparr>"

definition numeric :: "u32 \<Rightarrow> u32 \<Rightarrow> data_type" where
  "numeric p s = \<lparr>dt_kind = Numeric, dt_length = None, dt_precision = Some p, dt_scale = Some s\<rparr>"

definition is_compatible_with :: "data_type \<Rightarrow> data_type \<Rightarrow> bool" where
  "is_compatible_with a b = (family (dt_kind a) = family (dt_kind b))"

text \<open>The \<open>Display\<close> of a type: its parameters are shown only where the kind takes them.\<close>

definition data_type_fmt :: "data_type \<Rightarrow> string" where
  "data_type_fmt t =
     (if takes_length (dt_kind t) then
        (case dt_length t of
           Some n \<Rightarrow> kind_as_str (dt_kind t) @ ''('' @ show_u32 n @ '')''
         | None \<Rightarrow> kind_as_str (dt_kind t))
      else if takes_precision (dt_kind t) then
        (case (dt_precision t, dt_scale t) of
           (Some p, Some s) \<Rightarrow>
             kind_as_str (dt_kind t) @ ''('' @ show_u32 p @ '', '' @ show_u32 s @ '')''
         | (Some p, None) \<Rightarrow> kind_as_str (dt_kind t) @ ''('' @ show_u32 p @ '')''
         | _ \<Rightarrow> kind_as_str (dt_kind t))
      else kind_as_str (dt_kind t))"

section \<open>Attributes (attribute.rs)\<close>

record foreign_key_ref =
  fk_entity_id :: string
  fk_attribute_id :: string

record attribute =
  attr_id :: string
  attr_name :: string
  attr_description :: string
  attr_data_type :: data_type
  attr_nullable :: bool
  attr_primary_key :: bool
  attr_unique :: bool
  attr_foreign_key :: "foreign_key_ref option"
  attr_default_value :: "string option"

definition foreign_key_ref_new :: "string \<Rightarrow> string \<Rightarrow> foreign_key_ref" where
  "foreign_key_ref_new e a = \<lparr>fk_entity_id = e, fk_attribute_id = a\<rparr>"

definition attribute_new :: "string \<Rightarrow> string \<Rightarrow> data_type \<Rightarrow> attribute" where
  "attribute_new ident name t =
     \<lparr>attr_id = ident, attr_name = name, attr_description = '''', attr_data_type = t,
      attr_nullable = True, attr_primary_key = False, attr_unique = False,
      attr_foreign_key = None, attr_default_value = None\<rparr>"

definition as_primary_key :: "attribute \<Rightarrow> attribute" where
  "as_primary_key a = a\<lparr>attr_primary_key := True, attr_nullable := False\<rparr>"

definition required :: "attribute \<Rightarrow> attribute" where
  "required a = a\<lparr>attr_nullable := False\<rparr>"

definition unique :: "attribute \<Rightarrow> attribute" where
  "unique a = a\<lparr>attr_unique := True\<rparr>"

definition referencing :: "foreign_key_ref \<Rightarrow> attribute \<Rightarrow> attribute" where
  "referencing r a = a\<lparr>attr_foreign_key := Some r\<rparr>"

definition attr_with_description :: "string \<Rightarrow> attribute \<Rightarrow> attribute" where
  "attr_with_description d a = a\<lparr>attr_description := d\<rparr>"

definition with_default :: "string \<Rightarrow> attribute \<Rightarrow> attribute" where
  "with_default d a = a\<lparr>attr_default_value := Some d\<rparr>"

definition is_foreign_key :: "attribute \<Rightarrow> bool" where
  "is_foreign_key a = (attr_foreign_key a \<noteq> None)"

definition attr_is_documented :: "attribute \<Rightarrow> bool" where
  "attr_is_documented a = (trim (attr_description a) \<noteq> '''')"

section \<open>Entities (entity.rs)\<close>

record position =
  pos_x :: f64
  pos_y :: f64

record entity =
  ent_id :: string
  ent_name :: string
  ent_description :: string
  ent_attributes :: "attribute list"
  ent_position :: position

definition position_new :: "f64 \<Rightarrow> f64 \<Rightarrow> position" where
  "position_new x y = \<lparr>pos_x = x, pos_y = y\<rparr>"

definition position_default :: position where
  "position_default = \<lparr>pos_x = 0, pos_y = 0\<rparr>"

definition entity_new :: "string \<Rightarrow> string \<Rightarrow> entity" where
  "entity_new ident name =
     \<lparr>ent_id = ident, ent_name = name, ent_description = '''', ent_attributes = [],
      ent_position = position_default\<rparr>"

definition ent_with_description :: "string \<Rightarrow> entity \<Rightarrow> entity" where
  "ent_with_description d e = e\<lparr>ent_description := d\<rparr>"

definition with_position :: "position \<Rightarrow> entity \<Rightarrow> entity" where
  "with_position p e = e\<lparr>ent_position := p\<rparr>"

definition with_attributes :: "attribute list \<Rightarrow> entity \<Rightarrow> entity" where
  "with_attributes as e = e\<lparr>ent_attributes := as\<rparr>"

definition entity_attribute :: "entity \<Rightarrow> string \<Rightarrow> attribute option" where
  "entity_attribute e ident = List.find (\<lambda>a. attr_id a = ident) (ent_attributes e)"

definition attribute_by_name :: "entity \<Rightarrow> string \<Rightarrow> attribute option" where
  "attribute_by_name e name =
     List.find (\<lambda>a. eq_ignore_ascii_case (attr_name a) name) (ent_attributes e)"

definition primary_key :: "entity \<Rightarrow> attribute list" where
  "primary_key e = filter attr_primary_key (ent_attributes e)"

definition has_primary_key :: "entity \<Rightarrow> bool" where
  "has_primary_key e = list_ex attr_primary_key (ent_attributes e)"

definition ent_is_documented :: "entity \<Rightarrow> bool" where
  "ent_is_documented e = (trim (ent_description e) \<noteq> '''')"

section \<open>Relationships (relationship.rs)\<close>

datatype cardinality = OneToOne | OneToMany | ManyToMany

definition cardinality_default :: cardinality where
  "cardinality_default = OneToMany"

fun cardinality_as_str :: "cardinality \<Rightarrow> string" where
  "cardinality_as_str OneToOne = ''1:1''"
| "cardinality_as_str OneToMany = ''1:N''"
| "cardinality_as_str ManyToMany = ''N:M''"

fun requires_join_table :: "cardinality \<Rightarrow> bool" where
  "requires_join_table ManyToMany = True"
| "requires_join_table _ = False"

definition cardinality_from_str :: "string \<Rightarrow> cardinality option" where
  "cardinality_from_str value =
     (let s = to_ascii_uppercase (trim value) in
      if s = ''1:1'' \<or> s = ''ONE_TO_ONE'' then Some OneToOne
      else if s = ''1:N'' \<or> s = ''ONE_TO_MANY'' then Some OneToMany
      else if s = ''N:M'' \<or> s = ''MANY_TO_MANY'' then Some ManyToMany
      else None)"

record relationship =
  rel_id :: string
  rel_name :: string
  rel_description :: string
  from_entity_id :: string
  from_attribute_id :: string
  to_entity_id :: string
  to_attribute_id :: string
  rel_cardinality :: cardinality

definition relationship_new ::
  "string \<Rightarrow> string \<times> string \<Rightarrow> string \<times> string \<Rightarrow> cardinality \<Rightarrow> relationship" where
  "relationship_new ident src dst kind =
     \<lparr>rel_id = ident, rel_name = '''', rel_description = '''',
      from_entity_id = fst src, from_attribute_id = snd src,
      to_entity_id = fst dst, to_attribute_id = snd dst, rel_cardinality = kind\<rparr>"

definition with_name :: "string \<Rightarrow> relationship \<Rightarrow> relationship" where
  "with_name n r = r\<lparr>rel_name := n\<rparr>"

definition rel_with_description :: "string \<Rightarrow> relationship \<Rightarrow> relationship" where
  "rel_with_description d r = r\<lparr>rel_description := d\<rparr>"

definition is_self_referencing :: "relationship \<Rightarrow> bool" where
  "is_self_referencing r = (from_entity_id r = to_entity_id r)"

definition touches :: "relationship \<Rightarrow> string \<Rightarrow> bool" where
  "touches r ident = (from_entity_id r = ident \<or> to_entity_id r = ident)"

definition rel_is_documented :: "relationship \<Rightarrow> bool" where
  "rel_is_documented r = (trim (rel_description r) \<noteq> '''')"

section \<open>Schemas (schema.rs)\<close>

record schema_draft =
  draft_name :: string
  draft_description :: string
  draft_entities :: "entity list"
  draft_relationships :: "relationship list"

record schema =
  sch_id :: string
  sch_name :: string
  sch_description :: string
  sch_entities :: "entity list"
  sch_relationships :: "relationship list"
  created_at :: timestamp
  updated_at :: timestamp

record schema_summary =
  sum_id :: string
  sum_name :: string
  sum_description :: string
  entity_count :: u32
  relationship_count :: u32
  sum_created_at :: timestamp
  sum_updated_at :: timestamp

definition schema_new :: "string \<Rightarrow> schema_draft \<Rightarrow> timestamp \<Rightarrow> schema" where
  "schema_new ident d now =
     \<lparr>sch_id = ident, sch_name = draft_name d, sch_description = draft_description d,
      sch_entities = draft_entities d, sch_relationships = draft_relationships d,
      created_at = now, updated_at = now\<rparr>"

definition replace_with :: "schema \<Rightarrow> schema_draft \<Rightarrow> timestamp \<Rightarrow> schema" where
  "replace_with s d now =
     s\<lparr>sch_name := draft_name d, sch_description := draft_description d,
       sch_entities := draft_entities d, sch_relationships := draft_relationships d,
       updated_at := now\<rparr>"

definition draft :: "schema \<Rightarrow> schema_draft" where
  "draft s =
     \<lparr>draft_name = sch_name s, draft_description = sch_description s,
      draft_entities = sch_entities s, draft_relationships = sch_relationships s\<rparr>"

definition schema_entity :: "schema \<Rightarrow> string \<Rightarrow> entity option" where
  "schema_entity s ident = List.find (\<lambda>e. ent_id e = ident) (sch_entities s)"

definition entity_by_name :: "schema \<Rightarrow> string \<Rightarrow> entity option" where
  "entity_by_name s name =
     List.find (\<lambda>e. eq_ignore_ascii_case (ent_name e) name) (sch_entities s)"

definition schema_relationship :: "schema \<Rightarrow> string \<Rightarrow> relationship option" where
  "schema_relationship s ident = List.find (\<lambda>r. rel_id r = ident) (sch_relationships s)"

definition resolve :: "schema \<Rightarrow> string \<Rightarrow> string \<Rightarrow> (entity \<times> attribute) option" where
  "resolve s eid aid =
     (case schema_entity s eid of
        None \<Rightarrow> None
      | Some e \<Rightarrow> (case entity_attribute e aid of None \<Rightarrow> None | Some a \<Rightarrow> Some (e, a)))"

definition relationships_for :: "schema \<Rightarrow> string \<Rightarrow> relationship list" where
  "relationships_for s eid = filter (\<lambda>r. touches r eid) (sch_relationships s)"

text \<open>\<open>len() as u32\<close> keeps the low 32 bits of the length, which is what \<open>of_nat\<close> does.\<close>

definition summary :: "schema \<Rightarrow> schema_summary" where
  "summary s =
     \<lparr>sum_id = sch_id s, sum_name = sch_name s, sum_description = sch_description s,
      entity_count = of_nat (length (sch_entities s)),
      relationship_count = of_nat (length (sch_relationships s)),
      sum_created_at = created_at s, sum_updated_at = updated_at s\<rparr>"

definition schema_is_empty :: "schema \<Rightarrow> bool" where
  "schema_is_empty s = (sch_entities s = [])"

section \<open>Dialects and exchange formats (dialect.rs, exchange.rs)\<close>

datatype dialect = Postgres | MySql

fun dialect_as_str :: "dialect \<Rightarrow> string" where
  "dialect_as_str Postgres = ''postgres''"
| "dialect_as_str MySql = ''mysql''"

definition dialect_default :: dialect where
  "dialect_default = Postgres"

fun supports_comment_on :: "dialect \<Rightarrow> bool" where
  "supports_comment_on Postgres = True"
| "supports_comment_on MySql = False"

definition dialect_from_str :: "string \<Rightarrow> dialect option" where
  "dialect_from_str value =
     (let s = to_ascii_lowercase (trim value) in
      if s = ''postgres'' \<or> s = ''postgresql'' then Some Postgres
      else if s = ''mysql'' then Some MySql
      else None)"

datatype exchange_format = Json_format | Sql_format

definition exchange_format_default :: exchange_format where
  "exchange_format_default = Json_format"

fun exchange_format_as_str :: "exchange_format \<Rightarrow> string" where
  "exchange_format_as_str Json_format = ''json''"
| "exchange_format_as_str Sql_format = ''sql''"

definition exchange_format_from_str :: "string \<Rightarrow> exchange_format option" where
  "exchange_format_from_str value =
     (let s = to_ascii_lowercase (trim value) in
      if s = ''json'' then Some Json_format
      else if s = ''sql'' \<or> s = ''postgres'' \<or> s = ''postgresql'' then Some Sql_format
      else None)"

datatype domain_error = SchemaNotFound | DuplicateSchemaName string | Storage string

end
