(* ===== verification/Float64.thy ===== *)
theory Float64
  imports SF_Prelude
begin

text \<open>
  The operations on \<open>f64\<close> the source uses, computed on IEEE 754 bit patterns: the conversion of
  an exact fraction (nearest, ties to even), \<open>str::parse::<f64>\<close>, the product of finite doubles,
  and \<open>round\<close> followed by \<open>as i64\<close>. The facts show that whole numbers up to \<open>2 ^ 53\<close> are
  represented exactly and come back from a printed layout line unchanged.
\<close>

section \<open>The parts of a bit pattern\<close>

definition f64_exponent :: "f64 \<Rightarrow> nat" where
  "f64_exponent w = unat w div 2 ^ 52 mod 2 ^ 11"

definition f64_fraction :: "f64 \<Rightarrow> nat" where
  "f64_fraction w = unat w mod 2 ^ 52"

definition f64_negative :: "f64 \<Rightarrow> bool" where
  "f64_negative w = (unat w \<ge> 2 ^ 63)"

definition f64_significand :: "f64 \<Rightarrow> nat" where
  "f64_significand w = (if f64_exponent w = 0 then f64_fraction w else 2 ^ 52 + f64_fraction w)"

text \<open>The magnitude of a finite double is \<open>f64_significand \<sqdot> 2 ^ (max 1 exponent - 1075)\<close>.\<close>

definition f64_num :: "f64 \<Rightarrow> nat" where
  "f64_num w = f64_significand w * 2 ^ (max 1 (f64_exponent w) - 1075)"

definition f64_den :: "f64 \<Rightarrow> nat" where
  "f64_den w = 2 ^ (1075 - max 1 (f64_exponent w))"

section \<open>Rounding a fraction\<close>

fun log2 :: "nat \<Rightarrow> nat" where
  "log2 n = (if n < 2 then 0 else Suc (log2 (n div 2)))"

declare log2.simps [simp del]

definition div_half_even :: "nat \<Rightarrow> nat \<Rightarrow> nat" where
  "div_half_even a b =
     (let q = a div b; r = a mod b in
      if 2 * r < b then q else if 2 * r > b then Suc q else if even q then q else Suc q)"

text \<open>
  The scale at which the quotient has 53 bits, counted from the smallest exponent: \<open>k\<close> stands
  for units of \<open>2 ^ (k - 1074)\<close>.
\<close>

definition f64_scale :: "nat \<Rightarrow> nat \<Rightarrow> nat" where
  "f64_scale a b =
     (let k = (log2 a + 1074) - (log2 b + 52) in
      if k > 0 \<and> a * 2 ^ (1074 - k) < 2 ^ 52 * b * 2 ^ (k - 1074) then k - 1 else k)"

definition f64_bits :: "nat \<Rightarrow> nat \<Rightarrow> nat" where
  "f64_bits a b =
     (if a = 0 then 0
      else let k = f64_scale a b;
               q = div_half_even (a * 2 ^ (1074 - k)) (b * 2 ^ (k - 1074))
           in min (k * 2 ^ 52 + q) (2047 * 2 ^ 52))"

definition f64_of_ratio :: "bool \<Rightarrow> nat \<Rightarrow> nat \<Rightarrow> f64" where
  "f64_of_ratio neg a b = of_nat ((if neg then 2 ^ 63 else 0) + f64_bits a b)"

definition f64_of_nat :: "nat \<Rightarrow> f64" where
  "f64_of_nat n = f64_of_ratio False n 1"

definition f64_mul :: "f64 \<Rightarrow> f64 \<Rightarrow> f64" where
  "f64_mul x y = f64_of_ratio (f64_negative x \<noteq> f64_negative y) (f64_num x * f64_num y) (f64_den x * f64_den y)"

section \<open>Parsing\<close>

text \<open>
  \<open>f64::from_str\<close>: an optional sign; \<open>inf\<close>, \<open>infinity\<close> or \<open>nan\<close> in any case; or digits with an
  optional point and an optional exponent, where some digit stands before or after the point.
\<close>

definition split_sign :: "string \<Rightarrow> bool \<times> string" where
  "split_sign s = (case s of
     c # cs \<Rightarrow> if c = CHR ''-'' then (True, cs) else if c = CHR ''+'' then (False, cs) else (False, s)
   | [] \<Rightarrow> (False, s))"

definition split_exponent :: "string \<Rightarrow> (string \<times> int) option" where
  "split_exponent s =
     (let mant = takeWhile (\<lambda>c. c \<noteq> CHR ''e'' \<and> c \<noteq> CHR ''E'') s in
      case dropWhile (\<lambda>c. c \<noteq> CHR ''e'' \<and> c \<noteq> CHR ''E'') s of
        [] \<Rightarrow> Some (mant, 0)
      | _ # ex \<Rightarrow>
          (let (neg, ds) = split_sign ex in
           if ds \<noteq> [] \<and> list_all is_ascii_digit ds
           then Some (mant, if neg then - int (digits_value ds) else int (digits_value ds))
           else None))"

definition parse_f64 :: "string \<Rightarrow> f64 option" where
  "parse_f64 s =
     (let (neg, body) = split_sign s; low = to_ascii_lowercase body in
      if low = ''inf'' \<or> low = ''infinity'' then
        Some (of_nat ((if neg then 2 ^ 63 else 0) + 2047 * 2 ^ 52))
      else if low = ''nan'' then
        Some (of_nat ((if neg then 2 ^ 63 else 0) + 2047 * 2 ^ 52 + 2 ^ 51))
      else case split_exponent body of
        None \<Rightarrow> None
      | Some (mant, ex) \<Rightarrow>
          (let (whole, frac) = (case split_once (CHR ''.'') mant of
                 None \<Rightarrow> (mant, '''') | Some (w, f) \<Rightarrow> (w, f));
               digits = whole @ frac; power = ex - int (length frac)
           in if digits \<noteq> [] \<and> list_all is_ascii_digit digits
              then Some (f64_of_ratio neg (digits_value digits * 10 ^ nat power) (10 ^ nat (- power)))
              else None))"

section \<open>Rounding to a whole number\<close>

definition f64_round_magnitude :: "f64 \<Rightarrow> nat" where
  "f64_round_magnitude w = (2 * f64_num w + f64_den w) div (2 * f64_den w)"

definition f64_round_as_i64 :: "f64 \<Rightarrow> int" where
  "f64_round_as_i64 w =
     (if f64_exponent w = 2047 \<and> f64_fraction w \<noteq> 0 then 0
      else if f64_exponent w = 2047 then (if f64_negative w then - (2 ^ 63) else 2 ^ 63 - 1)
      else if f64_negative w then max (- (2 ^ 63)) (- int (f64_round_magnitude w))
      else min (2 ^ 63 - 1) (int (f64_round_magnitude w)))"

section \<open>Comparing and printing\<close>

definition f64_is_nan :: "f64 \<Rightarrow> bool" where
  "f64_is_nan w = (f64_exponent w = 2047 \<and> f64_fraction w \<noteq> 0)"

text \<open>IEEE equality: no NaN equals anything, and the two zeros are equal.\<close>

definition f64_eq :: "f64 \<Rightarrow> f64 \<Rightarrow> bool" where
  "f64_eq x y = (\<not> f64_is_nan x \<and> \<not> f64_is_nan y \<and>
     (x = y \<or> (f64_exponent x = 0 \<and> f64_fraction x = 0 \<and> f64_exponent y = 0 \<and> f64_fraction y = 0)))"

text \<open>The least power of ten above the fraction \<open>a / b\<close>, for positive \<open>a\<close>.\<close>

definition decimal_exponent :: "nat \<Rightarrow> nat \<Rightarrow> int" where
  "decimal_exponent a b =
     (if a \<ge> b then int (length (show_nat (a div b)))
      else (case List.find (\<lambda>j. a * 10 ^ j \<ge> b) [1..<400] of Some j \<Rightarrow> 1 - int j | None \<Rightarrow> 0))"

text \<open>
  The \<open>k\<close>-digit decimal that reads back as \<open>w\<close>, if there is one: of the two neighbours of the
  exact value, the nearer one that does.
\<close>

definition shortest_candidate :: "f64 \<Rightarrow> nat \<Rightarrow> (nat \<times> int) option" where
  "shortest_candidate w k =
     (let a = f64_num w; b = f64_den w; p = int k - decimal_exponent a b;
          sa = a * 10 ^ nat p; sb = b * 10 ^ nat (- p); low = sa div sb;
          reads = (\<lambda>d. f64_bits (d * 10 ^ nat (- p)) (10 ^ nat p) = unat w mod 2 ^ 63)
      in if reads low \<and> (\<not> reads (Suc low) \<or> 2 * (sa mod sb) \<le> sb) then Some (low, - p)
         else if reads (Suc low) then Some (Suc low, - p) else None)"

definition print_decimal :: "nat \<Rightarrow> int \<Rightarrow> string" where
  "print_decimal d e =
     (if e \<ge> 0 then show_nat (d * 10 ^ nat e)
      else let q = 10 ^ nat (- e); frac = show_nat (d mod q);
               padded = replicate (nat (- e) - length frac) (CHR ''0'') @ frac;
               kept = rev (dropWhile (\<lambda>c. c = CHR ''0'') (rev padded))
           in show_nat (d div q) @ (if kept = '''' then '''' else ''.'' @ kept))"

text \<open>\<open>Display\<close> of a double: the shortest decimal that reads back, without an exponent.\<close>

definition f64_display :: "f64 \<Rightarrow> string" where
  "f64_display w =
     (if f64_is_nan w then ''NaN''
      else (if f64_negative w then ''-'' else '''') @
        (if f64_exponent w = 2047 then ''inf''
         else if f64_exponent w = 0 \<and> f64_fraction w = 0 then ''0''
         else case List.find (\<lambda>k. shortest_candidate w k \<noteq> None) [1..<18] of
           Some k \<Rightarrow> (case shortest_candidate w k of Some (d, e) \<Rightarrow> print_decimal d e | None \<Rightarrow> '''')
         | None \<Rightarrow> ''''))"

section \<open>Whole numbers\<close>

lemma log2_bounds: "0 < n \<Longrightarrow> 2 ^ log2 n \<le> n \<and> n < 2 ^ Suc (log2 n)"
proof (induction n rule: log2.induct)
  case (1 n)
  show ?case
  proof (cases "n < 2")
    case True
    then show ?thesis using 1(2) by (simp add: log2.simps)
  next
    case False
    then have "2 ^ log2 (n div 2) \<le> n div 2" "n div 2 < 2 ^ Suc (log2 (n div 2))"
      using 1(1) by auto
    then show ?thesis using False by (simp add: log2.simps [of n]) linarith
  qed
qed

lemma log2_less: "n < 2 ^ k \<Longrightarrow> 0 < n \<Longrightarrow> log2 n < k"
  using log2_bounds [of n] by (metis order.strict_trans1 power_less_imp_less_exp one_less_numeral_iff semiring_norm(76))

lemma div_half_even_one [simp]: "div_half_even a (Suc 0) = a"
  by (simp add: div_half_even_def)

lemma f64_bits_nat:
  assumes "0 < n" and "n < 2 ^ 53"
  shows "f64_bits n 1 = (log2 n + 1022) * 2 ^ 52 + n * 2 ^ (52 - log2 n)"
    and "2 ^ 52 \<le> n * 2 ^ (52 - log2 n)" and "n * 2 ^ (52 - log2 n) < 2 ^ 53"
proof -
  let ?L = "log2 n"
  have L: "?L \<le> 52" using log2_less [OF assms(2,1)] by simp
  have b: "2 ^ ?L \<le> n" "n < 2 ^ Suc ?L" using log2_bounds [OF assms(1)] by auto
  have p: "(2::nat) ^ ?L * 2 ^ (52 - ?L) = 2 ^ 52" using L by (simp add: power_add [symmetric])
  show lo: "2 ^ 52 \<le> n * 2 ^ (52 - ?L)" using b(1) p by (metis mult_le_mono1)
  have "n * 2 ^ (52 - ?L) < 2 ^ Suc ?L * 2 ^ (52 - ?L)" using b(2) by simp
  also have "\<dots> = 2 * (2 ^ ?L * 2 ^ (52 - ?L))" by simp
  finally show hi: "n * 2 ^ (52 - ?L) < 2 ^ 53" unfolding p by simp
  have one: "log2 (Suc 0) = 0" by (simp add: log2.simps)
  have "f64_scale n 1 = ?L + 1022"
    using lo L by (auto simp: f64_scale_def one Let_def)
  moreover have "(?L + 1022) * 2 ^ 52 + n * 2 ^ (52 - ?L) \<le> 2047 * 2 ^ 52"
    using hi L by (auto simp: algebra_simps)
  ultimately show "f64_bits n 1 = (?L + 1022) * 2 ^ 52 + n * 2 ^ (52 - ?L)"
    using assms L by (simp add: f64_bits_def)
qed

lemma f64_parts:
  assumes "e < 2047" "f < 2 ^ 52" and "w = of_nat ((if neg then 2 ^ 63 else 0) + (e * 2 ^ 52 + f))"
  shows "f64_exponent w = e" "f64_fraction w = f" "f64_negative w = neg"
proof -
  have small: "e * 2 ^ 52 + f < 2 ^ 63" using assms by simp
  then have u: "unat w = (if neg then 2 ^ 63 else 0) + (e * 2 ^ 52 + f)"
    unfolding assms(3) by (subst unat_of_nat) (simp only: len_num1 len_bit0 numeral_times_numeral, simp)
  show "f64_negative w = neg" using small by (simp add: f64_negative_def u)
  have *: "unat w = f + ((if neg then 2 ^ 11 else 0) + e) * 2 ^ 52" by (simp add: u)
  have "unat w div 2 ^ 52 = (if neg then 2 ^ 11 else 0) + e" "unat w mod 2 ^ 52 = f"
    unfolding * using assms(2) by (simp_all only: div_mult_self1 mod_mult_self1 mod_less div_less add_0_right)
  then show "f64_exponent w = e" "f64_fraction w = f"
    using assms(1) by (auto simp: f64_exponent_def f64_fraction_def mod_less)
qed

lemma whole_parts:
  assumes "n < 2 ^ 53" and "n \<noteq> 0"
  shows "f64_exponent (f64_of_ratio neg n 1) = log2 n + 1023"
    and "f64_fraction (f64_of_ratio neg n 1) = n * 2 ^ (52 - log2 n) - 2 ^ 52"
    and "f64_negative (f64_of_ratio neg n 1) = neg"
proof -
  let ?L = "log2 n" and ?m = "n * 2 ^ (52 - log2 n)"
  note bits = f64_bits_nat [of n, OF _ assms(1)]
  have L: "?L \<le> 52" using log2_less [OF assms(1)] assms(2) by simp
  have "(?L + 1022) * 2 ^ 52 + ?m = (?L + 1023) * 2 ^ 52 + (?m - 2 ^ 52)" using bits(2) assms(2) by simp
  then have eq: "f64_of_ratio neg n 1 = of_nat ((if neg then 2 ^ 63 else 0) + ((?L + 1023) * 2 ^ 52 + (?m - 2 ^ 52)))"
    unfolding f64_of_ratio_def using bits(1) assms(2) by simp
  have small: "?L + 1023 < 2047" "?m - 2 ^ 52 < 2 ^ 52" using L bits(2,3) assms(2) by auto
  show "f64_exponent (f64_of_ratio neg n 1) = ?L + 1023"
    "f64_fraction (f64_of_ratio neg n 1) = ?m - 2 ^ 52" "f64_negative (f64_of_ratio neg n 1) = neg"
    by (fact f64_parts [OF small eq])+
qed

lemma zero_parts:
  "f64_exponent (f64_of_ratio neg 0 1) = 0" "f64_fraction (f64_of_ratio neg 0 1) = 0"
proof -
  have w: "f64_of_ratio neg 0 1 = of_nat ((if neg then 2 ^ 63 else 0) + (0 * 2 ^ 52 + 0))"
    by (simp add: f64_of_ratio_def f64_bits_def)
  show "f64_exponent (f64_of_ratio neg 0 1) = 0" "f64_fraction (f64_of_ratio neg 0 1) = 0"
    by (rule f64_parts(1) [OF _ _ w], simp, simp, rule f64_parts(2) [OF _ _ w], simp, simp)
qed

lemma f64_of_nat_finite:
  assumes "n < 2 ^ 53"
  shows "f64_exponent (f64_of_nat n) \<noteq> 2047"
proof (cases "n = 0")
  case True
  then show ?thesis by (simp add: f64_of_nat_def zero_parts [simplified])
next
  case False
  then have "log2 n < 53" using log2_less [OF assms] by simp
  then show ?thesis using whole_parts(1) [OF assms False, of False] by (simp add: f64_of_nat_def)
qed

lemma round_of_whole:
  assumes "n < 2 ^ 53"
  shows "f64_round_as_i64 (f64_of_ratio neg n 1) = (if neg then - int n else int n)"
proof (cases "n = 0")
  case True
  define w where "w = f64_of_ratio neg n 1"
  have "f64_exponent w = 0" "f64_fraction w = 0"
    unfolding w_def True by (rule zero_parts)+
  moreover from this have "f64_round_magnitude w = 0"
    by (simp add: f64_round_magnitude_def f64_num_def f64_den_def f64_significand_def)
  ultimately have "f64_round_as_i64 w = 0" by (simp add: f64_round_as_i64_def)
  then show ?thesis using True by (simp add: w_def)
next
  case False
  let ?L = "log2 n" and ?m = "n * 2 ^ (52 - log2 n)"
  note bits = f64_bits_nat [of n, OF _ assms]
  have L: "?L \<le> 52" using log2_less [OF assms] False by simp
  define w where "w = f64_of_ratio neg n 1"
  have parts: "f64_exponent w = ?L + 1023" "f64_fraction w = ?m - 2 ^ 52" "f64_negative w = neg"
    unfolding w_def by (fact whole_parts [OF assms False])+
  have "f64_num w = n * f64_den w"
    using L bits(2) False by (simp add: f64_num_def f64_den_def f64_significand_def parts)
  moreover have "0 < f64_den w" by (simp add: f64_den_def)
  moreover from this have "(f64_den w + n * (2 * f64_den w)) div (2 * f64_den w) = n"
    by (subst div_mult_self1) auto
  ultimately have "f64_round_magnitude w = n"
    by (simp add: f64_round_magnitude_def ac_simps)
  then have "f64_round_as_i64 w = (if neg then - int n else int n)"
    using parts L assms by (auto simp: f64_round_as_i64_def)
  then show ?thesis by (simp only: w_def)
qed

lemma parse_f64_show_int:
  "parse_f64 (show_int i) = Some (f64_of_ratio (i < 0) (nat \<bar>i\<bar>) 1)"
proof -
  define n where "n = nat \<bar>i\<bar>"
  obtain c cs where s: "show_nat n = c # cs" by (meson list.exhaust show_nat_nonempty)
  have all: "\<And>d. d \<in> set (show_nat n) \<Longrightarrow> is_ascii_digit d" by (rule show_nat_all)
  have neq: "d \<noteq> x" if "d \<in> set (show_nat n)" "x \<in> {CHR ''-'', CHR ''+'', CHR ''e'', CHR ''E'', CHR ''.''}" for d x
    using is_ascii_digit_neq [OF all [OF that(1)], of x] that(2) by (auto simp: code_point_def)
  have c: "c \<noteq> CHR ''-''" "c \<noteq> CHR ''+''" using neq [of c] by (simp_all add: s)
  have split: "split_sign (show_int i) = (i < 0, show_nat n)"
  proof (cases "i < 0")
    case True
    then show ?thesis by (simp add: split_sign_def show_int_def n_def)
  next
    case False
    then have "show_int i = c # cs" using s by (simp add: show_int_def n_def)
    then show ?thesis using False c s by (simp add: split_sign_def)
  qed
  have noexp: "\<forall>d \<in> set (show_nat n). d \<noteq> CHR ''e'' \<and> d \<noteq> CHR ''E''" and nodot: "\<forall>d \<in> set (show_nat n). d \<noteq> CHR ''.''"
    using neq by auto
  have ex: "split_exponent (show_nat n) = Some (show_nat n, 0)"
    using noexp by (simp add: split_exponent_def takeWhile_eq_all_conv [THEN iffD2] dropWhile_eq_Nil_conv [THEN iffD2])
  have dot: "split_once (CHR ''.'') (show_nat n) = None"
    using nodot by (simp add: split_once_def dropWhile_eq_Nil_conv [THEN iffD2])
  have "is_ascii_digit c" using all [of c] s by simp
  then have "lower_ascii c = c" "c \<noteq> CHR ''i''" "c \<noteq> CHR ''n''"
    by (auto simp: is_ascii_digit_def lower_ascii_def is_ascii_upper_def code_point_def Let_def)
  then have words: "to_ascii_lowercase (show_nat n) \<noteq> ''inf''" "to_ascii_lowercase (show_nat n) \<noteq> ''infinity''"
    "to_ascii_lowercase (show_nat n) \<noteq> ''nan''"
    by (simp_all add: to_ascii_lowercase_def s)
  show ?thesis
    using words show_nat_digits [of n]
    by (simp add: parse_f64_def split ex dot n_def [symmetric])
qed

lemma layout_number_round_trip:
  assumes "\<bar>i\<bar> < 2 ^ 53"
  shows "map_option f64_round_as_i64 (parse_f64 (show_int i)) = Some i"
  using round_of_whole [of "nat \<bar>i\<bar>" "i < 0"] assms by (simp add: parse_f64_show_int nat_less_iff)

end
