(* ===== verification/Pagination.thy ===== *)
theory Pagination
  imports SF_Prelude "HOL-Library.Signed_Division"
begin

text \<open>
  \<^verbatim>\<open>package/pagination.rs\<close>: the paging parameters of a list request and the page links of its
  answer. An \<open>i64\<close> is a 64-bit word read with \<open>sint\<close>; arithmetic wraps, as in the release build
  (\<^verbatim>\<open>Cargo.toml\<close> sets no overflow checks). The query parser \<open>serde_urlencoded::from_str\<close> is
  third-party: \<open>from_query\<close> takes the pairs it yields, an empty list where it fails.
\<close>

type_synonym i64 = "64 word"

definition DEFAULT_PER_PAGE :: i64 where "DEFAULT_PER_PAGE = 10"
definition MAX_PER_PAGE :: i64 where "MAX_PER_PAGE = 100"

record list_request =
  lr_page :: i64
  lr_per_page :: i64
  lr_sort_by :: string
  lr_order :: string
  lr_filters :: "string \<Rightarrow> string option"

definition list_request_default :: list_request where
  "list_request_default = \<lparr>lr_page = 1, lr_per_page = DEFAULT_PER_PAGE, lr_sort_by = '''',
     lr_order = '''', lr_filters = Map.empty\<rparr>"

definition normalize :: "list_request \<Rightarrow> list_request" where
  "normalize r =
     (let r1 = (if sint (lr_page r) < 1 then r\<lparr>lr_page := 1\<rparr> else r);
          r2 = (if sint (lr_per_page r1) < 1 \<or> sint (lr_per_page r1) > sint MAX_PER_PAGE
                then r1\<lparr>lr_per_page := DEFAULT_PER_PAGE\<rparr> else r1)
      in if lr_order r2 \<noteq> ''asc'' \<and> lr_order r2 \<noteq> ''desc'' then r2\<lparr>lr_order := ''''\<rparr> else r2)"

definition paged :: "i64 \<Rightarrow> i64 \<Rightarrow> list_request" where
  "paged page per_page =
     normalize (list_request_default\<lparr>lr_page := page, lr_per_page := per_page\<rparr>)"

text \<open>\<open>str::parse::<i64>\<close>: an optional sign, at least one digit, and a value in range.\<close>

definition parse_i64 :: "string \<Rightarrow> i64 option" where
  "parse_i64 s =
     (let (neg, ds) = (case s of
            c # cs \<Rightarrow> if c = CHR ''+'' then (False, cs)
                      else if c = CHR ''-'' then (True, cs) else (False, s)
          | [] \<Rightarrow> (False, s));
          value = (if neg then - int (digits_value ds) else int (digits_value ds))
      in if ds \<noteq> [] \<and> list_all is_ascii_digit ds \<and> - (2 ^ 63) \<le> value \<and> value < 2 ^ 63
         then Some (word_of_int value) else None)"

text \<open>\<open>str::parse::<i32>\<close>.\<close>

definition parse_i32 :: "string \<Rightarrow> int option" where
  "parse_i32 s = (case parse_i64 s of
     None \<Rightarrow> None
   | Some n \<Rightarrow> if - (2 ^ 31) \<le> sint n \<and> sint n < 2 ^ 31 then Some (sint n) else None)"

definition query_pair :: "string \<times> string \<Rightarrow> list_request \<Rightarrow> list_request" where
  "query_pair = (\<lambda>(key, value) r.
     if key = ''page'' then r\<lparr>lr_page := (case parse_i64 value of Some n \<Rightarrow> n | None \<Rightarrow> 1)\<rparr>
     else if key = ''per_page'' then
       r\<lparr>lr_per_page := (case parse_i64 value of Some n \<Rightarrow> n | None \<Rightarrow> DEFAULT_PER_PAGE)\<rparr>
     else if key = ''sort_by'' then r\<lparr>lr_sort_by := value\<rparr>
     else if key = ''order'' then r\<lparr>lr_order := value\<rparr>
     else r\<lparr>lr_filters := (lr_filters r)(key \<mapsto> value)\<rparr>)"

definition from_query :: "(string \<times> string) list \<Rightarrow> list_request" where
  "from_query pairs = normalize (fold query_pair pairs list_request_default)"

definition offset :: "list_request \<Rightarrow> i64" where
  "offset r = (lr_page r - 1) * lr_per_page r"

definition filter_value :: "list_request \<Rightarrow> string \<Rightarrow> string option" where
  "filter_value r key = (case lr_filters r key of
     None \<Rightarrow> None | Some value \<Rightarrow> if value \<noteq> '''' then Some value else None)"

record meta_data =
  total_count :: i64
  total_pages :: i64
  current_page :: i64
  per_page :: i64
  next_page :: "i64 option"
  previous_page :: "i64 option"

record 'a paged_data =
  pd_data :: "'a list"
  pd_meta :: meta_data

definition option_filter :: "('a \<Rightarrow> bool) \<Rightarrow> 'a option \<Rightarrow> 'a option" where
  "option_filter p v = (case v of None \<Rightarrow> None | Some x \<Rightarrow> if p x then Some x else None)"

text \<open>Division and remainder of \<open>i64\<close> truncate towards zero.\<close>

definition data_new :: "'a list \<Rightarrow> i64 \<Rightarrow> i64 \<Rightarrow> i64 \<Rightarrow> 'a paged_data" where
  "data_new items tot current per =
     (let per' = (if sint per < 1 then 1 else per);
          quotient = word_of_int (sint tot sdiv sint per');
          pages = (if sint tot smod sint per' \<noteq> 0 then quotient + 1 else quotient);
          next_p = option_filter (\<lambda>p. sint p \<le> sint pages) (Some (current + 1));
          prev_p = option_filter (\<lambda>p. 1 \<le> sint p \<and> sint p \<le> sint pages) (Some (current - 1))
      in \<lparr>pd_data = items, pd_meta = \<lparr>total_count = tot, total_pages = pages,
           current_page = current, per_page = per', next_page = next_p,
           previous_page = prev_p\<rparr>\<rparr>)"

definition data_map :: "('a \<Rightarrow> 'b) \<Rightarrow> 'a paged_data \<Rightarrow> 'b paged_data" where
  "data_map f d = \<lparr>pd_data = map f (pd_data d), pd_meta = pd_meta d\<rparr>"

section \<open>Facts\<close>

text \<open>A normalized request, in whatever way it came in.\<close>

definition request_ok :: "list_request \<Rightarrow> bool" where
  "request_ok r = (1 \<le> sint (lr_page r) \<and> 1 \<le> sint (lr_per_page r) \<and> sint (lr_per_page r) \<le> 100 \<and>
     lr_order r \<in> {'''', ''asc'', ''desc''})"

lemma normalize_ok: "request_ok (normalize r)"
  by (auto simp: normalize_def request_ok_def Let_def DEFAULT_PER_PAGE_def MAX_PER_PAGE_def)

lemma normalize_idem: "request_ok r \<Longrightarrow> normalize r = r"
  by (auto simp: normalize_def request_ok_def Let_def MAX_PER_PAGE_def)

lemma sint_range64: "- (2 ^ 63) \<le> sint (w :: i64) \<and> sint w < 2 ^ 63"
  using sint_range_size [of w] by (simp add: word_size)

lemma sint_of_int64: "- (2 ^ 63) \<le> i \<Longrightarrow> i < 2 ^ 63 \<Longrightarrow> sint (word_of_int i :: i64) = i"
  by (simp add: signed_of_int signed_take_bit_int_eq_self)

lemma sint_mult64:
  "- (2 ^ 63) \<le> sint a * sint b \<Longrightarrow> sint a * sint b < 2 ^ 63 \<Longrightarrow> sint ((a :: i64) * b) = sint a * sint b"
  using sint_of_int64 [of "sint a * sint b"] by simp

lemma sint_add64:
  "- (2 ^ 63) \<le> sint a + sint b \<Longrightarrow> sint a + sint b < 2 ^ 63 \<Longrightarrow> sint ((a :: i64) + b) = sint a + sint b"
  using sint_of_int64 [of "sint a + sint b"] by simp

lemma sint_sub64:
  "- (2 ^ 63) \<le> sint a - sint b \<Longrightarrow> sint a - sint b < 2 ^ 63 \<Longrightarrow> sint ((a :: i64) - b) = sint a - sint b"
  using sint_of_int64 [of "sint a - sint b"] by simp

text \<open>
  The row offset is the exact product whenever it fits 63 bits; with at most 100 rows a page that
  is every page below \<open>2 ^ 56\<close>. Beyond that the multiplication wraps.
\<close>

lemma offset_exact:
  assumes "request_ok r" and "sint (lr_page r) \<le> 2 ^ 56"
  shows "sint (offset r) = (sint (lr_page r) - 1) * sint (lr_per_page r)"
    and "0 \<le> sint (offset r)"
proof -
  have p: "sint (lr_page r - 1) = sint (lr_page r) - 1"
    using assms by (subst sint_sub64) (auto simp: request_ok_def)
  have b: "0 \<le> (sint (lr_page r) - 1) * sint (lr_per_page r)"
    "(sint (lr_page r) - 1) * sint (lr_per_page r) \<le> 2 ^ 56 * 100"
    using assms mult_mono [of "sint (lr_page r) - 1" "2 ^ 56" "sint (lr_per_page r)" 100]
    by (auto simp: request_ok_def)
  then show "sint (offset r) = (sint (lr_page r) - 1) * sint (lr_per_page r)"
    unfolding offset_def by (subst sint_mult64) (simp_all add: p)
  then show "0 \<le> sint (offset r)" using b by simp
qed

lemma ceiling_div:
  fixes n d :: int
  assumes "0 \<le> n" "1 \<le> d"
  shows "n div d + (if n mod d \<noteq> 0 then 1 else 0) = (n + d - 1) div d"
proof (cases "n mod d = 0")
  case True
  then have eq: "n + d - 1 = d * (n div d) + (d - 1)" by (auto simp: mod_eq_0_iff_dvd)
  have "(n + d - 1) div d = n div d" by (rule int_div_pos_eq [OF eq]) (use assms in auto)
  then show ?thesis using True by simp
next
  case False
  have "n + d - 1 = d * (n div d + 1) + (n mod d - 1)"
    using mult_div_mod_eq [of d n] by (simp add: distrib_left)
  moreover have "0 \<le> n mod d - 1" "n mod d - 1 < d"
    using False assms pos_mod_sign [of d n] pos_mod_bound [of d n] by linarith+
  ultimately have "(n + d - 1) div d = n div d + 1" by (intro int_div_pos_eq)
  then show ?thesis using False by simp
qed

lemma le_div_iff:
  fixes k a d :: int
  assumes "1 \<le> d"
  shows "k \<le> a div d \<longleftrightarrow> k * d \<le> a"
proof
  assume "k \<le> a div d"
  then have "k * d \<le> a div d * d" using assms by simp
  also have "\<dots> \<le> a" using assms div_mult_mod_eq [of a d] pos_mod_sign [of d a] by linarith
  finally show "k * d \<le> a" .
next
  assume "k * d \<le> a"
  then have "k * d div d \<le> a div d" using assms by (intro zdiv_mono1) auto
  then show "k \<le> a div d" using assms by simp
qed

lemma data_new_pages:
  assumes "0 \<le> sint tot" and "1 \<le> sint per"
  shows "sint (total_pages (pd_meta (data_new items tot cur per))) = (sint tot + sint per - 1) div sint per"
proof -
  let ?q = "sint tot div sint per"
  have div: "sint tot sdiv sint per = ?q" and rem: "sint tot smod sint per = sint tot mod sint per"
    using assms by (auto simp: signed_divide_int_def signed_modulo_int_def sgn_if minus_mult_div_eq_mod)
  have q: "0 \<le> ?q" "?q \<le> sint tot"
    using assms by (auto simp: pos_imp_zdiv_nonneg_iff intro: div_le_dividend zdiv_mono2 [of _ 1, simplified])
  have small: "?q + 1 < 2 ^ 63" if "sint tot mod sint per \<noteq> 0"
  proof -
    have "sint per \<noteq> 1" using that by auto
    then have "2 \<le> sint per" using assms by simp
    then have "?q \<le> sint tot div 2" using assms by (intro zdiv_mono2) auto
    moreover have "sint tot div 2 \<le> 2 ^ 62"
      using sint_range64 [of tot] zdiv_mono1 [of "sint tot" "2 ^ 63" 2] by simp
    ultimately show ?thesis by simp
  qed
  have "sint (word_of_int ?q :: i64) = ?q" using q sint_range64 [of tot] by (intro sint_of_int64) auto
  moreover have "sint (word_of_int ?q + 1 :: i64) = ?q + 1" if "sint tot mod sint per \<noteq> 0"
    using calculation small [OF that] q sint_add64 [of "word_of_int ?q" 1] by simp
  ultimately show ?thesis
    using ceiling_div [OF assms] assms by (simp add: data_new_def Let_def div rem split: if_splits)
qed

text \<open>The links of a page: there is a next page exactly when rows remain after this one.\<close>

lemma next_page_iff:
  assumes "0 \<le> sint tot" "1 \<le> sint per" "0 \<le> sint cur" "sint cur < 2 ^ 63 - 1"
  shows "next_page (pd_meta (data_new items tot cur per)) \<noteq> None \<longleftrightarrow> sint cur * sint per < sint tot"
proof -
  let ?pages = "(sint tot + sint per - 1) div sint per"
  have step: "sint (cur + 1) = sint cur + 1" using assms by (subst sint_add64) auto
  have "next_page (pd_meta (data_new items tot cur per)) \<noteq> None \<longleftrightarrow>
      sint (cur + 1) \<le> sint (total_pages (pd_meta (data_new items tot cur per)))"
    by (simp add: data_new_def Let_def option_filter_def)
  also have "\<dots> \<longleftrightarrow> sint cur + 1 \<le> ?pages" by (simp add: step data_new_pages [OF assms(1,2)])
  also have "\<dots> \<longleftrightarrow> (sint cur + 1) * sint per \<le> sint tot + sint per - 1"
    by (rule le_div_iff [OF assms(2)])
  also have "\<dots> \<longleftrightarrow> sint cur * sint per < sint tot" by (auto simp: algebra_simps)
  finally show ?thesis .
qed

end
