(* ===== verification/Repository.thy ===== *)
theory Repository
  imports Domain Float64 Pagination "HOL-Library.Product_Lexorder"
begin

text \<open>
  The PostgreSQL store, \<^verbatim>\<open>module/schema/adapter/repository/postgres.rs\<close>: the stored records and
  their conversions, then the queries of \<open>PgSchemaRepository\<close> over the two tables of
  \<^verbatim>\<open>migrations/schema\<close>. A table is the list of its rows; \<open>schemas.id\<close> and
  \<open>user_schemas.schema_id\<close> are primary keys and deleting a schema cascades to its owner row.

  Three things come from outside. \<open>store_env\<close> holds the UUID parser and printer of the uuid crate
  and the text of a decoding error. Every statement the code sends may fail: \<open>fault i\<close> is the
  database's error on the \<open>i\<close>-th statement of an operation, \<open>None\<close> when it succeeds. The id and the
  clock a statement's defaults produce (\<open>uuid_generate_v4()\<close>, \<open>NOW()\<close>) are arguments.
\<close>

type_synonym uuid = "128 word"

section \<open>Stored records\<close>

record stored_position =
  sp_x :: f64
  sp_y :: f64

record stored_data_type =
  sd_kind :: string
  sd_length :: "u32 option"
  sd_precision :: "u32 option"
  sd_scale :: "u32 option"

record stored_foreign_key =
  sf_entity_id :: string
  sf_attribute_id :: string

record stored_attribute =
  sa_id :: string
  sa_name :: string
  sa_description :: string
  sa_data_type :: stored_data_type
  sa_nullable :: bool
  sa_primary_key :: bool
  sa_unique :: bool
  sa_foreign_key :: "stored_foreign_key option"
  sa_default_value :: "string option"

record stored_entity =
  se_id :: string
  se_name :: string
  se_description :: string
  se_attributes :: "stored_attribute list"
  se_position :: stored_position

record stored_relationship =
  sr_id :: string
  sr_name :: string
  sr_description :: string
  sr_from_entity_id :: string
  sr_from_attribute_id :: string
  sr_to_entity_id :: string
  sr_to_attribute_id :: string
  sr_cardinality :: string

definition store_position :: "position \<Rightarrow> stored_position" where
  "store_position p = \<lparr>sp_x = pos_x p, sp_y = pos_y p\<rparr>"

definition store_data_type :: "data_type \<Rightarrow> stored_data_type" where
  "store_data_type t = \<lparr>sd_kind = kind_as_str (dt_kind t), sd_length = dt_length t,
     sd_precision = dt_precision t, sd_scale = dt_scale t\<rparr>"

definition store_foreign_key :: "foreign_key_ref \<Rightarrow> stored_foreign_key" where
  "store_foreign_key r = \<lparr>sf_entity_id = fk_entity_id r, sf_attribute_id = fk_attribute_id r\<rparr>"

definition store_attribute :: "attribute \<Rightarrow> stored_attribute" where
  "store_attribute a =
     \<lparr>sa_id = attr_id a, sa_name = attr_name a, sa_description = attr_description a,
      sa_data_type = store_data_type (attr_data_type a), sa_nullable = attr_nullable a,
      sa_primary_key = attr_primary_key a, sa_unique = attr_unique a,
      sa_foreign_key = map_option store_foreign_key (attr_foreign_key a),
      sa_default_value = attr_default_value a\<rparr>"

definition store_entity :: "entity \<Rightarrow> stored_entity" where
  "store_entity e =
     \<lparr>se_id = ent_id e, se_name = ent_name e, se_description = ent_description e,
      se_attributes = map store_attribute (ent_attributes e),
      se_position = store_position (ent_position e)\<rparr>"

definition store_relationship :: "relationship \<Rightarrow> stored_relationship" where
  "store_relationship r =
     \<lparr>sr_id = rel_id r, sr_name = rel_name r, sr_description = rel_description r,
      sr_from_entity_id = from_entity_id r, sr_from_attribute_id = from_attribute_id r,
      sr_to_entity_id = to_entity_id r, sr_to_attribute_id = to_attribute_id r,
      sr_cardinality = cardinality_as_str (rel_cardinality r)\<rparr>"

definition load_data_type :: "stored_data_type \<Rightarrow> domain_error + data_type" where
  "load_data_type t =
     (case kind_from_str (sd_kind t) of
        None \<Rightarrow> Inl (Storage (''`'' @ sd_kind t @ ''` is not a known data type''))
      | Some kind \<Rightarrow> Inr \<lparr>dt_kind = kind, dt_length = sd_length t, dt_precision = sd_precision t,
          dt_scale = sd_scale t\<rparr>)"

definition load_attribute :: "stored_attribute \<Rightarrow> domain_error + attribute" where
  "load_attribute a =
     (case load_data_type (sa_data_type a) of
        Inl e \<Rightarrow> Inl e
      | Inr t \<Rightarrow> Inr
          \<lparr>attr_id = sa_id a, attr_name = sa_name a, attr_description = sa_description a,
           attr_data_type = t, attr_nullable = sa_nullable a, attr_primary_key = sa_primary_key a,
           attr_unique = sa_unique a,
           attr_foreign_key = map_option (\<lambda>r. foreign_key_ref_new (sf_entity_id r) (sf_attribute_id r))
             (sa_foreign_key a),
           attr_default_value = sa_default_value a\<rparr>)"

text \<open>\<open>collect::<Result<Vec<_>, _>>()\<close>: the first error, or all the values.\<close>

fun collect_results :: "('e + 'a) list \<Rightarrow> 'e + 'a list" where
  "collect_results [] = Inr []"
| "collect_results (Inl e # rest) = Inl e"
| "collect_results (Inr x # rest) =
     (case collect_results rest of Inl e \<Rightarrow> Inl e | Inr xs \<Rightarrow> Inr (x # xs))"

definition load_entity :: "stored_entity \<Rightarrow> domain_error + entity" where
  "load_entity e =
     (case collect_results (map load_attribute (se_attributes e)) of
        Inl err \<Rightarrow> Inl err
      | Inr attributes \<Rightarrow> Inr
          \<lparr>ent_id = se_id e, ent_name = se_name e, ent_description = se_description e,
           ent_attributes = attributes,
           ent_position = position_new (sp_x (se_position e)) (sp_y (se_position e))\<rparr>)"

definition load_relationship :: "stored_relationship \<Rightarrow> domain_error + relationship" where
  "load_relationship r =
     (case cardinality_from_str (sr_cardinality r) of
        None \<Rightarrow> Inl (Storage (''`'' @ sr_cardinality r @ ''` is not a known cardinality''))
      | Some c \<Rightarrow> Inr
          \<lparr>rel_id = sr_id r, rel_name = sr_name r, rel_description = sr_description r,
           from_entity_id = sr_from_entity_id r, from_attribute_id = sr_from_attribute_id r,
           to_entity_id = sr_to_entity_id r, to_attribute_id = sr_to_attribute_id r,
           rel_cardinality = c\<rparr>)"

section \<open>Tables\<close>

record schema_row =
  row_id :: uuid
  row_name :: string
  row_description :: string
  row_entities :: "stored_entity list"
  row_relationships :: "stored_relationship list"
  row_created_at :: timestamp
  row_updated_at :: timestamp

record owner_row =
  own_user :: uuid
  own_schema :: uuid
  own_created_at :: timestamp

record store =
  schema_rows :: "schema_row list"
  owner_rows :: "owner_row list"

record store_env =
  parse_uuid :: "string \<Rightarrow> uuid option"
  show_uuid :: "uuid \<Rightarrow> string"
  decode_error :: string

type_synonym faults = "nat \<Rightarrow> string option"

text \<open>
  A coordinate that is not finite is written to the JSONB column as null, which does not decode
  as a double.
\<close>

definition coordinate_decodes :: "f64 \<Rightarrow> bool" where
  "coordinate_decodes x = (f64_exponent x \<noteq> 2047)"

definition entity_decodes :: "stored_entity \<Rightarrow> bool" where
  "entity_decodes e = (coordinate_decodes (sp_x (se_position e)) \<and> coordinate_decodes (sp_y (se_position e)))"

definition map_schema :: "store_env \<Rightarrow> schema_row \<Rightarrow> domain_error + schema" where
  "map_schema env row =
     (if \<not> list_all entity_decodes (row_entities row) then Inl (Storage (decode_error env))
      else case collect_results (map load_entity (row_entities row)) of
        Inl e \<Rightarrow> Inl e
      | Inr es \<Rightarrow>
         (case collect_results (map load_relationship (row_relationships row)) of
            Inl e \<Rightarrow> Inl e
          | Inr rs \<Rightarrow> Inr
              \<lparr>sch_id = show_uuid env (row_id row), sch_name = row_name row,
               sch_description = row_description row, sch_entities = es, sch_relationships = rs,
               created_at = row_created_at row, updated_at = row_updated_at row\<rparr>))"

text \<open>\<open>jsonb_array_length\<close> is an \<open>i32\<close>; the counts are lengths of lists in a row.\<close>

definition map_summary :: "store_env \<Rightarrow> schema_row \<Rightarrow> schema_summary" where
  "map_summary env row =
     \<lparr>sum_id = show_uuid env (row_id row), sum_name = row_name row, sum_description = row_description row,
      entity_count = of_nat (length (row_entities row)),
      relationship_count = of_nat (length (row_relationships row)),
      sum_created_at = row_created_at row, sum_updated_at = row_updated_at row\<rparr>"

definition drawing :: "schema_draft \<Rightarrow> stored_entity list \<times> stored_relationship list" where
  "drawing d = (map store_entity (draft_entities d), map store_relationship (draft_relationships d))"

text \<open>The join of the two tables for one owner.\<close>

definition owns :: "store \<Rightarrow> uuid \<Rightarrow> uuid \<Rightarrow> bool" where
  "owns st owner sid = list_ex (\<lambda>w. own_schema w = sid \<and> own_user w = owner) (owner_rows st)"

definition owned_rows :: "store \<Rightarrow> uuid \<Rightarrow> schema_row list" where
  "owned_rows st owner = filter (\<lambda>row. owns st owner (row_id row)) (schema_rows st)"

section \<open>The repository\<close>

text \<open>\<open>LOWER\<close> folds case as \<open>to_lowercase\<close> does on the characters modelled here.\<close>

definition name_taken :: "store \<Rightarrow> uuid \<Rightarrow> string \<Rightarrow> uuid option \<Rightarrow> bool" where
  "name_taken st owner name except =
     list_ex (\<lambda>row. to_lowercase (row_name row) = to_lowercase name \<and> Some (row_id row) \<noteq> except)
       (owned_rows st owner)"

definition reserve_name ::
  "store \<Rightarrow> uuid \<Rightarrow> string \<Rightarrow> uuid option \<Rightarrow> string option \<Rightarrow> string option \<Rightarrow> domain_error option" where
  "reserve_name st owner name except lock_fault query_fault =
     (case lock_fault of
        Some e \<Rightarrow> Some (Storage e)
      | None \<Rightarrow>
         (case query_fault of
            Some e \<Rightarrow> Some (Storage e)
          | None \<Rightarrow> if name_taken st owner name except then Some (DuplicateSchemaName name) else None))"

definition pg_index ::
  "store_env \<Rightarrow> faults \<Rightarrow> uuid \<Rightarrow> list_request \<Rightarrow> store \<Rightarrow> domain_error + schema_summary list \<times> i64" where
  "pg_index env fault owner request st =
     (case fault 0 of
        Some e \<Rightarrow> Inl (Storage e)
      | None \<Rightarrow>
         (let total_rows = of_nat (length (filter (\<lambda>w. own_user w = owner) (owner_rows st))) in
          case fault 1 of
            Some e \<Rightarrow> Inl (Storage e)
          | None \<Rightarrow>
             (if sint (offset request) < 0 then Inl (Storage ''OFFSET must not be negative'')
              else if sint (lr_per_page request) < 0 then Inl (Storage ''LIMIT must not be negative'')
              else
                (let mine = sort_key (\<lambda>w. (own_created_at w, own_schema w))
                       (filter (\<lambda>w. own_user w = owner) (owner_rows st));
                     joined = concat (map (\<lambda>w. filter (\<lambda>row. row_id row = own_schema w) (schema_rows st)) mine);
                     page = take (nat (sint (lr_per_page request))) (drop (nat (sint (offset request))) joined)
                 in Inr (map (map_summary env) page, total_rows)))))"

definition pg_create ::
  "store_env \<Rightarrow> faults \<Rightarrow> uuid \<Rightarrow> timestamp \<Rightarrow> uuid \<Rightarrow> schema_draft \<Rightarrow> store \<Rightarrow> (domain_error + schema) \<times> store" where
  "pg_create env fault new_id now owner d st =
     (let (es, rs) = drawing d;
          row = \<lparr>row_id = new_id, row_name = draft_name d, row_description = draft_description d,
            row_entities = es, row_relationships = rs, row_created_at = now, row_updated_at = now\<rparr>
      in case fault 0 of
           Some e \<Rightarrow> (Inl (Storage e), st)
         | None \<Rightarrow>
            (case reserve_name st owner (draft_name d) None (fault 1) (fault 2) of
               Some e \<Rightarrow> (Inl e, st)
             | None \<Rightarrow>
                (case fault 3 of
                   Some e \<Rightarrow> (Inl (Storage e), st)
                 | None \<Rightarrow>
                    (if new_id \<in> set (map row_id (schema_rows st)) then
                       (Inl (Storage ''duplicate key value violates unique constraint''), st)
                     else case map_schema env row of
                       Inl e \<Rightarrow> (Inl e, st)
                     | Inr s \<Rightarrow>
                        (case fault 4 of
                           Some e \<Rightarrow> (Inl (Storage e), st)
                         | None \<Rightarrow>
                            (case fault 5 of
                               Some e \<Rightarrow> (Inl (Storage e), st)
                             | None \<Rightarrow>
                                (Inr s, st\<lparr>schema_rows := schema_rows st @ [row],
                                   owner_rows := owner_rows st @
                                     [\<lparr>own_user = owner, own_schema = new_id, own_created_at = created_at s\<rparr>]\<rparr>)))))))"

definition find_row ::
  "store_env \<Rightarrow> faults \<Rightarrow> (schema_row \<Rightarrow> bool) \<Rightarrow> uuid \<Rightarrow> store \<Rightarrow> domain_error + schema option" where
  "find_row env fault p owner st =
     (case fault 0 of
        Some e \<Rightarrow> Inl (Storage e)
      | None \<Rightarrow>
         (case List.find p (owned_rows st owner) of
            None \<Rightarrow> Inr None
          | Some row \<Rightarrow> (case map_schema env row of Inl e \<Rightarrow> Inl e | Inr s \<Rightarrow> Inr (Some s))))"

definition pg_find_by_id ::
  "store_env \<Rightarrow> faults \<Rightarrow> uuid \<Rightarrow> string \<Rightarrow> store \<Rightarrow> domain_error + schema option" where
  "pg_find_by_id env fault owner ident st =
     (case parse_uuid env ident of
        None \<Rightarrow> Inr None
      | Some u \<Rightarrow> find_row env fault (\<lambda>row. row_id row = u) owner st)"

definition pg_find_by_name ::
  "store_env \<Rightarrow> faults \<Rightarrow> uuid \<Rightarrow> string \<Rightarrow> store \<Rightarrow> domain_error + schema option" where
  "pg_find_by_name env fault owner name st =
     find_row env fault (\<lambda>row. to_lowercase (row_name row) = to_lowercase name) owner st"

definition pg_replace ::
  "store_env \<Rightarrow> faults \<Rightarrow> timestamp \<Rightarrow> uuid \<Rightarrow> string \<Rightarrow> schema_draft \<Rightarrow> store \<Rightarrow> (domain_error + schema) \<times> store" where
  "pg_replace env fault now owner ident d st =
     (case parse_uuid env ident of
        None \<Rightarrow> (Inl SchemaNotFound, st)
      | Some u \<Rightarrow>
         (let (es, rs) = drawing d in
          case fault 0 of
            Some e \<Rightarrow> (Inl (Storage e), st)
          | None \<Rightarrow>
             (case reserve_name st owner (draft_name d) (Some u) (fault 1) (fault 2) of
                Some e \<Rightarrow> (Inl e, st)
              | None \<Rightarrow>
                 (case fault 3 of
                    Some e \<Rightarrow> (Inl (Storage e), st)
                  | None \<Rightarrow>
                     (case List.find (\<lambda>row. row_id row = u) (owned_rows st owner) of
                        None \<Rightarrow> (Inl SchemaNotFound, st)
                      | Some row \<Rightarrow>
                         (let row' = row\<lparr>row_name := draft_name d, row_description := draft_description d,
                                row_entities := es, row_relationships := rs, row_updated_at := now\<rparr>
                          in case map_schema env row' of
                               Inl e \<Rightarrow> (Inl e, st)
                             | Inr s \<Rightarrow>
                                (case fault 4 of
                                   Some e \<Rightarrow> (Inl (Storage e), st)
                                 | None \<Rightarrow>
                                    (Inr s, st\<lparr>schema_rows :=
                                       map (\<lambda>r. if row_id r = u then row' else r) (schema_rows st)\<rparr>))))))))"

definition pg_delete :: "store_env \<Rightarrow> faults \<Rightarrow> uuid \<Rightarrow> string \<Rightarrow> store \<Rightarrow> (domain_error + unit) \<times> store" where
  "pg_delete env fault owner ident st =
     (case parse_uuid env ident of
        None \<Rightarrow> (Inl SchemaNotFound, st)
      | Some u \<Rightarrow>
         (case fault 0 of
            Some e \<Rightarrow> (Inl (Storage e), st)
          | None \<Rightarrow>
             (if list_ex (\<lambda>row. row_id row = u) (owned_rows st owner) then
                (Inr (), st\<lparr>schema_rows := filter (\<lambda>row. row_id row \<noteq> u) (schema_rows st),
                            owner_rows := filter (\<lambda>w. own_schema w \<noteq> u) (owner_rows st)\<rparr>)
              else (Inl SchemaNotFound, st))))"

section \<open>Storage keeps what it is given\<close>

lemma kind_round_trip: "kind_from_str (kind_as_str k) = Some k"
  by (cases k) (simp_all add: text_simps kind_from_str_def kind_variants_def)

lemma cardinality_round_trip: "cardinality_from_str (cardinality_as_str c) = Some c"
  by (cases c) (simp_all add: text_simps cardinality_from_str_def)

lemma load_store_data_type: "load_data_type (store_data_type t) = Inr t"
  by (simp add: load_data_type_def store_data_type_def kind_round_trip)

lemma load_store_attribute: "load_attribute (store_attribute a) = Inr a"
  by (cases "attr_foreign_key a")
    (simp_all add: load_attribute_def store_attribute_def load_store_data_type store_foreign_key_def
      foreign_key_ref_new_def)

lemma collect_results_map: "(\<And>x. x \<in> set xs \<Longrightarrow> f (g x) = Inr x) \<Longrightarrow> collect_results (map f (map g xs)) = Inr xs"
  by (induction xs) simp_all

lemma load_store_entity: "load_entity (store_entity e) = Inr e"
  using collect_results_map [of "ent_attributes e" load_attribute store_attribute]
  by (simp add: load_entity_def store_entity_def load_store_attribute store_position_def position_new_def)

lemma load_store_relationship: "load_relationship (store_relationship r) = Inr r"
  by (simp add: load_relationship_def store_relationship_def cardinality_round_trip)

definition layout_finite :: "entity list \<Rightarrow> bool" where
  "layout_finite es = list_all (\<lambda>e. coordinate_decodes (pos_x (ent_position e)) \<and>
     coordinate_decodes (pos_y (ent_position e))) es"

lemma map_schema_drawing:
  assumes "drawing d = (es, rs)"
  shows "map_schema env \<lparr>row_id = u, row_name = n, row_description = ds, row_entities = es,
      row_relationships = rs, row_created_at = c, row_updated_at = t\<rparr> =
    (if layout_finite (draft_entities d) then
       Inr \<lparr>sch_id = show_uuid env u, sch_name = n, sch_description = ds, sch_entities = draft_entities d,
         sch_relationships = draft_relationships d, created_at = c, updated_at = t\<rparr>
     else Inl (Storage (decode_error env)))"
proof -
  have es: "es = map store_entity (draft_entities d)" and rs: "rs = map store_relationship (draft_relationships d)"
    using assms by (auto simp: drawing_def)
  have "list_all entity_decodes es = layout_finite (draft_entities d)"
    by (simp add: es layout_finite_def list_all_iff entity_decodes_def store_entity_def store_position_def)
  moreover have "collect_results (map load_entity es) = Inr (draft_entities d)"
    unfolding es by (rule collect_results_map) (rule load_store_entity)
  moreover have "collect_results (map load_relationship rs) = Inr (draft_relationships d)"
    unfolding rs by (rule collect_results_map) (rule load_store_relationship)
  ultimately show ?thesis by (simp add: map_schema_def)
qed

section \<open>The tables stay consistent\<close>

definition names_unique :: "store \<Rightarrow> bool" where
  "names_unique st = (\<forall>owner. \<forall>r1 \<in> set (owned_rows st owner). \<forall>r2 \<in> set (owned_rows st owner).
     to_lowercase (row_name r1) = to_lowercase (row_name r2) \<longrightarrow> row_id r1 = row_id r2)"

definition store_ok :: "store \<Rightarrow> bool" where
  "store_ok st = (distinct (map row_id (schema_rows st)) \<and> distinct (map own_schema (owner_rows st)) \<and>
     own_schema ` set (owner_rows st) \<subseteq> row_id ` set (schema_rows st) \<and> names_unique st)"

lemma owned_rows_set: "row \<in> set (owned_rows st p) \<longleftrightarrow> row \<in> set (schema_rows st) \<and> owns st p (row_id row)"
  by (auto simp: owned_rows_def)

lemma owns_unique: "store_ok st \<Longrightarrow> owns st p u \<Longrightarrow> owns st q u \<Longrightarrow> p = q"
  by (auto simp: store_ok_def owns_def list_ex_iff distinct_map inj_on_def)

lemma row_unique: "store_ok st \<Longrightarrow> r \<in> set (schema_rows st) \<Longrightarrow> r' \<in> set (schema_rows st) \<Longrightarrow> row_id r = row_id r' \<Longrightarrow> r = r'"
  by (auto simp: store_ok_def distinct_map inj_on_def)

lemma find_Some: "List.find p xs = Some x \<Longrightarrow> x \<in> set xs \<and> p x"
  by (auto simp: find_Some_iff)

text \<open>The successful branch of each operation that writes.\<close>

lemma pg_createE:
  assumes "pg_create env fault new_id now owner d st = (Inr s, st')"
  obtains row where "new_id \<notin> row_id ` set (schema_rows st)" "\<not> name_taken st owner (draft_name d) None"
    "row_id row = new_id" "row_name row = draft_name d" "map_schema env row = Inr s"
    "st' = st\<lparr>schema_rows := schema_rows st @ [row], owner_rows := owner_rows st @
       [\<lparr>own_user = owner, own_schema = new_id, own_created_at = created_at s\<rparr>]\<rparr>"
    "layout_finite (draft_entities d)"
    "s = schema_new (show_uuid env new_id) d now"
proof -
  obtain es rs where dr: "drawing d = (es, rs)" by fastforce
  define row where "row = \<lparr>row_id = new_id, row_name = draft_name d, row_description = draft_description d,
    row_entities = es, row_relationships = rs, row_created_at = now, row_updated_at = now\<rparr>"
  have new: "new_id \<notin> row_id ` set (schema_rows st)" and free: "\<not> name_taken st owner (draft_name d) None"
    and s: "map_schema env row = Inr s"
    and st': "st' = st\<lparr>schema_rows := schema_rows st @ [row], owner_rows := owner_rows st @
       [\<lparr>own_user = owner, own_schema = new_id, own_created_at = created_at s\<rparr>]\<rparr>"
    using assms by (auto simp: pg_create_def dr reserve_name_def Let_def row_def [symmetric]
        split: option.splits if_splits sum.splits)
  have "layout_finite (draft_entities d) \<and> s = schema_new (show_uuid env new_id) d now"
    using s unfolding row_def map_schema_drawing [OF dr] by (auto simp: schema_new_def split: if_splits)
  then show thesis using that [OF new free _ _ s st'] by (simp add: row_def)
qed

lemma pg_create_error: "pg_create env fault new_id now owner d st = (Inl e, st') \<Longrightarrow> st' = st"
  by (auto simp: pg_create_def drawing_def Let_def split: option.splits if_splits sum.splits)

lemma pg_replaceE:
  assumes "pg_replace env fault now owner ident d st = (Inr s, st')"
  obtains u row row' where "parse_uuid env ident = Some u" "\<not> name_taken st owner (draft_name d) (Some u)"
    "List.find (\<lambda>r. row_id r = u) (owned_rows st owner) = Some row"
    "row_id row' = row_id row" "row_name row' = draft_name d" "map_schema env row' = Inr s"
    "st' = st\<lparr>schema_rows := map (\<lambda>r. if row_id r = u then row' else r) (schema_rows st)\<rparr>"
    "draft s = d" "created_at s = row_created_at row" "updated_at s = now"
proof -
  obtain es rs where dr: "drawing d = (es, rs)" by fastforce
  obtain u where u: "parse_uuid env ident = Some u" using assms by (auto simp: pg_replace_def split: option.splits)
  obtain row where row: "List.find (\<lambda>r. row_id r = u) (owned_rows st owner) = Some row"
    and free: "\<not> name_taken st owner (draft_name d) (Some u)"
    using assms by (auto simp: pg_replace_def u dr reserve_name_def Let_def split: option.splits if_splits)
  define row' where "row' = row\<lparr>row_name := draft_name d, row_description := draft_description d,
    row_entities := es, row_relationships := rs, row_updated_at := now\<rparr>"
  have fields: "row' = \<lparr>row_id = row_id row, row_name = draft_name d, row_description = draft_description d,
      row_entities = es, row_relationships = rs, row_created_at = row_created_at row, row_updated_at = now\<rparr>"
    by (simp add: row'_def)
  have s: "map_schema env row' = Inr s" and st': "st' = st\<lparr>schema_rows := map (\<lambda>r. if row_id r = u then row' else r) (schema_rows st)\<rparr>"
    using assms by (auto simp: pg_replace_def u dr row reserve_name_def Let_def row'_def [symmetric]
        split: option.splits if_splits sum.splits)
  have "draft s = d \<and> created_at s = row_created_at row \<and> updated_at s = now"
    using s unfolding fields map_schema_drawing [OF dr] by (auto simp: draft_def split: if_splits)
  then show thesis using that [OF u free row _ _ s st'] by (simp add: row'_def)
qed

lemma pg_replace_error: "pg_replace env fault now owner ident d st = (Inl e, st') \<Longrightarrow> st' = st"
  by (auto simp: pg_replace_def drawing_def Let_def split: option.splits if_splits sum.splits)

lemma pg_deleteE:
  assumes "pg_delete env fault owner ident st = (Inr x, st')"
  obtains u where "parse_uuid env ident = Some u" "list_ex (\<lambda>row. row_id row = u) (owned_rows st owner)"
    "st' = st\<lparr>schema_rows := filter (\<lambda>row. row_id row \<noteq> u) (schema_rows st),
       owner_rows := filter (\<lambda>w. own_schema w \<noteq> u) (owner_rows st)\<rparr>"
  using assms by (auto simp: pg_delete_def split: option.splits if_splits intro!: that)

lemma pg_delete_error: "pg_delete env fault owner ident st = (Inl e, st') \<Longrightarrow> st' = st"
  by (auto simp: pg_delete_def split: option.splits if_splits)

lemma owns_create:
  "owns (st\<lparr>schema_rows := rows, owner_rows := owner_rows st @ [\<lparr>own_user = o', own_schema = u, own_created_at = t\<rparr>]\<rparr>) p v
     \<longleftrightarrow> owns st p v \<or> (p = o' \<and> v = u)"
  by (auto simp: owns_def)

lemma owns_rows: "owns (st\<lparr>schema_rows := rows\<rparr>) p v \<longleftrightarrow> owns st p v"
  by (simp add: owns_def)

lemma owns_delete:
  "owns (st\<lparr>schema_rows := rows, owner_rows := filter (\<lambda>w. own_schema w \<noteq> u) (owner_rows st)\<rparr>) p v
     \<longleftrightarrow> owns st p v \<and> v \<noteq> u"
  by (auto simp: owns_def list_ex_iff)

lemma owns_row: "store_ok st \<Longrightarrow> owns st p u \<Longrightarrow> u \<in> row_id ` set (schema_rows st)"
  by (force simp: store_ok_def owns_def list_ex_iff)

lemma names_unique_add:
  assumes "names_unique st"
    and rows: "\<And>r p. r \<in> set (owned_rows st' p) \<Longrightarrow> (r \<in> set (owned_rows st p) \<and> Q r) \<or> (r = new \<and> p = owner)"
    and clash: "\<And>r. r \<in> set (owned_rows st owner) \<Longrightarrow> Q r \<Longrightarrow> to_lowercase (row_name r) \<noteq> to_lowercase (row_name new)"
  shows "names_unique st'"
  unfolding names_unique_def
proof (intro allI ballI impI)
  fix p r1 r2
  assume r: "r1 \<in> set (owned_rows st' p)" "r2 \<in> set (owned_rows st' p)"
    and eq: "to_lowercase (row_name r1) = to_lowercase (row_name r2)"
  show "row_id r1 = row_id r2"
    using rows [OF r(1)]
  proof
    assume 1: "r1 \<in> set (owned_rows st p) \<and> Q r1"
    show ?thesis
      using rows [OF r(2)]
    proof
      assume "r2 \<in> set (owned_rows st p) \<and> Q r2"
      then show ?thesis using 1 eq assms(1) unfolding names_unique_def by blast
    next
      assume "r2 = new \<and> p = owner"
      then show ?thesis using 1 eq clash [of r1] by simp
    qed
  next
    assume 1: "r1 = new \<and> p = owner"
    then show ?thesis using rows [OF r(2)] eq clash [of r2] by auto
  qed
qed

lemma store_ok_create:
  assumes "store_ok st" and "pg_create env fault new_id now owner d st = (Inr s, st')"
  shows "store_ok st'"
  using assms(2)
proof (rule pg_createE)
  fix row
  assume new: "new_id \<notin> row_id ` set (schema_rows st)" and free: "\<not> name_taken st owner (draft_name d) None"
    and row: "row_id row = new_id" "row_name row = draft_name d"
    and st': "st' = st\<lparr>schema_rows := schema_rows st @ [row], owner_rows := owner_rows st @
       [\<lparr>own_user = owner, own_schema = new_id, own_created_at = created_at s\<rparr>]\<rparr>"
  have owns': "owns st' p v \<longleftrightarrow> owns st p v \<or> (p = owner \<and> v = new_id)" for p v
    unfolding st' by (rule owns_create)
  have rows: "set (schema_rows st') = insert row (set (schema_rows st))" by (auto simp: st')
  have mine: "r \<in> set (owned_rows st' p) \<longleftrightarrow> r \<in> set (owned_rows st p) \<or> (r = row \<and> p = owner)" for r p
  proof -
    have "\<not> owns st q new_id" for q using new owns_row [OF assms(1)] by blast
    moreover have "r \<in> set (schema_rows st) \<Longrightarrow> row_id r \<noteq> new_id" using new by auto
    ultimately show ?thesis using row(1) by (auto simp: owned_rows_set rows owns')
  qed
  have clash: "to_lowercase (row_name r) \<noteq> to_lowercase (draft_name d)" if "r \<in> set (owned_rows st owner)" for r
    using free that by (auto simp: name_taken_def list_ex_iff)
  have "names_unique st'"
    by (rule names_unique_add [of st st' "\<lambda>_. True" row owner])
      (use assms(1) mine clash row(2) in \<open>simp_all add: store_ok_def\<close>)
  then show "store_ok st'"
    using assms(1) new row(1) by (auto simp: store_ok_def st')
qed

lemma store_ok_replace:
  assumes "store_ok st" and "pg_replace env fault now owner ident d st = (Inr s, st')"
  shows "store_ok st'"
  using assms(2)
proof (rule pg_replaceE)
  fix u row row'
  assume free: "\<not> name_taken st owner (draft_name d) (Some u)"
    and found: "List.find (\<lambda>r. row_id r = u) (owned_rows st owner) = Some row"
    and row': "row_id row' = row_id row" "row_name row' = draft_name d"
    and st': "st' = st\<lparr>schema_rows := map (\<lambda>r. if row_id r = u then row' else r) (schema_rows st)\<rparr>"
  have row: "row \<in> set (owned_rows st owner)" "row_id row = u" using find_Some [OF found] by auto
  have ids: "map row_id (schema_rows st') = map row_id (schema_rows st)"
    using row row'(1) by (auto simp: st')
  have mine: "r \<in> set (owned_rows st' p) \<longleftrightarrow>
      (r \<in> set (owned_rows st p) \<and> row_id r \<noteq> u) \<or> (r = row' \<and> p = owner)" for r p
  proof -
    have "owns st p u \<longleftrightarrow> p = owner" using row owns_unique [OF assms(1)] by (auto simp: owned_rows_set)
    moreover have "owns st' q v = owns st q v" for q v by (simp add: st' owns_rows)
    moreover have "r \<in> set (schema_rows st') \<longleftrightarrow> (r \<in> set (schema_rows st) \<and> row_id r \<noteq> u) \<or> r = row'"
      using row row'(1) by (auto simp: st' owned_rows_set image_iff)
    ultimately show ?thesis using row(2) row'(1) by (auto simp: owned_rows_set)
  qed
  have clash: "to_lowercase (row_name r) \<noteq> to_lowercase (draft_name d)"
    if "r \<in> set (owned_rows st owner)" "row_id r \<noteq> u" for r
    using free that by (auto simp: name_taken_def list_ex_iff)
  have "names_unique st'"
    by (rule names_unique_add [of st st' "\<lambda>r. row_id r \<noteq> u" row' owner])
      (use assms(1) mine clash row'(2) in \<open>simp_all add: store_ok_def\<close>)
  moreover have "row_id ` set (schema_rows st') = row_id ` set (schema_rows st)"
    using ids by (metis list.set_map)
  moreover have "owner_rows st' = owner_rows st" by (simp add: st')
  ultimately show "store_ok st'" using assms(1) ids by (simp add: store_ok_def)
qed

lemma store_ok_delete:
  assumes "store_ok st" and "pg_delete env fault owner ident st = (Inr x, st')"
  shows "store_ok st'"
  using assms(2)
proof (rule pg_deleteE)
  fix u
  assume st': "st' = st\<lparr>schema_rows := filter (\<lambda>row. row_id row \<noteq> u) (schema_rows st),
       owner_rows := filter (\<lambda>w. own_schema w \<noteq> u) (owner_rows st)\<rparr>"
  have "set (owned_rows st' p) \<subseteq> set (owned_rows st p)" for p
    by (auto simp: st' owned_rows_def owns_delete)
  then have "names_unique st'"
    using assms(1) unfolding store_ok_def names_unique_def by (meson subset_iff)
  then show "store_ok st'"
    using assms(1) by (auto simp: store_ok_def st' distinct_map inj_on_def)
qed

section \<open>The contract of the store\<close>

text \<open>
  What the service relies on of a \<open>SchemaRepository\<close>: the store is a map from owners and ids to
  schemas. Each write changes one entry of its own caller, and a failure changes nothing.
\<close>

locale schema_store =
  fixes view :: "'st \<Rightarrow> 'o \<Rightarrow> 'k \<Rightarrow> schema option"
    and ok :: "'st \<Rightarrow> bool"
    and parse :: "string \<Rightarrow> 'k option"
    and create :: "'o \<Rightarrow> schema_draft \<Rightarrow> 'st \<Rightarrow> (domain_error + schema) \<times> 'st"
    and replace :: "'o \<Rightarrow> string \<Rightarrow> schema_draft \<Rightarrow> 'st \<Rightarrow> (domain_error + schema) \<times> 'st"
    and delete :: "'o \<Rightarrow> string \<Rightarrow> 'st \<Rightarrow> (domain_error + unit) \<times> 'st"
  assumes create_ok: "ok st \<Longrightarrow> create o' d st = (Inr s, st') \<Longrightarrow>
      ok st' \<and> draft s = d \<and> (\<exists>k. (\<forall>p. view st p k = None) \<and> view st' = (view st)(o' := (view st o')(k \<mapsto> s)))"
    and create_error: "create o' d st = (Inl e, st') \<Longrightarrow> st' = st"
    and replace_ok: "ok st \<Longrightarrow> replace o' i d st = (Inr s, st') \<Longrightarrow>
      ok st' \<and> draft s = d \<and> (\<exists>k. parse i = Some k \<and> view st' = (view st)(o' := (view st o')(k \<mapsto> s)))"
    and replace_error: "replace o' i d st = (Inl e, st') \<Longrightarrow> st' = st"
    and delete_ok: "ok st \<Longrightarrow> delete o' i st = (Inr x, st') \<Longrightarrow>
      ok st' \<and> (\<exists>k. parse i = Some k \<and> view st' = (view st)(o' := (view st o')(k := None)))"
    and delete_error: "delete o' i st = (Inl e, st') \<Longrightarrow> st' = st"
begin

lemma create_keeps_ok: "ok st \<Longrightarrow> ok (snd (create o' d st))"
  using create_ok create_error by (cases "create o' d st"; cases "fst (create o' d st)") fastforce+

lemma replace_keeps_ok: "ok st \<Longrightarrow> ok (snd (replace o' i d st))"
  using replace_ok replace_error by (cases "replace o' i d st"; cases "fst (replace o' i d st)") fastforce+

lemma delete_keeps_ok: "ok st \<Longrightarrow> ok (snd (delete o' i st))"
  using delete_ok delete_error by (cases "delete o' i st"; cases "fst (delete o' i st)") fastforce+

text \<open>Nothing one owner does is visible to another.\<close>

lemma create_isolated: "ok st \<Longrightarrow> p \<noteq> o' \<Longrightarrow> view (snd (create o' d st)) p = view st p"
  using create_ok create_error by (cases "create o' d st"; cases "fst (create o' d st)") fastforce+

lemma replace_isolated: "ok st \<Longrightarrow> p \<noteq> o' \<Longrightarrow> view (snd (replace o' i d st)) p = view st p"
  using replace_ok replace_error by (cases "replace o' i d st"; cases "fst (replace o' i d st)") fastforce+

lemma delete_isolated: "ok st \<Longrightarrow> p \<noteq> o' \<Longrightarrow> view (snd (delete o' i st)) p = view st p"
  using delete_ok delete_error by (cases "delete o' i st"; cases "fst (delete o' i st)") fastforce+

text \<open>A new schema takes an id nobody had, so nothing that was there changes.\<close>

lemma create_keeps: "ok st \<Longrightarrow> view st p k = Some s \<Longrightarrow> view (snd (create o' d st)) p k = Some s"
proof (cases "create o' d st")
  case (Pair r st')
  assume *: "ok st" "view st p k = Some s"
  show ?thesis
  proof (cases r)
    case (Inl e)
    have "st' = st" using Pair unfolding Inl by (rule create_error)
    then show ?thesis using Pair *(2) by simp
  next
    case (Inr s')
    then obtain k' where "\<forall>p. view st p k' = None" "view st' = (view st)(o' := (view st o')(k' \<mapsto> s'))"
      using create_ok [OF *(1)] Pair by blast
    then show ?thesis using * Pair by (auto simp: fun_upd_def)
  qed
qed

end

text \<open>What one owner can read under an id.\<close>

definition pg_view :: "store_env \<Rightarrow> store \<Rightarrow> uuid \<Rightarrow> uuid \<Rightarrow> schema option" where
  "pg_view env st owner u =
     (case pg_find_by_id (env\<lparr>parse_uuid := \<lambda>_. Some u\<rparr>) (\<lambda>_. None) owner '''' st of
        Inr (Some s) \<Rightarrow> Some s | _ \<Rightarrow> None)"

lemma map_schema_parse: "map_schema (env\<lparr>parse_uuid := f\<rparr>) row = map_schema env row"
  by (simp add: map_schema_def split: sum.split)

lemma find_owned:
  "List.find (\<lambda>r. row_id r = u) (owned_rows st p) =
     (if owns st p u then List.find (\<lambda>r. row_id r = u) (schema_rows st) else None)"
proof -
  have "List.find (\<lambda>r. row_id r = u) (filter (\<lambda>r. owns st p (row_id r)) rows) =
      (if owns st p u then List.find (\<lambda>r. row_id r = u) rows else None)" for rows
    by (induction rows) auto
  then show ?thesis unfolding owned_rows_def .
qed

lemma pg_view_eq:
  "pg_view env st p u =
     (if owns st p u then
        (case List.find (\<lambda>r. row_id r = u) (schema_rows st) of
           None \<Rightarrow> None
         | Some row \<Rightarrow> (case map_schema env row of Inl _ \<Rightarrow> None | Inr s \<Rightarrow> Some s))
      else None)"
  by (simp add: pg_view_def pg_find_by_id_def find_row_def find_owned map_schema_parse split: option.split sum.split)

lemma find_append: "List.find p (xs @ ys) = (case List.find p xs of Some x \<Rightarrow> Some x | None \<Rightarrow> List.find p ys)"
  by (induction xs) auto

lemma find_map_id:
  assumes "row_id row' = u"
  shows "List.find (\<lambda>r. row_id r = v) (map (\<lambda>r. if row_id r = u then row' else r) rows) =
    (if v = u then map_option (\<lambda>_. row') (List.find (\<lambda>r. row_id r = u) rows) else List.find (\<lambda>r. row_id r = v) rows)"
  using assms by (induction rows) auto

lemma find_filter_id:
  "List.find (\<lambda>r. row_id r = v) (filter (\<lambda>r. row_id r \<noteq> u) rows) =
     (if v = u then None else List.find (\<lambda>r. row_id r = v) rows)"
  by (induction rows) auto

lemma pg_view_create:
  assumes "store_ok st" and "pg_create env fault new_id now owner d st = (Inr s, st')"
  shows "pg_view env st' = (pg_view env st)(owner := (pg_view env st owner)(new_id \<mapsto> s))"
    and "pg_view env st p new_id = None"
proof -
  obtain row where new: "new_id \<notin> row_id ` set (schema_rows st)" and row: "row_id row = new_id" "map_schema env row = Inr s"
    and st': "st' = st\<lparr>schema_rows := schema_rows st @ [row], owner_rows := owner_rows st @
       [\<lparr>own_user = owner, own_schema = new_id, own_created_at = created_at s\<rparr>]\<rparr>"
    using assms(2) by (rule pg_createE)
  have owns': "owns st' q v \<longleftrightarrow> owns st q v \<or> (q = owner \<and> v = new_id)" for q v
    unfolding st' by (rule owns_create)
  have unowned: "\<not> owns st q new_id" for q using new owns_row [OF assms(1)] by blast
  then show "pg_view env st p new_id = None" by (simp add: pg_view_eq)
  have none: "List.find (\<lambda>r. row_id r = new_id) (schema_rows st) = None"
    using new by (auto simp: find_None_iff)
  have find': "List.find (\<lambda>r. row_id r = v) (schema_rows st') =
      (if v = new_id then Some row else List.find (\<lambda>r. row_id r = v) (schema_rows st))" for v
    using none row(1) by (auto simp: st' find_append split: option.split)
  show "pg_view env st' = (pg_view env st)(owner := (pg_view env st owner)(new_id \<mapsto> s))"
    using unowned row(2) by (intro ext) (auto simp: pg_view_eq owns' find')
qed

lemma pg_view_replace:
  assumes "store_ok st" and "pg_replace env fault now owner ident d st = (Inr s, st')"
  shows "\<exists>u. parse_uuid env ident = Some u \<and> pg_view env st' = (pg_view env st)(owner := (pg_view env st owner)(u \<mapsto> s))"
proof -
  obtain u row row' where u: "parse_uuid env ident = Some u"
    and found: "List.find (\<lambda>r. row_id r = u) (owned_rows st owner) = Some row"
    and row': "row_id row' = row_id row" "map_schema env row' = Inr s"
    and st': "st' = st\<lparr>schema_rows := map (\<lambda>r. if row_id r = u then row' else r) (schema_rows st)\<rparr>"
    using assms(2) by (rule pg_replaceE)
  have row: "owns st owner u" "List.find (\<lambda>r. row_id r = u) (schema_rows st) = Some row" "row_id row = u"
    using found find_Some [OF found] by (auto simp: find_owned split: if_splits)
  have "owns st p u \<longleftrightarrow> p = owner" for p using row(1) owns_unique [OF assms(1)] by blast
  then have "pg_view env st' = (pg_view env st)(owner := (pg_view env st owner)(u \<mapsto> s))"
    using row row' by (intro ext) (auto simp: pg_view_eq st' owns_rows find_map_id)
  then show ?thesis using u by blast
qed

lemma pg_view_delete:
  assumes "store_ok st" and "pg_delete env fault owner ident st = (Inr x, st')"
  shows "\<exists>u. parse_uuid env ident = Some u \<and> pg_view env st' = (pg_view env st)(owner := (pg_view env st owner)(u := None))"
proof -
  obtain u where u: "parse_uuid env ident = Some u" "list_ex (\<lambda>row. row_id row = u) (owned_rows st owner)"
    "st' = st\<lparr>schema_rows := filter (\<lambda>row. row_id row \<noteq> u) (schema_rows st),
       owner_rows := filter (\<lambda>w. own_schema w \<noteq> u) (owner_rows st)\<rparr>"
    using assms(2) by (rule pg_deleteE)
  have "owns st owner u" using u(2) by (auto simp: list_ex_iff owned_rows_set)
  then have "owns st p u \<longleftrightarrow> p = owner" for p using owns_unique [OF assms(1)] by blast
  then have "pg_view env st' = (pg_view env st)(owner := (pg_view env st owner)(u := None))"
    by (intro ext) (auto simp: pg_view_eq u(3) owns_delete find_filter_id)
  then show ?thesis using u(1) by blast
qed

interpretation pg: schema_store "pg_view env" store_ok "parse_uuid env" "pg_create env fault new_id now"
  "pg_replace env fault now" "pg_delete env fault"
  for env fault new_id now
proof
  show "store_ok st' \<and> draft s = d \<and> (\<exists>k. (\<forall>p. pg_view env st p k = None) \<and>
      pg_view env st' = (pg_view env st)(owner := (pg_view env st owner)(k \<mapsto> s)))"
    if "store_ok st" "pg_create env fault new_id now owner d st = (Inr s, st')" for st owner d s st'
  proof (intro conjI exI [of _ new_id] allI)
    show "store_ok st'" using that by (rule store_ok_create)
    show "draft s = d" using that(2) by (rule pg_createE) (simp add: draft_def schema_new_def)
  qed (use pg_view_create that in blast)+
  show "store_ok st' \<and> draft s = d \<and> (\<exists>k. parse_uuid env i = Some k \<and>
      pg_view env st' = (pg_view env st)(owner := (pg_view env st owner)(k \<mapsto> s)))"
    if "store_ok st" "pg_replace env fault now owner i d st = (Inr s, st')" for st owner i d s st'
  proof (intro conjI)
    show "store_ok st'" using that by (rule store_ok_replace)
    show "draft s = d" using that(2) by (rule pg_replaceE) (simp add: draft_def schema_new_def)
  qed (rule pg_view_replace [OF that])
  show "store_ok st' \<and> (\<exists>k. parse_uuid env i = Some k \<and>
      pg_view env st' = (pg_view env st)(owner := (pg_view env st owner)(k := None)))"
    if "store_ok st" "pg_delete env fault owner i st = (Inr x, st')" for st owner i x st'
    using that store_ok_delete pg_view_delete by blast
qed (rule pg_create_error pg_replace_error pg_delete_error, assumption)+

end
