(* ===== verification/Diagnostics.thy ===== *)
theory Diagnostics
  imports Domain
begin

text \<open>
  Diagnostics and reports, \<^verbatim>\<open>module/schema/core/domain/diagnostic.rs\<close>: the codes, the severity
  order, the builders of one diagnostic and the report a verification run fills. The second half
  states what it means for a check to only add to a report, the shape every check of the verifier
  and every reader of an import has.
\<close>

section \<open>Codes (module code)\<close>

definition DANGLING_RELATIONSHIP :: string where "DANGLING_RELATIONSHIP = ''SF-REL-DANGLING''"
definition ATTRIBUTE_WITHOUT_TYPE :: string where "ATTRIBUTE_WITHOUT_TYPE = ''SF-ATTR-UNTYPED''"
definition EMPTY_NAME :: string where "EMPTY_NAME = ''SF-NAME-EMPTY''"
definition EMPTY_SCHEMA :: string where "EMPTY_SCHEMA = ''SF-SCHEMA-EMPTY''"
definition INVALID_TYPE_PARAMETER :: string where "INVALID_TYPE_PARAMETER = ''SF-TYPE-PARAM''"
definition DUPLICATE_ENTITY_NAME :: string where "DUPLICATE_ENTITY_NAME = ''SF-DUP-ENTITY''"
definition DUPLICATE_ATTRIBUTE_NAME :: string where
  "DUPLICATE_ATTRIBUTE_NAME = ''SF-DUP-ATTRIBUTE''"
definition MISSING_PRIMARY_KEY :: string where "MISSING_PRIMARY_KEY = ''SF-KEY-MISSING''"
definition INVALID_FOREIGN_KEY :: string where "INVALID_FOREIGN_KEY = ''SF-FK-INVALID''"
definition FOREIGN_KEY_NOT_A_KEY :: string where "FOREIGN_KEY_NOT_A_KEY = ''SF-FK-NOT-A-KEY''"
definition CIRCULAR_DEPENDENCY :: string where "CIRCULAR_DEPENDENCY = ''SF-DEP-CYCLE''"
definition TYPE_MISMATCH :: string where "TYPE_MISMATCH = ''SF-TYPE-MISMATCH''"
definition RELATIONSHIP_WITHOUT_FOREIGN_KEY :: string where
  "RELATIONSHIP_WITHOUT_FOREIGN_KEY = ''SF-REL-NO-FK''"
definition CARDINALITY_MISMATCH :: string where "CARDINALITY_MISMATCH = ''SF-REL-CARDINALITY''"
definition MISSING_DESCRIPTION :: string where "MISSING_DESCRIPTION = ''SF-DOC-MISSING''"
definition IMPORT_SKIPPED :: string where "IMPORT_SKIPPED = ''SF-IMPORT-SKIPPED''"

lemmas code_defs =
  DANGLING_RELATIONSHIP_def ATTRIBUTE_WITHOUT_TYPE_def EMPTY_NAME_def EMPTY_SCHEMA_def
  INVALID_TYPE_PARAMETER_def DUPLICATE_ENTITY_NAME_def DUPLICATE_ATTRIBUTE_NAME_def
  MISSING_PRIMARY_KEY_def INVALID_FOREIGN_KEY_def FOREIGN_KEY_NOT_A_KEY_def
  CIRCULAR_DEPENDENCY_def TYPE_MISMATCH_def RELATIONSHIP_WITHOUT_FOREIGN_KEY_def
  CARDINALITY_MISMATCH_def MISSING_DESCRIPTION_def IMPORT_SKIPPED_def

section \<open>Severity, Diagnostic, Report\<close>

datatype severity = Warning | Error

text \<open>The derived order: a warning is below an error.\<close>

instantiation severity :: linorder
begin

definition less_eq_severity :: "severity \<Rightarrow> severity \<Rightarrow> bool" where
  "less_eq_severity a b = (a = Warning \<or> b = Error)"

definition less_severity :: "severity \<Rightarrow> severity \<Rightarrow> bool" where
  "less_severity a b = (a = Warning \<and> b = Error)"

instance
proof
  fix x y z :: severity
  show "(x < y) = (x \<le> y \<and> \<not> y \<le> x)"
    by (cases x; cases y) (simp_all add: less_eq_severity_def less_severity_def)
  show "x \<le> x"
    by (cases x) (simp_all add: less_eq_severity_def)
  show "x \<le> y \<Longrightarrow> y \<le> z \<Longrightarrow> x \<le> z"
    by (cases x; cases y; cases z) (simp_all add: less_eq_severity_def)
  show "x \<le> y \<Longrightarrow> y \<le> x \<Longrightarrow> x = y"
    by (cases x; cases y) (simp_all add: less_eq_severity_def)
  show "x \<le> y \<or> y \<le> x"
    by (cases x; cases y) (simp_all add: less_eq_severity_def)
qed

end

fun severity_as_str :: "severity \<Rightarrow> string" where
  "severity_as_str Warning = ''warning''"
| "severity_as_str Error = ''error''"

record diagnostic =
  diag_code :: string
  diag_severity :: severity
  diag_message :: string
  element_ids :: "string list"
  diag_location :: "position option"

definition diag_error :: "string \<Rightarrow> string \<Rightarrow> diagnostic" where
  "diag_error c m = \<lparr>diag_code = c, diag_severity = Error, diag_message = m, element_ids = [],
     diag_location = None\<rparr>"

definition diag_warning :: "string \<Rightarrow> string \<Rightarrow> diagnostic" where
  "diag_warning c m = \<lparr>diag_code = c, diag_severity = Warning, diag_message = m,
     element_ids = [], diag_location = None\<rparr>"

definition about :: "string \<Rightarrow> diagnostic \<Rightarrow> diagnostic" where
  "about ident d = d\<lparr>element_ids := element_ids d @ [ident]\<rparr>"

definition at :: "position \<Rightarrow> diagnostic \<Rightarrow> diagnostic" where
  "at p d = d\<lparr>diag_location := Some p\<rparr>"

definition is_error :: "diagnostic \<Rightarrow> bool" where
  "is_error d = (diag_severity d = Error)"

record report =
  diagnostics :: "diagnostic list"

definition report_new :: "diagnostic list \<Rightarrow> report" where
  "report_new ds = \<lparr>diagnostics = ds\<rparr>"

definition report_default :: report where
  "report_default = \<lparr>diagnostics = []\<rparr>"

definition push :: "diagnostic \<Rightarrow> report \<Rightarrow> report" where
  "push d r = r\<lparr>diagnostics := diagnostics r @ [d]\<rparr>"

definition is_valid :: "report \<Rightarrow> bool" where
  "is_valid r = (\<not> list_ex is_error (diagnostics r))"

definition errors :: "report \<Rightarrow> diagnostic list" where
  "errors r = filter is_error (diagnostics r)"

definition warnings :: "report \<Rightarrow> diagnostic list" where
  "warnings r = filter (\<lambda>d. \<not> is_error d) (diagnostics r)"

definition has :: "report \<Rightarrow> string \<Rightarrow> bool" where
  "has r c = list_ex (\<lambda>d. diag_code d = c) (diagnostics r)"

section \<open>Facts about one diagnostic\<close>

named_theorems diag_simps \<open>projections of diagnostics through the builders\<close>

lemma diag_builders [diag_simps, simp]:
  "is_error (diag_error c m)" "\<not> is_error (diag_warning c m)"
  "is_error (about i d) = is_error d" "is_error (at p d) = is_error d"
  "diag_code (diag_error c m) = c" "diag_code (diag_warning c m) = c"
  "diag_code (about i d) = diag_code d" "diag_code (at p d) = diag_code d"
  "element_ids (about i d) = element_ids d @ [i]" "element_ids (at p d) = element_ids d"
  "element_ids (diag_error c m) = []" "element_ids (diag_warning c m) = []"
  "diag_location (at p d) = Some p" "diag_location (about i d) = diag_location d"
  by (simp_all add: is_error_def diag_error_def diag_warning_def about_def at_def)

text \<open>A loop that blames several elements changes neither severity nor code.\<close>

lemma fold_about [diag_simps, simp]:
  "is_error (fold (\<lambda>x. about (f x)) xs d) = is_error d"
  "diag_code (fold (\<lambda>x. about (f x)) xs d) = diag_code d"
  "element_ids (fold (\<lambda>x. about (f x)) xs d) = element_ids d @ map f xs"
  "diag_location (fold (\<lambda>x. about (f x)) xs d) = diag_location d"
  by (induction xs arbitrary: d) simp_all

lemma diagnostics_push [simp]: "diagnostics (push d r) = diagnostics r @ [d]"
  by (simp add: push_def)

lemma is_valid_push [simp]: "is_valid (push d r) = (is_valid r \<and> \<not> is_error d)"
  by (auto simp: is_valid_def)

lemma is_valid_default [simp]: "is_valid report_default"
  by (simp add: is_valid_def report_default_def)

lemma is_valid_errors: "is_valid r = (errors r = [])"
  by (auto simp: is_valid_def errors_def filter_empty_conv list_ex_iff)

lemma report_partition: "length (errors r) + length (warnings r) = length (diagnostics r)"
  by (simp add: errors_def warnings_def sum_length_filter_compl)

section \<open>Steps that only add to a report\<close>

text \<open>\<open>emits f ds\<close>: running \<open>f\<close> appends exactly \<open>ds\<close> to the diagnostics it is given.\<close>

definition emits :: "(report \<Rightarrow> report) \<Rightarrow> diagnostic list \<Rightarrow> bool" where
  "emits f ds = (\<forall>r. diagnostics (f r) = diagnostics r @ ds)"

named_theorems emits_intros \<open>composition rules for emits\<close>

lemma emits_id [emits_intros]: "emits (\<lambda>r. r) []"
  by (simp add: emits_def)

lemma emits_push [emits_intros]: "emits (push d) [d]"
  by (simp add: emits_def)

lemma emits_comp: "emits f ds \<Longrightarrow> emits g es \<Longrightarrow> emits (\<lambda>r. g (f r)) (ds @ es)"
  by (simp add: emits_def)

lemma emits_if [emits_intros]:
  "(b \<Longrightarrow> emits f ds) \<Longrightarrow> (\<not> b \<Longrightarrow> emits g es) \<Longrightarrow>
     emits (\<lambda>r. if b then f r else g r) (if b then ds else es)"
  by (simp add: emits_def)

lemma emits_option [emits_intros]:
  "emits g es \<Longrightarrow> (\<And>x. emits (f x) (ds x)) \<Longrightarrow>
     emits (\<lambda>r. case v of None \<Rightarrow> g r | Some x \<Rightarrow> f x r)
       (case v of None \<Rightarrow> es | Some x \<Rightarrow> ds x)"
  by (cases v) simp_all

lemma emits_fold [emits_intros]:
  assumes "\<And>x. x \<in> set xs \<Longrightarrow> emits (f x) (g x)"
  shows "emits (fold f xs) (concat (map g xs))"
  using assms
proof (induction xs)
  case Nil
  show ?case by (simp add: emits_def)
next
  case (Cons x xs)
  then have "emits (f x) (g x)" and "emits (fold f xs) (concat (map g xs))" by simp_all
  then show ?case by (simp add: emits_def)
qed

lemma emits_valid: "emits f ds \<Longrightarrow> is_valid (f r) = (is_valid r \<and> \<not> list_ex is_error ds)"
  by (simp add: emits_def is_valid_def)

lemma emits_has: "emits f ds \<Longrightarrow> has (f r) c = (has r c \<or> (\<exists>d\<in>set ds. diag_code d = c))"
  by (auto simp: emits_def has_def list_ex_iff)

text \<open>The same facts for validity alone, the form the verifier's proofs use for its loops.\<close>

lemma is_valid_fold:
  assumes "\<And>x r. x \<in> set xs \<Longrightarrow> is_valid (f x r) = (is_valid r \<and> P x)"
  shows "is_valid (fold f xs r) = (is_valid r \<and> (\<forall>x\<in>set xs. P x))"
  using assms by (induction xs arbitrary: r) auto

lemma prefix_fold:
  assumes "\<And>x r. x \<in> set xs \<Longrightarrow> \<exists>ds. diagnostics (f x r) = diagnostics r @ ds"
  shows "\<exists>ds. diagnostics (fold f xs r) = diagnostics r @ ds"
  using assms
proof (induction xs arbitrary: r)
  case Nil
  show ?case by simp
next
  case (Cons x xs)
  obtain ds where "diagnostics (f x r) = diagnostics r @ ds"
    using Cons.prems [of x r] by auto
  moreover obtain es where "diagnostics (fold f xs (f x r)) = diagnostics (f x r) @ es"
    using Cons.IH [of "f x r"] Cons.prems by auto
  ultimately show ?case by simp
qed

end
