(* ===== verification/Verifier_Checks.thy ===== *)
theory Verifier_Checks
  imports Diagnostics
begin

text \<open>
  The checks of \<^verbatim>\<open>module/schema/core/service/verifier\<close> other than the cycle check: the labels of
  \<^verbatim>\<open>mod.rs\<close>, then \<^verbatim>\<open>syntax.rs\<close>, \<^verbatim>\<open>structure.rs\<close>, \<^verbatim>\<open>references.rs\<close> and
  \<^verbatim>\<open>documentation.rs\<close>. Every check takes the schema and the report so far and returns the
  report it leaves. The lemmas give the declarative condition under which a check adds no error.
\<close>

section \<open>Labels and keys (verifier/mod.rs)\<close>

definition v_table :: "entity \<Rightarrow> string" where
  "v_table e = (let name = trim (ent_name e) in
     if name = '''' then ''an unnamed table'' else ''`'' @ name @ ''`'')"

definition v_column :: "entity \<Rightarrow> attribute \<Rightarrow> string" where
  "v_column e a = ''`'' @ trim (ent_name e) @ ''.'' @ trim (attr_name a) @ ''`''"

definition v_relationship :: "schema \<Rightarrow> relationship \<Rightarrow> string" where
  "v_relationship s rel =
     (if trim (rel_name rel) \<noteq> '''' then ''relationship `'' @ trim (rel_name rel) @ ''`''
      else case (schema_entity s (from_entity_id rel), schema_entity s (to_entity_id rel)) of
        (Some f, Some t) \<Rightarrow> ''the relationship between '' @ v_table f @ '' and '' @ v_table t
      | _ \<Rightarrow> ''a relationship'')"

definition is_unique_key :: "entity \<Rightarrow> attribute \<Rightarrow> bool" where
  "is_unique_key e a = (attr_unique a \<or> (attr_primary_key a \<and> length (primary_key e) = 1))"

section \<open>Syntax (syntax.rs)\<close>

definition MAX_LENGTH :: u32 where "MAX_LENGTH = 10485760"
definition MAX_PRECISION :: u32 where "MAX_PRECISION = 1000"

definition check_not_empty :: "schema \<Rightarrow> report \<Rightarrow> report" where
  "check_not_empty s r =
     (if schema_is_empty s then push (diag_warning EMPTY_SCHEMA ''the schema has no tables yet'') r
      else r)"

definition check_names :: "schema \<Rightarrow> report \<Rightarrow> report" where
  "check_names s r = fold (\<lambda>e r.
     fold (\<lambda>a r.
         if trim (attr_name a) = '''' then
           push (at (ent_position e) (about (attr_id a) (about (ent_id e)
             (diag_error EMPTY_NAME (''a column in '' @ v_table e @ '' has no name''))))) r
         else r)
       (ent_attributes e)
       (if trim (ent_name e) = '''' then
          push (at (ent_position e) (about (ent_id e)
            (diag_error EMPTY_NAME ''a table has no name''))) r
        else r))
     (sch_entities s) r"

definition parameter_problem :: "data_type \<Rightarrow> string option" where
  "parameter_problem t =
     (if takes_length (dt_kind t) then
        (case dt_length t of
           Some n \<Rightarrow>
             if n = 0 then Some ''a length has to be at least 1''
             else if n > MAX_LENGTH then
               Some (''PostgreSQL allows a length of at most '' @ show_u32 MAX_LENGTH)
             else None
         | None \<Rightarrow> None)
      else if takes_precision (dt_kind t) then
        (case (dt_precision t, dt_scale t) of
           (None, Some _) \<Rightarrow> Some ''a scale needs a precision''
         | (Some p, scale) \<Rightarrow>
             if p = 0 then Some ''a precision has to be at least 1''
             else if p > MAX_PRECISION then
               Some (''PostgreSQL allows a precision of at most '' @ show_u32 MAX_PRECISION)
             else (case scale of
                 Some sc \<Rightarrow>
                   if sc > MAX_PRECISION then
                     Some (''PostgreSQL allows a scale of at most '' @ show_u32 MAX_PRECISION)
                   else None
               | None \<Rightarrow> None)
         | (None, None) \<Rightarrow> None)
      else None)"

definition check_type_parameters :: "schema \<Rightarrow> report \<Rightarrow> report" where
  "check_type_parameters s r = fold (\<lambda>e r. fold (\<lambda>a r.
       case parameter_problem (attr_data_type a) of
         None \<Rightarrow> r
       | Some problem \<Rightarrow>
           push (at (ent_position e) (about (attr_id a) (about (ent_id e)
             (diag_error INVALID_TYPE_PARAMETER
               (v_column e a @ '' is '' @ data_type_fmt (attr_data_type a) @ '', but ''
                 @ problem))))) r)
     (ent_attributes e) r) (sch_entities s) r"

definition check_relationship_ends :: "schema \<Rightarrow> report \<Rightarrow> report" where
  "check_relationship_ends s r = fold (\<lambda>rel r.
     let resolves = resolve s (from_entity_id rel) (from_attribute_id rel) \<noteq> None
                  \<and> resolve s (to_entity_id rel) (to_attribute_id rel) \<noteq> None
     in if resolves then r
        else
          let d = about (rel_id rel) (diag_error DANGLING_RELATIONSHIP
                (v_relationship s rel @ '' points at a table or column that does not exist''));
              found = (case schema_entity s (from_entity_id rel) of
                         Some e \<Rightarrow> Some e
                       | None \<Rightarrow> schema_entity s (to_entity_id rel))
          in push (case found of Some e \<Rightarrow> at (ent_position e) d | None \<Rightarrow> d) r)
     (sch_relationships s) r"

section \<open>Structure (structure.rs)\<close>

fun add_to_group :: "string \<Rightarrow> 'a \<Rightarrow> (string \<times> 'a list) list \<Rightarrow> (string \<times> 'a list) list" where
  "add_to_group key item [] = [(key, [item])]"
| "add_to_group key item ((k, members) # groups) =
     (if k = key then (k, members @ [item]) # groups
      else (k, members) # add_to_group key item groups)"

definition fold_name :: "string \<Rightarrow> string" where
  "fold_name s = to_lowercase (trim s)"

definition same_name_groups :: "('a \<Rightarrow> string) \<Rightarrow> 'a list \<Rightarrow> 'a list list" where
  "same_name_groups name items =
     filter (\<lambda>members. length members > 1)
       (map snd (fold (\<lambda>item groups.
          let key = fold_name (name item) in
          if key = '''' then groups else add_to_group key item groups) items []))"

definition check_duplicate_names :: "schema \<Rightarrow> report \<Rightarrow> report" where
  "check_duplicate_names s r =
     fold (\<lambda>e r.
       fold (\<lambda>group r.
           push (fold (\<lambda>a. about (attr_id a)) group
             (at (ent_position e) (about (ent_id e)
               (diag_error DUPLICATE_ATTRIBUTE_NAME
                 (v_table e @ '' has '' @ show_nat (length group) @ '' columns named `''
                   @ trim (attr_name (hd group)) @ ''`''))))) r)
         (same_name_groups attr_name (ent_attributes e)) r)
       (sch_entities s)
       (fold (\<lambda>group r.
           push (fold (\<lambda>e. about (ent_id e)) group
             (at (ent_position (hd group))
               (diag_error DUPLICATE_ENTITY_NAME
                 (show_nat (length group) @ '' tables are named `''
                   @ trim (ent_name (hd group)) @ ''`'')))) r)
         (same_name_groups ent_name (sch_entities s)) r)"

definition check_primary_keys :: "schema \<Rightarrow> report \<Rightarrow> report" where
  "check_primary_keys s r = fold (\<lambda>e r.
     if \<not> has_primary_key e then
       push (at (ent_position e) (about (ent_id e)
         (diag_error MISSING_PRIMARY_KEY (v_table e @ '' has no primary key'')))) r
     else r) (sch_entities s) r"

section \<open>References (references.rs)\<close>

fun width :: "data_type_kind \<Rightarrow> nat" where
  "width SmallInt = 2"
| "width Integer = 4"
| "width _ = 8"

definition bound :: "data_type \<Rightarrow> u32 option" where
  "bound t = (case dt_kind t of Text \<Rightarrow> None | _ \<Rightarrow> dt_length t)"

definition is_narrower :: "data_type \<Rightarrow> data_type \<Rightarrow> bool" where
  "is_narrower col key =
     (case family (dt_kind col) of
        Integral \<Rightarrow> width (dt_kind col) < width (dt_kind key)
      | Textual \<Rightarrow> (case (bound col, bound key) of
            (Some c, Some k) \<Rightarrow> c < k
          | (Some _, None) \<Rightarrow> True
          | _ \<Rightarrow> False)
      | _ \<Rightarrow> False)"

definition points_at :: "attribute \<Rightarrow> entity \<Rightarrow> attribute \<Rightarrow> bool" where
  "points_at a e key =
     (case attr_foreign_key a of
        None \<Rightarrow> False
      | Some ref \<Rightarrow> fk_entity_id ref = ent_id e \<and> fk_attribute_id ref = attr_id key)"

definition type_mismatch :: "entity \<Rightarrow> attribute \<Rightarrow> entity \<Rightarrow> attribute \<Rightarrow> diagnostic option" where
  "type_mismatch e a target key =
     (if \<not> is_compatible_with (attr_data_type a) (attr_data_type key) then
        Some (diag_error TYPE_MISMATCH
          (v_column e a @ '' is '' @ data_type_fmt (attr_data_type a) @ '' but references ''
            @ v_column target key @ '', which is '' @ data_type_fmt (attr_data_type key)))
      else if is_narrower (attr_data_type a) (attr_data_type key) then
        Some (diag_warning TYPE_MISMATCH
          (v_column e a @ '' is '' @ data_type_fmt (attr_data_type a) @ '' but references ''
            @ v_column target key @ '', which is '' @ data_type_fmt (attr_data_type key)
            @ '', so some keys will not fit''))
      else None)"

definition check_foreign_key :: "schema \<Rightarrow> entity \<Rightarrow> attribute \<Rightarrow> report \<Rightarrow> report" where
  "check_foreign_key s e a r =
     (case attr_foreign_key a of
        None \<Rightarrow> r
      | Some ref \<Rightarrow>
         (case resolve s (fk_entity_id ref) (fk_attribute_id ref) of
            None \<Rightarrow>
              push (at (ent_position e) (about (attr_id a) (about (ent_id e)
                (diag_error INVALID_FOREIGN_KEY
                  (v_column e a @ '' references a column that does not exist''))))) r
          | Some (target, key) \<Rightarrow>
              let blame = (\<lambda>d. at (ent_position e) (about (attr_id key) (about (ent_id target)
                    (about (attr_id a) (about (ent_id e) d)))));
                  r1 = (if \<not> is_unique_key target key then
                          push (blame (diag_error FOREIGN_KEY_NOT_A_KEY
                            (v_column e a @ '' references '' @ v_column target key
                              @ '', which is neither the primary key nor unique''))) r
                        else r)
              in (case type_mismatch e a target key of
                    None \<Rightarrow> r1
                  | Some mismatch \<Rightarrow> push (blame mismatch) r1)))"

definition check_foreign_keys :: "schema \<Rightarrow> report \<Rightarrow> report" where
  "check_foreign_keys s r =
     fold (\<lambda>e r. fold (check_foreign_key s e) (ent_attributes e) r) (sch_entities s) r"

definition cardinality_message ::
  "schema \<Rightarrow> relationship \<Rightarrow> entity \<Rightarrow> attribute \<Rightarrow> string option" where
  "cardinality_message s rel holder_entity holder_attribute =
     (let uniq = is_unique_key holder_entity holder_attribute in
      case rel_cardinality rel of
        OneToOne \<Rightarrow>
          if \<not> uniq then
            Some (v_relationship s rel @ '' is one-to-one, but ''
              @ v_column holder_entity holder_attribute
              @ '' is not unique, so many rows can point at the same row'')
          else None
      | OneToMany \<Rightarrow>
          if uniq then
            Some (v_relationship s rel @ '' is one-to-many, but ''
              @ v_column holder_entity holder_attribute
              @ '' is unique, so each row can only be pointed at once'')
          else None
      | ManyToMany \<Rightarrow> None)"

definition check_relationship :: "schema \<Rightarrow> relationship \<Rightarrow> report \<Rightarrow> report" where
  "check_relationship s rel r =
     (if requires_join_table (rel_cardinality rel) then r
      else case (resolve s (from_entity_id rel) (from_attribute_id rel),
                 resolve s (to_entity_id rel) (to_attribute_id rel)) of
        (Some (fe, fa), Some (te, ta)) \<Rightarrow>
          (let holder = (if points_at fa te ta then Some (fe, fa)
                         else if points_at ta fe fa then Some (te, ta)
                         else None)
           in case holder of
                None \<Rightarrow>
                  push (at (ent_position fe) (about (rel_id rel)
                    (diag_error RELATIONSHIP_WITHOUT_FOREIGN_KEY
                      (v_relationship s rel @ '' joins '' @ v_column fe fa @ '' and ''
                        @ v_column te ta @ '', but neither column is a foreign key to the other'')))) r
              | Some (he, ha) \<Rightarrow>
                  (case cardinality_message s rel he ha of
                     None \<Rightarrow> r
                   | Some message \<Rightarrow>
                       push (at (ent_position he) (about (attr_id ha) (about (ent_id he)
                         (about (rel_id rel) (diag_warning CARDINALITY_MISMATCH message))))) r))
      | _ \<Rightarrow> r)"

definition check_relationships :: "schema \<Rightarrow> report \<Rightarrow> report" where
  "check_relationships s r = fold (check_relationship s) (sch_relationships s) r"

section \<open>Documentation (documentation.rs)\<close>

definition undocumented :: "entity \<Rightarrow> attribute list" where
  "undocumented e = filter (\<lambda>a. \<not> attr_is_documented a) (ent_attributes e)"

definition documentation_message :: "entity \<Rightarrow> string" where
  "documentation_message e =
     (let columns = join '', '' (map (\<lambda>a. ''`'' @ trim (attr_name a) @ ''`'') (undocumented e)) in
      case (ent_is_documented e, undocumented e = []) of
        (False, True) \<Rightarrow> v_table e @ '' has no description''
      | (False, False) \<Rightarrow>
          v_table e @ '' has no description, and neither do these columns: '' @ columns
      | (True, _) \<Rightarrow> v_table e @ '' has columns with no description: '' @ columns)"

definition check_documentation :: "schema \<Rightarrow> report \<Rightarrow> report" where
  "check_documentation s r =
     fold (\<lambda>rel r.
         if \<not> rel_is_documented rel then
           push (about (rel_id rel) (diag_warning MISSING_DESCRIPTION
             (v_relationship s rel @ '' has no description''))) r
         else r)
       (sch_relationships s)
       (fold (\<lambda>e r.
           if ent_is_documented e \<and> undocumented e = [] then r
           else push (fold (\<lambda>a. about (attr_id a)) (undocumented e)
                  (at (ent_position e) (about (ent_id e)
                    (diag_warning MISSING_DESCRIPTION (documentation_message e))))) r)
         (sch_entities s) r)"

section \<open>The interface of a check\<close>

text \<open>
  What \<open>verify\<close> relies on of each entry of \<open>CHECKS\<close>: a check keeps what earlier checks
  reported, and it leaves a valid report exactly when the schema satisfies the check's condition.
\<close>

locale schema_check =
  fixes run :: "schema \<Rightarrow> report \<Rightarrow> report"
    and holds :: "schema \<Rightarrow> bool"
  assumes extends: "\<exists>ds. diagnostics (run s r) = diagnostics r @ ds"
    and valid_iff: "is_valid (run s r) \<longleftrightarrow> is_valid r \<and> holds s"
begin

lemma keeps: "d \<in> set (diagnostics r) \<Longrightarrow> d \<in> set (diagnostics (run s r))"
  using extends [of s r] by auto

lemma keeps_invalid: "\<not> is_valid r \<Longrightarrow> \<not> is_valid (run s r)"
  by (simp add: valid_iff)

lemma reports_defect: "is_valid r \<Longrightarrow> \<not> holds s \<Longrightarrow> \<exists>d \<in> set (diagnostics (run s r)). is_error d"
  using valid_iff [of s r] by (auto simp: is_valid_def list_ex_iff)

end

section \<open>The conditions the checks decide\<close>

definition names_present :: "schema \<Rightarrow> bool" where
  "names_present s = (\<forall>e \<in> set (sch_entities s). trim (ent_name e) \<noteq> '''' \<and>
     (\<forall>a \<in> set (ent_attributes e). trim (attr_name a) \<noteq> ''''))"

text \<open>The bounds PostgreSQL sets on the parameters of a type, over the numbers they denote.\<close>

definition parameters_in_range :: "data_type \<Rightarrow> bool" where
  "parameters_in_range t =
     ((takes_length (dt_kind t) \<longrightarrow>
         (\<forall>n. dt_length t = Some n \<longrightarrow> 1 \<le> unat n \<and> unat n \<le> 10485760)) \<and>
      (takes_precision (dt_kind t) \<longrightarrow>
         (\<forall>p. dt_precision t = Some p \<longrightarrow> 1 \<le> unat p \<and> unat p \<le> 1000) \<and>
         (\<forall>sc. dt_scale t = Some sc \<longrightarrow> dt_precision t \<noteq> None \<and> unat sc \<le> 1000)))"

definition types_in_range :: "schema \<Rightarrow> bool" where
  "types_in_range s = (\<forall>e \<in> set (sch_entities s). \<forall>a \<in> set (ent_attributes e).
     parameters_in_range (attr_data_type a))"

definition ends_resolve :: "schema \<Rightarrow> bool" where
  "ends_resolve s = (\<forall>rel \<in> set (sch_relationships s).
     resolve s (from_entity_id rel) (from_attribute_id rel) \<noteq> None \<and>
     resolve s (to_entity_id rel) (to_attribute_id rel) \<noteq> None)"

text \<open>No two items carry the same name once blanks are trimmed and case is folded.\<close>

definition names_distinct :: "('a \<Rightarrow> string) \<Rightarrow> 'a list \<Rightarrow> bool" where
  "names_distinct name items =
     (\<forall>i j. i < j \<and> j < length items \<and> fold_name (name (items ! i)) \<noteq> '''' \<longrightarrow>
        fold_name (name (items ! i)) \<noteq> fold_name (name (items ! j)))"

definition all_names_distinct :: "schema \<Rightarrow> bool" where
  "all_names_distinct s = (names_distinct ent_name (sch_entities s) \<and>
     (\<forall>e \<in> set (sch_entities s). names_distinct attr_name (ent_attributes e)))"

definition keys_present :: "schema \<Rightarrow> bool" where
  "keys_present s = (\<forall>e \<in> set (sch_entities s). \<exists>a \<in> set (ent_attributes e). attr_primary_key a)"

definition reference_sound :: "schema \<Rightarrow> attribute \<Rightarrow> bool" where
  "reference_sound s a = (\<forall>ref. attr_foreign_key a = Some ref \<longrightarrow>
     (\<exists>target key. resolve s (fk_entity_id ref) (fk_attribute_id ref) = Some (target, key) \<and>
        is_unique_key target key \<and> is_compatible_with (attr_data_type a) (attr_data_type key)))"

definition references_sound :: "schema \<Rightarrow> bool" where
  "references_sound s = (\<forall>e \<in> set (sch_entities s). \<forall>a \<in> set (ent_attributes e).
     reference_sound s a)"

definition relationship_backed :: "schema \<Rightarrow> relationship \<Rightarrow> bool" where
  "relationship_backed s rel = (\<forall>fe fa te ta.
     rel_cardinality rel \<noteq> ManyToMany \<and>
     resolve s (from_entity_id rel) (from_attribute_id rel) = Some (fe, fa) \<and>
     resolve s (to_entity_id rel) (to_attribute_id rel) = Some (te, ta) \<longrightarrow>
       points_at fa te ta \<or> points_at ta fe fa)"

definition relationships_backed :: "schema \<Rightarrow> bool" where
  "relationships_backed s = (\<forall>rel \<in> set (sch_relationships s). relationship_backed s rel)"

section \<open>Each check decides its condition\<close>

lemma prefix_trans:
  "\<exists>ds. diagnostics r2 = diagnostics r1 @ ds \<Longrightarrow> \<exists>ds. diagnostics r3 = diagnostics r2 @ ds \<Longrightarrow>
   \<exists>ds. diagnostics r3 = diagnostics r1 @ ds"
  by auto

lemma prefix_fold_from:
  assumes "\<And>x r. x \<in> set xs \<Longrightarrow> \<exists>ds. diagnostics (f x r) = diagnostics r @ ds"
    and "\<exists>ds. diagnostics r1 = diagnostics r @ ds"
  shows "\<exists>ds. diagnostics (fold f xs r1) = diagnostics r @ ds"
  by (rule prefix_trans [OF assms(2)]) (rule prefix_fold [OF assms(1)])

interpretation not_empty: schema_check check_not_empty "\<lambda>_. True"
  by unfold_locales (simp_all add: check_not_empty_def)

interpretation names: schema_check check_names names_present
proof
  fix s r
  show "\<exists>ds. diagnostics (check_names s r) = diagnostics r @ ds"
    unfolding check_names_def by (intro prefix_fold prefix_fold_from) auto
  show "is_valid (check_names s r) \<longleftrightarrow> is_valid r \<and> names_present s"
    unfolding check_names_def names_present_def
    by (subst is_valid_fold [where P = "\<lambda>e. trim (ent_name e) \<noteq> '''' \<and>
          (\<forall>a \<in> set (ent_attributes e). trim (attr_name a) \<noteq> '''')"])
       (auto simp: is_valid_fold [where P = "\<lambda>a. trim (attr_name a) \<noteq> ''''"])
qed

lemma unat_ge_one: "(n :: u32) \<noteq> 0 \<longleftrightarrow> Suc 0 \<le> unat n"
  by (simp add: unat_eq_0 [symmetric] Suc_le_eq)

lemma parameter_problem_iff: "parameter_problem t = None \<longleftrightarrow> parameters_in_range t"
proof -
  have len: "\<not> n > MAX_LENGTH \<longleftrightarrow> unat n \<le> 10485760" for n :: u32
    by (simp add: MAX_LENGTH_def word_le_nat_alt not_less)
  have prec: "\<not> n > MAX_PRECISION \<longleftrightarrow> unat n \<le> 1000" for n :: u32
    by (simp add: MAX_PRECISION_def word_le_nat_alt not_less)
  have disjoint: "\<not> (takes_length (dt_kind t) \<and> takes_precision (dt_kind t))"
    by (cases "dt_kind t") (simp_all add: takes_length_def takes_precision_def)
  show ?thesis
    using disjoint
    by (auto simp: parameter_problem_def parameters_in_range_def len [symmetric]
          prec [symmetric] unat_ge_one [symmetric] split: option.splits if_splits)
qed

interpretation type_parameters: schema_check check_type_parameters types_in_range
proof
  fix s r
  show "\<exists>ds. diagnostics (check_type_parameters s r) = diagnostics r @ ds"
    unfolding check_type_parameters_def
    by (intro prefix_fold) (auto split: option.splits)
  show "is_valid (check_type_parameters s r) \<longleftrightarrow> is_valid r \<and> types_in_range s"
    unfolding check_type_parameters_def types_in_range_def
    by (subst is_valid_fold [where P = "\<lambda>e. \<forall>a \<in> set (ent_attributes e).
          parameters_in_range (attr_data_type a)"])
       (auto simp: is_valid_fold [where P = "\<lambda>a. parameters_in_range (attr_data_type a)"]
          parameter_problem_iff [symmetric] split: option.splits)
qed

interpretation relationship_ends: schema_check check_relationship_ends ends_resolve
proof
  fix s r
  show "\<exists>ds. diagnostics (check_relationship_ends s r) = diagnostics r @ ds"
    unfolding check_relationship_ends_def by (intro prefix_fold) (auto simp: Let_def)
  show "is_valid (check_relationship_ends s r) \<longleftrightarrow> is_valid r \<and> ends_resolve s"
    unfolding check_relationship_ends_def ends_resolve_def
    by (subst is_valid_fold [where P = "\<lambda>rel.
          resolve s (from_entity_id rel) (from_attribute_id rel) \<noteq> None \<and>
          resolve s (to_entity_id rel) (to_attribute_id rel) \<noteq> None"])
       (auto simp: Let_def split: option.splits)
qed

interpretation primary_keys: schema_check check_primary_keys keys_present
proof
  fix s r
  show "\<exists>ds. diagnostics (check_primary_keys s r) = diagnostics r @ ds"
    unfolding check_primary_keys_def by (intro prefix_fold) auto
  show "is_valid (check_primary_keys s r) \<longleftrightarrow> is_valid r \<and> keys_present s"
    unfolding check_primary_keys_def keys_present_def
    by (subst is_valid_fold [where P = has_primary_key])
       (auto simp: has_primary_key_def list_ex_iff)
qed

text \<open>
  The grouping loop of \<open>same_name_groups\<close>: one group per folded name, in the order the names
  first occur, holding the items of that name in the order of the list.
\<close>

definition first_keys :: "('a \<Rightarrow> string) \<Rightarrow> 'a list \<Rightarrow> string list" where
  "first_keys name items =
     rev (remdups (rev (filter (\<lambda>k. k \<noteq> '''') (map (\<lambda>x. fold_name (name x)) items))))"

lemma add_to_group_map:
  "distinct ks \<Longrightarrow> add_to_group k x (map (\<lambda>k'. (k', F k')) ks) =
     (if k \<in> set ks then map (\<lambda>k'. (k', if k' = k then F k' @ [x] else F k')) ks
      else map (\<lambda>k'. (k', F k')) ks @ [(k, [x])])"
  by (induction ks) (auto intro: map_cong)

lemma set_first_keys:
  "set (first_keys name items) = {k. k \<noteq> '''' \<and> (\<exists>x \<in> set items. fold_name (name x) = k)}"
  by (auto simp: first_keys_def)

lemma distinct_first_keys [simp]: "distinct (first_keys name items)"
  by (simp add: first_keys_def)

lemma grouping_loop:
  "fold (\<lambda>item groups. let key = fold_name (name item) in
      if key = '''' then groups else add_to_group key item groups) items [] =
   map (\<lambda>k. (k, filter (\<lambda>x. fold_name (name x) = k) items)) (first_keys name items)"
  (is "fold ?step items [] = ?groups items")
proof (induction items rule: rev_induct)
  case Nil
  show ?case by (simp add: first_keys_def)
next
  case (snoc x xs)
  let ?key = "fold_name (name x)"
  have other: "k \<in> set (first_keys name xs) \<Longrightarrow> ?key = '''' \<Longrightarrow> ?key \<noteq> k" for k
    by (auto simp: set_first_keys)
  have keys: "first_keys name (xs @ [x]) =
      (if ?key = '''' \<or> ?key \<in> set (first_keys name xs) then first_keys name xs
       else first_keys name xs @ [?key])"
    by (auto simp: first_keys_def)
  have fresh: "?key \<notin> set (first_keys name xs) \<Longrightarrow> ?key \<noteq> '''' \<Longrightarrow>
      filter (\<lambda>y. fold_name (name y) = ?key) xs = []"
    by (auto simp: set_first_keys filter_empty_conv)
  have "fold ?step (xs @ [x]) [] = ?step x (?groups xs)"
    by (simp only: fold_append comp_def fold_simps snoc.IH)
  also have "\<dots> = ?groups (xs @ [x])"
    using other fresh by (auto simp: Let_def keys add_to_group_map intro!: map_cong)
  finally show ?case .
qed

lemma same_name_groups_eq:
  "same_name_groups name items =
     filter (\<lambda>g. length g > 1)
       (map (\<lambda>k. filter (\<lambda>x. fold_name (name x) = k) items) (first_keys name items))"
  by (simp add: same_name_groups_def grouping_loop comp_def del: fold_simps)

lemma length_filter_le_one:
  "length (filter P xs) \<le> 1 \<longleftrightarrow> (\<forall>i j. i < j \<and> j < length xs \<and> P (xs ! i) \<longrightarrow> \<not> P (xs ! j))"
proof -
  have "length (filter P xs) \<le> 1 \<longleftrightarrow>
      (\<forall>i \<in> {i. i < length xs \<and> P (xs ! i)}. \<forall>j \<in> {i. i < length xs \<and> P (xs ! i)}. i = j)"
    by (simp add: length_filter_conv_card card_le_Suc0_iff_eq)
  also have "\<dots> \<longleftrightarrow> (\<forall>i j. i < j \<and> j < length xs \<and> P (xs ! i) \<longrightarrow> \<not> P (xs ! j))"
    by (auto dest: less_trans) (metis linorder_neqE_nat less_trans)
  finally show ?thesis .
qed

lemma same_name_groups_Nil: "same_name_groups name items = [] \<longleftrightarrow> names_distinct name items"
proof -
  have "same_name_groups name items = [] \<longleftrightarrow>
      (\<forall>k \<in> set (first_keys name items). length (filter (\<lambda>x. fold_name (name x) = k) items) \<le> 1)"
    by (auto simp: same_name_groups_eq filter_empty_conv not_less)
  also have "\<dots> \<longleftrightarrow> names_distinct name items"
  proof
    assume *: "\<forall>k \<in> set (first_keys name items).
      length (filter (\<lambda>x. fold_name (name x) = k) items) \<le> 1"
    show "names_distinct name items"
      unfolding names_distinct_def
    proof (intro allI impI)
      fix i j
      assume ij: "i < j \<and> j < length items \<and> fold_name (name (items ! i)) \<noteq> ''''"
      then have "fold_name (name (items ! i)) \<in> set (first_keys name items)"
        by (auto simp: set_first_keys intro!: bexI [of _ "items ! i"])
      with * ij show "fold_name (name (items ! i)) \<noteq> fold_name (name (items ! j))"
        unfolding length_filter_le_one by metis
    qed
  next
    assume nd: "names_distinct name items"
    show "\<forall>k \<in> set (first_keys name items).
        length (filter (\<lambda>x. fold_name (name x) = k) items) \<le> 1"
      unfolding length_filter_le_one
    proof (intro ballI allI impI)
      fix k i j
      assume k: "k \<in> set (first_keys name items)"
        and ij: "i < j \<and> j < length items \<and> fold_name (name (items ! i)) = k"
      have "fold_name (name (items ! i)) \<noteq> ''''"
        using k ij by (simp add: set_first_keys)
      then have "fold_name (name (items ! i)) \<noteq> fold_name (name (items ! j))"
        using nd ij unfolding names_distinct_def by blast
      with ij show "fold_name (name (items ! j)) \<noteq> k" by simp
    qed
  qed
  finally show ?thesis .
qed

interpretation duplicate_names: schema_check check_duplicate_names all_names_distinct
proof
  fix s r
  show "\<exists>ds. diagnostics (check_duplicate_names s r) = diagnostics r @ ds"
    unfolding check_duplicate_names_def by (intro prefix_fold prefix_fold_from) auto
  have loop: "is_valid (fold (\<lambda>g. push (d g)) gs r) \<longleftrightarrow> is_valid r \<and> gs = []"
    if "\<And>g. is_error (d g)" for d :: "'c \<Rightarrow> diagnostic" and gs r
    by (subst is_valid_fold [where P = "\<lambda>_. False"]) (auto simp: that)
  show "is_valid (check_duplicate_names s r) \<longleftrightarrow> is_valid r \<and> all_names_distinct s"
    unfolding check_duplicate_names_def all_names_distinct_def
    by (subst is_valid_fold [where P = "\<lambda>e. names_distinct attr_name (ent_attributes e)"])
       (simp_all add: loop same_name_groups_Nil conj_assoc)
qed

lemma check_foreign_key_valid:
  "is_valid (check_foreign_key s e a r) \<longleftrightarrow> is_valid r \<and> reference_sound s a"
  by (auto simp: check_foreign_key_def reference_sound_def type_mismatch_def Let_def
        split: option.splits if_splits)

interpretation foreign_keys: schema_check check_foreign_keys references_sound
proof
  fix s r
  show "\<exists>ds. diagnostics (check_foreign_keys s r) = diagnostics r @ ds"
    unfolding check_foreign_keys_def check_foreign_key_def
    by (intro prefix_fold) (auto simp: Let_def split: option.splits)
  show "is_valid (check_foreign_keys s r) \<longleftrightarrow> is_valid r \<and> references_sound s"
    unfolding check_foreign_keys_def references_sound_def
    by (subst is_valid_fold [where P = "\<lambda>e. \<forall>a \<in> set (ent_attributes e). reference_sound s a"])
       (simp_all add: is_valid_fold [where P = "reference_sound s"] check_foreign_key_valid)
qed

lemma requires_join_table_iff: "requires_join_table c \<longleftrightarrow> c = ManyToMany"
  by (cases c) simp_all

lemma check_relationship_valid:
  "is_valid (check_relationship s rel r) \<longleftrightarrow> is_valid r \<and> relationship_backed s rel"
  by (auto simp: check_relationship_def relationship_backed_def requires_join_table_iff Let_def
        split: option.splits prod.splits)

interpretation relationships: schema_check check_relationships relationships_backed
proof
  fix s r
  show "\<exists>ds. diagnostics (check_relationships s r) = diagnostics r @ ds"
    unfolding check_relationships_def check_relationship_def
    by (intro prefix_fold) (auto simp: Let_def split: option.splits)
  show "is_valid (check_relationships s r) \<longleftrightarrow> is_valid r \<and> relationships_backed s"
    unfolding check_relationships_def relationships_backed_def
    by (rule is_valid_fold) (rule check_relationship_valid)
qed

interpretation documentation: schema_check check_documentation "\<lambda>_. True"
proof
  fix s r
  show "\<exists>ds. diagnostics (check_documentation s r) = diagnostics r @ ds"
    unfolding check_documentation_def by (intro prefix_fold_from) auto
  show "is_valid (check_documentation s r) \<longleftrightarrow> is_valid r \<and> True"
    unfolding check_documentation_def
    by (subst is_valid_fold [where P = "\<lambda>_. True"])
       (auto simp: is_valid_fold [where P = "\<lambda>_. True"])
qed

end
