(* ===== verification/Cycles_Correct.thy ===== *)
theory Cycles_Correct
  imports Cycles
begin

text \<open>
  Correctness of the cycle check. The first part proves Tarjan's algorithm as the code writes it:
  the invariant \<open>search_inv\<close> of the vectors with respect to the set \<open>G\<close> of nodes whose call of
  \<open>visit\<close> is still open, the contract \<open>visit_pre\<close>/\<open>visit_post\<close> of one call and the invariant
  \<open>loop_inv\<close> of the loop over its neighbours. One induction then gives termination (the fuel is
  enough) and correctness together. The second part lifts the result to \<open>check_cycles\<close>.
\<close>

section \<open>Graphs and components\<close>

definition edge_rel :: "nat list list \<Rightarrow> (nat \<times> nat) set" where
  "edge_rel adj = {(u, v). u < length adj \<and> v \<in> set (adj ! u)}"

text \<open>A strongly connected component: a class of mutual reachability.\<close>

definition is_scc :: "(nat \<times> nat) set \<Rightarrow> nat set \<Rightarrow> bool" where
  "is_scc E C = (C \<noteq> {} \<and> (\<forall>u \<in> C. \<forall>v. v \<in> C \<longleftrightarrow> (u, v) \<in> E\<^sup>* \<and> (v, u) \<in> E\<^sup>*))"

lemma is_scc_eqI: "is_scc E C \<Longrightarrow> is_scc E D \<Longrightarrow> u \<in> C \<Longrightarrow> u \<in> D \<Longrightarrow> C = D"
  by (auto simp: is_scc_def)

lemma closed_rtrancl:
  assumes "\<And>u v. u \<in> A \<Longrightarrow> (u, v) \<in> E \<Longrightarrow> v \<in> A" and "(u, v) \<in> E\<^sup>*" and "u \<in> A"
  shows "v \<in> A"
  using assms(2,3) by (induction rule: rtrancl_induct) (auto intro: assms(1))

lemma is_sccI:
  assumes "x \<in> C"
    and to: "\<And>u. u \<in> C \<Longrightarrow> (x, u) \<in> E\<^sup>*" and from_all: "\<And>u. u \<in> C \<Longrightarrow> (u, x) \<in> E\<^sup>*"
    and leaves: "\<And>u v. u \<in> C \<Longrightarrow> (u, v) \<in> E \<Longrightarrow> v \<in> C \<union> D"
    and closed: "\<And>u v. u \<in> D \<Longrightarrow> (u, v) \<in> E \<Longrightarrow> v \<in> D" and "C \<inter> D = {}"
  shows "is_scc E C"
  unfolding is_scc_def
proof (intro conjI ballI allI iffI)
  show "C \<noteq> {}" using assms(1) by auto
next
  fix u v
  assume "u \<in> C" and "v \<in> C"
  then show "(u, v) \<in> E\<^sup>*" and "(v, u) \<in> E\<^sup>*"
    using to from_all by (meson rtrancl_trans)+
next
  fix u v
  assume u: "u \<in> C" and uv: "(u, v) \<in> E\<^sup>* \<and> (v, u) \<in> E\<^sup>*"
  have "v \<in> C \<union> D"
    by (rule closed_rtrancl [of "C \<union> D" E u v]) (use leaves closed uv u in auto)
  moreover have "v \<notin> D"
  proof
    assume "v \<in> D"
    then have "u \<in> D" using closed_rtrancl [of D E v u] closed uv by blast
    with u assms(6) show False by auto
  qed
  ultimately show "v \<in> C" by simp
qed

section \<open>The state of the search\<close>

definition visited :: "tarjan \<Rightarrow> nat set" where
  "visited st = {v. v < length (tj_index st) \<and> tj_index st ! v \<noteq> None}"

definition idx :: "tarjan \<Rightarrow> nat \<Rightarrow> nat" where
  "idx st v = the (tj_index st ! v)"

definition settled :: "tarjan \<Rightarrow> nat set" where
  "settled st = visited st - set (stack st)"

text \<open>The vectors agree with each other.\<close>

definition shape :: "nat list list \<Rightarrow> tarjan \<Rightarrow> bool" where
  "shape adj st = (length (tj_index st) = length adj \<and> length (tj_low st) = length adj \<and>
     length (on_stack st) = length adj \<and>
     (\<forall>v < length adj. on_stack st ! v \<longleftrightarrow> v \<in> set (stack st)) \<and>
     distinct (stack st) \<and> set (stack st) \<subseteq> visited st \<and>
     sorted_wrt (\<lambda>u v. idx st v < idx st u) (stack st) \<and>
     (\<forall>v \<in> visited st. idx st v < tj_next st))"

text \<open>
  What the stack and the open calls \<open>G\<close> say about reachability: closed nodes have no unvisited
  successor, settled nodes lead to settled nodes only, every node on the stack reaches an open
  node below it, and an open node reaches all nodes above it.
\<close>

definition paths :: "nat list list \<Rightarrow> nat set \<Rightarrow> tarjan \<Rightarrow> bool" where
  "paths adj G st = (G \<subseteq> set (stack st) \<and>
     (\<forall>v \<in> visited st - G. \<forall>w. (v, w) \<in> edge_rel adj \<longrightarrow> w \<in> visited st) \<and>
     (\<forall>v \<in> settled st. \<forall>w. (v, w) \<in> edge_rel adj \<longrightarrow> w \<in> settled st) \<and>
     (\<forall>x \<in> set (stack st). \<exists>g \<in> G. idx st g \<le> idx st x \<and> (x, g) \<in> (edge_rel adj)\<^sup>*) \<and>
     (\<forall>g \<in> G. \<forall>x \<in> set (stack st). idx st g \<le> idx st x \<longrightarrow> (g, x) \<in> (edge_rel adj)\<^sup>*))"

definition found :: "nat list list \<Rightarrow> tarjan \<Rightarrow> bool" where
  "found adj st = ((\<forall>c \<in> set (components st). distinct c \<and> is_scc (edge_rel adj) (set c)) \<and>
     \<Union> (set ` set (components st)) = settled st \<and> distinct (map set (components st)))"

definition search_inv :: "nat list list \<Rightarrow> nat set \<Rightarrow> tarjan \<Rightarrow> bool" where
  "search_inv adj G st = (shape adj st \<and> paths adj G st \<and> found adj st)"

definition visit_pre :: "nat list list \<Rightarrow> nat set \<Rightarrow> nat \<Rightarrow> tarjan \<Rightarrow> bool" where
  "visit_pre adj G x st = (search_inv adj G st \<and> x < length adj \<and> x \<notin> visited st \<and>
     (\<forall>g \<in> G. (g, x) \<in> (edge_rel adj)\<^sup>*))"

text \<open>\<open>st'\<close> extends \<open>st\<close>: nothing visited in \<open>st\<close> is touched, later indices are larger.\<close>

definition grows :: "tarjan \<Rightarrow> tarjan \<Rightarrow> bool" where
  "grows st st' = (visited st \<subseteq> visited st' \<and>
     (\<forall>v \<in> visited st. tj_index st' ! v = tj_index st ! v \<and> tj_low st' ! v = tj_low st ! v) \<and>
     (\<forall>v \<in> visited st' - visited st. tj_next st \<le> idx st' v) \<and> tj_next st \<le> tj_next st')"

definition visit_post :: "nat list list \<Rightarrow> nat set \<Rightarrow> nat \<Rightarrow> tarjan \<Rightarrow> tarjan \<Rightarrow> bool" where
  "visit_post adj G x st st' = (search_inv adj G st' \<and> grows st st' \<and> x \<in> visited st' \<and>
     (\<exists>s. stack st' = s @ stack st \<and> set s \<inter> visited st = {} \<and>
        (\<forall>u \<in> set s. \<forall>v \<in> set (stack st). (u, v) \<in> edge_rel adj \<longrightarrow> tj_low st' ! x \<le> idx st v)) \<and>
     (tj_next st \<le> tj_low st' ! x \<or>
      (\<exists>y \<in> set (stack st). idx st y = tj_low st' ! x \<and> (x, y) \<in> (edge_rel adj)\<^sup>*)))"

definition loop_inv ::
  "nat list list \<Rightarrow> nat set \<Rightarrow> nat \<Rightarrow> tarjan \<Rightarrow> nat set \<Rightarrow> tarjan \<Rightarrow> bool" where
  "loop_inv adj G x st0 P st = (search_inv adj (insert x G) st \<and> grows st0 st \<and>
     search_inv adj G st0 \<and> x \<notin> visited st0 \<and> x \<in> visited st \<and> idx st x = tj_next st0 \<and>
     (\<exists>s. stack st = s @ x # stack st0 \<and> set s \<inter> visited st0 = {} \<and>
        (\<forall>u \<in> set s. \<forall>v \<in> set (stack st0). (u, v) \<in> edge_rel adj \<longrightarrow> tj_low st ! x \<le> idx st0 v)) \<and>
     (\<forall>w \<in> P. w \<in> visited st \<and> (w \<in> set (stack st0) \<longrightarrow> tj_low st ! x \<le> idx st0 w)) \<and>
     tj_low st ! x \<le> tj_next st0 \<and>
     (tj_low st ! x = tj_next st0 \<or>
      (\<exists>y \<in> set (stack st0). idx st0 y = tj_low st ! x \<and> (x, y) \<in> (edge_rel adj)\<^sup>*)))"

lemma edge_rel_bound: "(u, v) \<in> edge_rel adj \<Longrightarrow> u < length adj"
  by (simp add: edge_rel_def)

lemma grows_idx: "grows st st' \<Longrightarrow> v \<in> visited st \<Longrightarrow> idx st' v = idx st v"
  by (simp add: grows_def idx_def)

lemma grows_trans:
  assumes "grows st1 st2" and "grows st2 st3"
  shows "grows st1 st3"
proof -
  have "tj_next st1 \<le> idx st3 v" if "v \<in> visited st3 - visited st1" for v
  proof (cases "v \<in> visited st2")
    case True
    then show ?thesis using that assms grows_idx [OF assms(2) True] by (auto simp: grows_def)
  next
    case False
    then have "tj_next st2 \<le> idx st3 v" using that assms(2) by (auto simp: grows_def)
    then show ?thesis using assms(1) by (auto simp: grows_def)
  qed
  then show ?thesis using assms unfolding grows_def by (smt (verit) order_trans subset_iff)
qed

section \<open>Entering a node\<close>

lemma enter_fields [simp]:
  "stack (enter x st) = x # stack st" "tj_next (enter x st) = Suc (tj_next st)"
  "components (enter x st) = components st"
  "length (tj_index (enter x st)) = length (tj_index st)"
  "length (tj_low (enter x st)) = length (tj_low st)"
  "length (on_stack (enter x st)) = length (on_stack st)"
  by (simp_all add: enter_def)

lemma enter_nth:
  "x < length (tj_index st) \<Longrightarrow> tj_index (enter x st) ! v = (if v = x then Some (tj_next st) else tj_index st ! v)"
  "x < length (tj_low st) \<Longrightarrow> tj_low (enter x st) ! v = (if v = x then tj_next st else tj_low st ! v)"
  "x < length (on_stack st) \<Longrightarrow> on_stack (enter x st) ! v = (v = x \<or> on_stack st ! v)"
  by (auto simp: enter_def nth_list_update)

lemma visited_enter: "x < length (tj_index st) \<Longrightarrow> visited (enter x st) = insert x (visited st)"
  by (auto simp: visited_def enter_def nth_list_update)

lemma idx_enter: "x < length (tj_index st) \<Longrightarrow> idx (enter x st) v = (if v = x then tj_next st else idx st v)"
  by (auto simp: idx_def enter_def nth_list_update)

lemma settled_enter:
  "x < length (tj_index st) \<Longrightarrow> x \<notin> visited st \<Longrightarrow> settled (enter x st) = settled st"
  by (auto simp: settled_def visited_enter)

lemma shape_enter:
  assumes "shape adj st" and "x < length adj" and "x \<notin> visited st"
  shows "shape adj (enter x st)"
proof -
  have len: "x < length (tj_index st)" using assms by (simp add: shape_def)
  have "x \<notin> set (stack st)" using assms by (auto simp: shape_def)
  moreover have "\<forall>v \<in> set (stack st). idx st v < tj_next st" using assms by (auto simp: shape_def)
  moreover have "sorted_wrt (\<lambda>u v. idx (enter x st) v < idx (enter x st) u) (stack st)"
    using assms(1) calculation(1)
    by (auto simp: shape_def idx_enter [OF len] elim!: sorted_wrt_mono_rel [rotated])
  ultimately show ?thesis
    using assms len
    by (auto simp: shape_def visited_enter idx_enter less_Suc_eq enter_nth)
qed

lemma paths_enter:
  assumes "shape adj st" and "paths adj G st" and "x < length adj" and "x \<notin> visited st"
    and reach: "\<forall>g \<in> G. (g, x) \<in> (edge_rel adj)\<^sup>*"
  shows "paths adj (insert x G) (enter x st)"
proof -
  have len: "x < length (tj_index st)" using assms by (simp add: shape_def)
  have sub: "G \<subseteq> set (stack st)" "set (stack st) \<subseteq> visited st" "x \<notin> set (stack st)"
    using assms by (auto simp: shape_def paths_def)
  have less: "v \<in> visited st \<Longrightarrow> idx st v < tj_next st" for v
    using assms(1) by (simp add: shape_def)
  have old: "v \<in> visited st \<Longrightarrow> idx (enter x st) v = idx st v" for v
    using assms(4) by (auto simp: idx_enter [OF len])
  have new: "idx (enter x st) x = tj_next st" by (simp add: idx_enter [OF len])
  have witness: "\<exists>g \<in> insert x G. idx (enter x st) g \<le> idx (enter x st) y \<and> (y, g) \<in> (edge_rel adj)\<^sup>*"
    if "y \<in> set (stack (enter x st))" for y
  proof (cases "y = x")
    case False
    then have y: "y \<in> set (stack st)" using that by simp
    then obtain g where "g \<in> G" "idx st g \<le> idx st y" "(y, g) \<in> (edge_rel adj)\<^sup>*"
      using assms(2) by (auto simp: paths_def)
    then show ?thesis using y sub old by (metis insertCI subset_iff)
  qed auto
  have open_reach: "(g, y) \<in> (edge_rel adj)\<^sup>*"
    if "g \<in> insert x G" "y \<in> set (stack (enter x st))" "idx (enter x st) g \<le> idx (enter x st) y" for g y
  proof (cases "g = x")
    case True
    have "y = x"
    proof (rule ccontr)
      assume "y \<noteq> x"
      then have "y \<in> visited st" using that(2) sub by auto
      then show False using that(3) less [of y] old [of y] new True by simp
    qed
    then show ?thesis using True by simp
  next
    case False
    then have g: "g \<in> G" "g \<in> visited st" using that(1) sub by auto
    show ?thesis
    proof (cases "y = x")
      case True
      then show ?thesis using reach g(1) by simp
    next
      case False
      then have y: "y \<in> set (stack st)" using that(2) by simp
      then have "y \<in> visited st" using sub by auto
      then have "idx st g \<le> idx st y" using that(3) old g by metis
      then show ?thesis using assms(2) g(1) y by (auto simp: paths_def)
    qed
  qed
  show ?thesis
    unfolding paths_def settled_enter [OF len assms(4)]
  proof (intro conjI)
    show "insert x G \<subseteq> set (stack (enter x st))" using sub by auto
    show "\<forall>v \<in> visited (enter x st) - insert x G. \<forall>w. (v, w) \<in> edge_rel adj \<longrightarrow> w \<in> visited (enter x st)"
      using assms(2) by (auto simp: visited_enter [OF len] paths_def)
    show "\<forall>v \<in> settled st. \<forall>w. (v, w) \<in> edge_rel adj \<longrightarrow> w \<in> settled st"
      using assms(2) by (simp add: paths_def)
  qed (use witness open_reach in blast)+
qed

lemma loop_inv_enter:
  assumes "visit_pre adj G x st"
  shows "loop_inv adj G x st {} (enter x st)"
proof -
  have inv: "shape adj st" "paths adj G st" "found adj st" and x: "x < length adj" "x \<notin> visited st"
    and reach: "\<forall>g \<in> G. (g, x) \<in> (edge_rel adj)\<^sup>*"
    using assms by (auto simp: visit_pre_def search_inv_def)
  have len: "x < length (tj_index st)" "x < length (tj_low st)" using inv x by (auto simp: shape_def)
  have "search_inv adj (insert x G) (enter x st)"
    using inv x reach shape_enter paths_enter
    by (auto simp: search_inv_def found_def settled_enter [OF len(1) x(2)])
  moreover have "grows st (enter x st)"
    using len x by (auto simp: grows_def visited_enter idx_enter enter_nth)
  ultimately show ?thesis
    using assms len by (auto simp: loop_inv_def visit_pre_def visited_enter idx_enter enter_nth)
qed

section \<open>The loop over the neighbours\<close>

lemma lower_fields [simp]:
  "stack (lower x i st) = stack st" "tj_next (lower x i st) = tj_next st"
  "components (lower x i st) = components st" "tj_index (lower x i st) = tj_index st"
  "on_stack (lower x i st) = on_stack st" "length (tj_low (lower x i st)) = length (tj_low st)"
  "visited (lower x i st) = visited st" "idx (lower x i st) v = idx st v"
  "settled (lower x i st) = settled st"
  by (simp_all add: lower_def visited_def idx_def settled_def)

lemma lower_nth:
  "x < length (tj_low st) \<Longrightarrow>
   tj_low (lower x i st) ! v = (if v = x then min (tj_low st ! x) i else tj_low st ! v)"
  by (simp add: lower_def nth_list_update)

lemma inv_lower [simp]: "search_inv adj G (lower x i st) = search_inv adj G st"
  by (simp add: search_inv_def shape_def paths_def found_def)

lemma visited_bound: "shape adj st \<Longrightarrow> v \<in> visited st \<Longrightarrow> v < length adj"
  by (simp add: shape_def visited_def)

text \<open>What the loop invariant says of the open nodes and of the stack.\<close>

lemma loop_invD:
  assumes "loop_inv adj G x st0 P st"
  shows "shape adj st" "paths adj (insert x G) st" "found adj st" "grows st0 st"
    "shape adj st0" "paths adj G st0" "idx st x = tj_next st0" "x \<in> visited st" "x \<notin> visited st0"
    "G \<subseteq> set (stack st0)" "set (stack st0) \<subseteq> visited st0" "x \<in> set (stack st)"
proof -
  show *: "shape adj st" "paths adj (insert x G) st" "found adj st" "grows st0 st"
    "shape adj st0" "paths adj G st0" "idx st x = tj_next st0" "x \<in> visited st" "x \<notin> visited st0"
    using assms by (simp_all only: loop_inv_def search_inv_def not_False_eq_True)
  show "G \<subseteq> set (stack st0)" using *(6) by (simp add: paths_def)
  show "set (stack st0) \<subseteq> visited st0" using *(5) by (simp add: shape_def)
  show "x \<in> set (stack st)" using *(2) by (simp add: paths_def)
qed

lemma loop_reach:
  assumes "loop_inv adj G x st0 P st" and "g \<in> insert x G"
  shows "(g, x) \<in> (edge_rel adj)\<^sup>*"
proof (cases "g = x")
  case False
  then have g: "g \<in> G" using assms(2) by simp
  then have v: "g \<in> visited st0" using loop_invD(10,11) [OF assms(1)] by auto
  then have "idx st g = idx st0 g" using loop_invD(4) [OF assms(1)] by (intro grows_idx)
  also have "\<dots> < tj_next st0" using v loop_invD(5) [OF assms(1)] by (simp add: shape_def)
  also have "\<dots> = idx st x" using loop_invD(7) [OF assms(1)] by simp
  finally show ?thesis
    using loop_invD(2,12) [OF assms(1)] g by (simp add: paths_def)
qed simp

lemma loop_below:
  assumes "loop_inv adj G x st0 P st" and "y \<in> set (stack st)" and "idx st y < tj_next st0"
  shows "y \<in> set (stack st0)" and "idx st0 y = idx st y"
proof -
  obtain s where s: "stack st = s @ x # stack st0" using assms(1) by (auto simp: loop_inv_def)
  have vis: "y \<in> visited st" using assms(1,2) by (auto simp: loop_inv_def search_inv_def shape_def)
  have "y \<in> visited st0"
  proof (rule ccontr)
    assume "y \<notin> visited st0"
    then have "tj_next st0 \<le> idx st y" using vis assms(1) by (auto simp: loop_inv_def grows_def)
    then show False using assms(3) by simp
  qed
  moreover have "y \<noteq> x" using assms(1,3) by (auto simp: loop_inv_def)
  ultimately show "y \<in> set (stack st0)" and "idx st0 y = idx st y"
    using assms(1,2) s grows_idx [of st0 st y] by (auto simp: loop_inv_def)
qed

lemma child_pre:
  assumes "loop_inv adj G x st0 P st" and "(x, w) \<in> edge_rel adj" and "w < length adj"
    and "w \<notin> visited st"
  shows "visit_pre adj (insert x G) w st"
proof -
  have "(g, w) \<in> (edge_rel adj)\<^sup>*" if "g \<in> insert x G" for g
    using loop_reach [OF assms(1) that] assms(2) by (rule rtrancl_into_rtrancl)
  then show ?thesis using assms by (auto simp: visit_pre_def loop_inv_def)
qed

text \<open>Lowering the low-link of \<open>x\<close> to that of something \<open>x\<close> reaches keeps the loop invariant.\<close>

lemma loop_inv_lower:
  assumes inv: "loop_inv adj G x st0 P st" and "x < length adj"
    and target: "tj_next st0 \<le> i \<or> (\<exists>y \<in> set (stack st). idx st y = i \<and> (x, y) \<in> (edge_rel adj)\<^sup>*)"
  shows "loop_inv adj G x st0 P (lower x i st)"
proof -
  have len: "x < length (tj_low st)" using inv assms(2) by (auto simp: loop_inv_def search_inv_def shape_def)
  have low: "tj_low (lower x i st) ! x = min (tj_low st ! x) i" by (simp add: lower_nth [OF len])
  have "grows st0 (lower x i st)"
    using inv by (auto simp: loop_inv_def grows_def lower_nth [OF len])
  moreover have "min (tj_low st ! x) i = tj_next st0 \<or>
      (\<exists>y \<in> set (stack st0). idx st0 y = min (tj_low st ! x) i \<and> (x, y) \<in> (edge_rel adj)\<^sup>*)"
  proof (cases "i < tj_low st ! x")
    case True
    then have "i < tj_next st0" using inv by (auto simp: loop_inv_def)
    then obtain y where "y \<in> set (stack st)" "idx st y = i" "(x, y) \<in> (edge_rel adj)\<^sup>*"
      using target by auto
    then show ?thesis using True loop_below [OF inv, of y] \<open>i < tj_next st0\<close> by auto
  next
    case False
    then show ?thesis using inv by (auto simp: loop_inv_def min_def)
  qed
  ultimately show ?thesis
    using inv unfolding loop_inv_def lower_fields inv_lower low by (fastforce intro: min.coboundedI1)
qed

lemma seen_step:
  assumes inv: "loop_inv adj G x st0 P st" and edge: "(x, w) \<in> edge_rel adj" and "w \<in> visited st"
  shows "loop_inv adj G x st0 (insert w P) (if on_stack st ! w then lower x (idx st w) st else st)"
proof -
  have x: "x < length adj" using edge by (rule edge_rel_bound)
  have os: "on_stack st ! w \<longleftrightarrow> w \<in> set (stack st)"
    using inv assms(3) visited_bound by (auto simp: loop_inv_def search_inv_def shape_def)
  show ?thesis
  proof (cases "w \<in> set (stack st)")
    case True
    have len: "x < length (tj_low st)" using inv x by (auto simp: loop_inv_def search_inv_def shape_def)
    have "w \<in> set (stack st0) \<Longrightarrow> idx st0 w = idx st w"
      using inv grows_idx [of st0 st w] by (auto simp: loop_inv_def search_inv_def shape_def)
    moreover have "loop_inv adj G x st0 P (lower x (idx st w) st)"
      using edge True by (intro loop_inv_lower [OF inv x]) auto
    ultimately show ?thesis
      using os True assms(3) by (auto simp: loop_inv_def lower_nth [OF len])
  next
    case False
    then have "w \<notin> set (stack st0)" using inv by (auto simp: loop_inv_def)
    then show ?thesis using inv os False assms(3) by (auto simp: loop_inv_def)
  qed
qed

lemma child_post:
  assumes inv: "loop_inv adj G x st0 P st" and edge: "(x, w) \<in> edge_rel adj" and new: "w \<notin> visited st"
    and post: "visit_post adj (insert x G) w st st'"
  shows "loop_inv adj G x st0 (insert w P) (lower x (tj_low st' ! w) st')"
proof -
  let ?i = "tj_low st' ! w"
  have x: "x < length adj" using edge by (rule edge_rel_bound)
  have len: "x < length (tj_low st')" using post x by (auto simp: visit_post_def search_inv_def shape_def)
  have grows: "grows st0 st" "grows st st'" using inv post by (auto simp: loop_inv_def visit_post_def)
  have vis: "x \<in> visited st" "set (stack st) \<subseteq> visited st" "visited st0 \<subseteq> visited st"
    "set (stack st0) \<subseteq> visited st0"
    using inv by (auto simp: loop_inv_def search_inv_def shape_def grows_def)
  have same: "tj_low st' ! x = tj_low st ! x" "idx st' x = idx st x"
    using grows vis grows_idx by (auto simp: grows_def)
  have low: "tj_low (lower x ?i st') ! x = min (tj_low st ! x) ?i" by (simp add: lower_nth [OF len] same)
  obtain s where s: "stack st = s @ x # stack st0" "set s \<inter> visited st0 = {}"
    "\<forall>u \<in> set s. \<forall>v \<in> set (stack st0). (u, v) \<in> edge_rel adj \<longrightarrow> tj_low st ! x \<le> idx st0 v"
    using inv by (auto simp: loop_inv_def)
  obtain s' where s': "stack st' = s' @ stack st" "set s' \<inter> visited st = {}"
    "\<forall>u \<in> set s'. \<forall>v \<in> set (stack st). (u, v) \<in> edge_rel adj \<longrightarrow> ?i \<le> idx st v"
    using post by (auto simp: visit_post_def)
  have "\<exists>t. stack st' = t @ x # stack st0 \<and> set t \<inter> visited st0 = {} \<and>
      (\<forall>u \<in> set t. \<forall>v \<in> set (stack st0). (u, v) \<in> edge_rel adj \<longrightarrow> min (tj_low st ! x) ?i \<le> idx st0 v)"
  proof (intro exI conjI ballI impI)
    show "stack st' = (s' @ s) @ x # stack st0" using s s' by simp
    show "set (s' @ s) \<inter> visited st0 = {}" using s s' vis by auto
    fix u v
    assume u: "u \<in> set (s' @ s)" and v: "v \<in> set (stack st0)" and e: "(u, v) \<in> edge_rel adj"
    have "idx st v = idx st0 v" using grows(1) v vis grows_idx by blast
    moreover have "v \<in> set (stack st)" using v s by simp
    ultimately show "min (tj_low st ! x) ?i \<le> idx st0 v"
      using u v e s(3) s'(3) by (metis Un_iff min_le_iff_disj set_append)
  qed
  moreover have "\<forall>p \<in> P. p \<in> visited st' \<and>
      (p \<in> set (stack st0) \<longrightarrow> min (tj_low st ! x) ?i \<le> idx st0 p)"
    using inv grows(2) by (auto simp: loop_inv_def grows_def min_le_iff_disj)
  moreover have "w \<in> visited st'" "w \<notin> set (stack st0)"
    using post new vis by (auto simp: visit_post_def)
  moreover have "min (tj_low st ! x) ?i = tj_next st0 \<or>
      (\<exists>y \<in> set (stack st0). idx st0 y = min (tj_low st ! x) ?i \<and> (x, y) \<in> (edge_rel adj)\<^sup>*)"
  proof (cases "?i < tj_low st ! x")
    case True
    then have less: "?i < tj_next st0" using inv by (auto simp: loop_inv_def)
    moreover have "tj_next st0 \<le> tj_next st" using grows by (simp add: grows_def)
    ultimately obtain y where y: "y \<in> set (stack st)" "idx st y = ?i" "(w, y) \<in> (edge_rel adj)\<^sup>*"
      using post by (auto simp: visit_post_def)
    then show ?thesis
      using True less loop_below [OF inv y(1)] edge converse_rtrancl_into_rtrancl [OF edge y(3)] by auto
  next
    case False
    then show ?thesis using inv by (auto simp: loop_inv_def min_def)
  qed
  moreover have "grows st0 (lower x ?i st')"
    using grows_trans [OF grows] inv by (auto simp: loop_inv_def grows_def lower_nth [OF len])
  moreover have "x \<in> visited st'" "idx st' x = tj_next st0" "tj_low st ! x \<le> tj_next st0"
    "search_inv adj (insert x G) st'" "search_inv adj G st0" "x \<notin> visited st0"
    using inv post vis grows same by (auto simp: loop_inv_def visit_post_def grows_def)
  ultimately show ?thesis
    unfolding loop_inv_def lower_fields inv_lower low by (auto intro: min.coboundedI1)
qed

section \<open>Leaving a node\<close>

lemma pop_component_append:
  assumes "x \<notin> set s"
  shows "pop_component x (s @ x # rest) os component =
    (rest, fold (\<lambda>v os. os[v := False]) (s @ [x]) os, component @ s @ [x])"
  using assms by (induction s arbitrary: os component) (auto simp: Let_def)

lemma clear_length [simp]: "length (fold (\<lambda>v os. os[v := False]) vs os) = length os"
  by (induction vs arbitrary: os) auto

lemma clear_one: "i < length os \<Longrightarrow> os[a := False] ! i \<longleftrightarrow> os ! i \<and> i \<noteq> a"
  by (cases "i = a") auto

lemma clear_nth:
  "i < length os \<Longrightarrow> fold (\<lambda>v os. os[v := False]) vs os ! i \<longleftrightarrow> os ! i \<and> i \<notin> set vs"
  by (induction vs arbitrary: os) (auto simp: clear_one)

text \<open>All successors of \<open>x\<close> are done: \<open>x\<close> is closed, and low-links bound edges into the old stack.\<close>

lemma loop_inv_done:
  assumes "loop_inv adj G x st0 P st" and "w \<in> P"
  shows "w \<in> visited st" and "w \<in> set (stack st0) \<Longrightarrow> tj_low st ! x \<le> idx st0 w"
  using assms unfolding loop_inv_def by (blast, blast)

lemma done_closed:
  assumes "loop_inv adj G x st0 (set (adj ! x)) st" and "v \<in> visited st - G"
    and "(v, w) \<in> edge_rel adj"
  shows "w \<in> visited st"
proof (cases "v = x")
  case True
  then have "w \<in> set (adj ! x)" using assms(3) by (simp add: edge_rel_def)
  then show ?thesis by (rule loop_inv_done(1) [OF assms(1)])
next
  case False
  then show ?thesis using assms(2,3) loop_invD(2) [OF assms(1)] unfolding paths_def by blast
qed

lemma done_low:
  assumes "loop_inv adj G x st0 (set (adj ! x)) st" and "stack st = s @ x # stack st0"
    and "u \<in> insert x (set s)" and "v \<in> set (stack st0)" and "(u, v) \<in> edge_rel adj"
  shows "tj_low st ! x \<le> idx st0 v"
proof (cases "u = x")
  case True
  then show ?thesis using assms(4,5) loop_inv_done(2) [OF assms(1)] by (simp add: edge_rel_def)
next
  case False
  obtain t where "stack st = t @ x # stack st0"
    "\<forall>u \<in> set t. \<forall>v \<in> set (stack st0). (u, v) \<in> edge_rel adj \<longrightarrow> tj_low st ! x \<le> idx st0 v"
    using assms(1) unfolding loop_inv_def by blast
  then show ?thesis using False assms(2-5) by auto
qed

lemma leave_open:
  assumes inv: "loop_inv adj G x st0 (set (adj ! x)) st" and x: "x < length adj"
    and ne: "tj_low st ! x \<noteq> idx st x"
  shows "visit_post adj G x st0 st"
proof -
  note facts = loop_invD [OF inv]
  obtain s where s: "stack st = s @ x # stack st0" "set s \<inter> visited st0 = {}"
    using inv by (auto simp: loop_inv_def)
  obtain y where y: "y \<in> set (stack st0)" "idx st0 y = tj_low st ! x" "(x, y) \<in> (edge_rel adj)\<^sup>*"
    using inv ne by (auto simp: loop_inv_def)
  have less: "tj_low st ! x < idx st x" using inv ne by (auto simp: loop_inv_def)
  obtain g where g: "g \<in> G" "idx st0 g \<le> idx st0 y" "(y, g) \<in> (edge_rel adj)\<^sup>*"
    using facts(6) y(1) by (auto simp: paths_def)
  have same: "idx st g = idx st0 g" using g(1) facts(4,10,11) grows_idx by blast
  have "\<exists>h \<in> G. idx st h \<le> idx st z \<and> (z, h) \<in> (edge_rel adj)\<^sup>*" if z: "z \<in> set (stack st)" for z
  proof -
    obtain h where h: "h \<in> insert x G" "idx st h \<le> idx st z" "(z, h) \<in> (edge_rel adj)\<^sup>*"
      using facts(2) z unfolding paths_def by blast
    show ?thesis
    proof (cases "h \<in> G")
      case False
      then have "h = x" using h(1) by simp
      then have "(z, g) \<in> (edge_rel adj)\<^sup>*" "idx st g \<le> idx st z"
        using h y g same less by (auto intro: rtrancl_trans)
      then show ?thesis using g(1) by blast
    qed (use h in blast)
  qed
  then have "paths adj G st"
    using facts(2) done_closed [OF inv] unfolding paths_def by blast
  moreover have "stack st = (s @ [x]) @ stack st0" "set (s @ [x]) \<inter> visited st0 = {}"
    using s facts(9) by auto
  moreover have "\<forall>u \<in> set (s @ [x]). \<forall>v \<in> set (stack st0). (u, v) \<in> edge_rel adj \<longrightarrow> tj_low st ! x \<le> idx st0 v"
    using done_low [OF inv s(1)] by auto
  ultimately show ?thesis
    using facts(1,3,4,8) y unfolding visit_post_def search_inv_def by blast
qed

lemma leave_scc:
  assumes inv: "loop_inv adj G x st0 (set (adj ! x)) st" and eq: "tj_low st ! x = idx st x"
    and s: "stack st = s @ x # stack st0" "set s \<inter> visited st0 = {}"
  shows "is_scc (edge_rel adj) (set (s @ [x]))"
    and "\<And>u v. u \<in> set (s @ [x]) \<Longrightarrow> (u, v) \<in> edge_rel adj \<Longrightarrow> v \<in> set (s @ [x]) \<union> settled st"
proof -
  note facts = loop_invD [OF inv]
  show leaves: "v \<in> set (s @ [x]) \<union> settled st" if "u \<in> set (s @ [x])" "(u, v) \<in> edge_rel adj" for u v
  proof -
    have "u \<in> visited st - G" using that(1) s facts(1,9,10,11) by (auto simp: shape_def)
    then have "v \<in> visited st" using done_closed [OF inv] that(2) by blast
    moreover have "v \<notin> set (stack st0)"
    proof
      assume v: "v \<in> set (stack st0)"
      then have "tj_low st ! x \<le> idx st0 v" using done_low [OF inv s(1)] that by auto
      moreover have "idx st0 v < tj_next st0" using v facts(5,11) by (auto simp: shape_def)
      ultimately show False using eq facts(7) by simp
    qed
    ultimately show ?thesis using s by (auto simp: settled_def)
  qed
  have above: "idx st x \<le> idx st u" if "u \<in> set (s @ [x])" for u
    using that facts(1) s(1) by (auto simp: shape_def sorted_wrt_append)
  show "is_scc (edge_rel adj) (set (s @ [x]))"
  proof (rule is_sccI [of x, where D = "settled st"])
    show "(x, u) \<in> (edge_rel adj)\<^sup>*" if "u \<in> set (s @ [x])" for u
      using that above facts(2) s(1) by (auto simp: paths_def)
    show "(u, x) \<in> (edge_rel adj)\<^sup>*" if u: "u \<in> set (s @ [x])" for u
    proof -
      have "u \<in> set (stack st)" using u s(1) by auto
      then obtain g where "g \<in> insert x G" "(u, g) \<in> (edge_rel adj)\<^sup>*"
        using facts(2) unfolding paths_def by blast
      then show ?thesis using loop_reach [OF inv] by (meson rtrancl_trans)
    qed
    show "v \<in> settled st" if "u \<in> settled st" "(u, v) \<in> edge_rel adj" for u v
      using that facts(2) by (auto simp: paths_def)
  qed (use leaves s in \<open>auto simp: settled_def\<close>)
qed

lemma leave_closed:
  assumes inv: "loop_inv adj G x st0 (set (adj ! x)) st" and x: "x < length adj"
    and eq: "tj_low st ! x = idx st x"
    and s: "stack st = s @ x # stack st0" "set s \<inter> visited st0 = {}"
    and st': "st' = st\<lparr>stack := stack st0, on_stack := fold (\<lambda>v os. os[v := False]) (s @ [x]) (on_stack st),
      components := components st @ [s @ [x]]\<rparr>"
  shows "visit_post adj G x st0 st'"
proof -
  note facts = loop_invD [OF inv] and scc = leave_scc [OF inv eq s]
  let ?C = "set (s @ [x])"
  have [simp]: "visited st' = visited st" "idx st' v = idx st v" "tj_low st' = tj_low st"
    "tj_next st' = tj_next st" "stack st' = stack st0" "tj_index st' = tj_index st" for v
    by (simp_all add: st' visited_def idx_def)
  have sub: "?C \<subseteq> visited st" "?C \<inter> set (stack st0) = {}" "distinct (s @ [x])"
    using facts(1) s(1) by (auto simp: shape_def)
  have settled: "settled st' = settled st \<union> ?C"
    using sub s(1) by (auto simp: settled_def)
  have same: "v \<in> set (stack st0) \<Longrightarrow> idx st v = idx st0 v" for v
    using facts(4,11) grows_idx by blast
  have "length (on_stack st') = length adj" "\<forall>v < length adj. on_stack st' ! v \<longleftrightarrow> v \<in> set (stack st0)"
    using facts(1) sub(2) s(1) by (auto simp: shape_def st' clear_nth clear_one)
  then have "shape adj st'"
    using facts(1) s(1) by (simp add: shape_def sorted_wrt_append)
  moreover have "paths adj G st'"
  proof -
    have "\<forall>v \<in> settled st'. \<forall>w. (v, w) \<in> edge_rel adj \<longrightarrow> w \<in> settled st'"
      using facts(2) scc(2) unfolding settled by (auto simp: paths_def)
    moreover have "\<forall>z \<in> set (stack st0). \<exists>g \<in> G. idx st g \<le> idx st z \<and> (z, g) \<in> (edge_rel adj)\<^sup>*"
      using facts(6,10) same unfolding paths_def by (metis subset_iff)
    moreover have "\<forall>g \<in> G. \<forall>z \<in> set (stack st0). idx st g \<le> idx st z \<longrightarrow> (g, z) \<in> (edge_rel adj)\<^sup>*"
      using facts(6,10) same unfolding paths_def by (metis subset_iff)
    ultimately show ?thesis
      using facts(10) done_closed [OF inv] by (simp add: paths_def)
  qed
  moreover have "found adj st'"
  proof -
    have "?C \<notin> set ` set (components st)"
      using facts(3) s(1) by (auto simp: found_def settled_def)
    then show ?thesis
      using facts(3) scc(1) sub(3) unfolding found_def settled by (auto simp: st')
  qed
  moreover have "grows st0 st'" using facts(4) by (simp add: grows_def)
  moreover have "tj_next st0 \<le> tj_low st' ! x" using eq facts(7) by simp
  ultimately show ?thesis using facts(8) by (simp add: visit_post_def search_inv_def)
qed

lemma leave_post:
  assumes inv: "loop_inv adj G x st0 (set (adj ! x)) st" and x: "x < length adj"
  shows "visit_post adj G x st0 (leave x st)"
proof -
  note facts = loop_invD [OF inv]
  have index: "tj_index st ! x = Some (idx st x)" using facts(8) by (simp add: visited_def idx_def)
  show ?thesis
  proof (cases "tj_low st ! x = idx st x")
    case False
    then show ?thesis using leave_open [OF inv x] index by (simp add: leave_def)
  next
    case True
    obtain s where s: "stack st = s @ x # stack st0" "set s \<inter> visited st0 = {}"
      using inv by (auto simp: loop_inv_def)
    then have "x \<notin> set s" using facts(1) by (auto simp: shape_def)
    then show ?thesis
      using leave_closed [OF inv x True s] True index
      by (simp add: leave_def s(1) pop_component_append)
  qed
qed

section \<open>The whole search\<close>

definition bounded_graph :: "nat list list \<Rightarrow> bool" where
  "bounded_graph adj = (\<forall>u < length adj. \<forall>v \<in> set (adj ! u). v < length adj)"

definition unseen :: "nat list list \<Rightarrow> tarjan \<Rightarrow> nat" where
  "unseen adj st = card ({..<length adj} - visited st)"

lemma unseen_mono: "visited st \<subseteq> visited st' \<Longrightarrow> unseen adj st' \<le> unseen adj st"
  unfolding unseen_def by (intro card_mono) auto

lemma unseen_enter:
  assumes "x < length adj" "x \<notin> visited st" "length (tj_index st) = length adj"
  shows "unseen adj st = Suc (unseen adj (enter x st))"
proof -
  have eq: "{..<length adj} - visited st = insert x ({..<length adj} - visited (enter x st))"
    and "x \<notin> {..<length adj} - visited (enter x st)"
    using assms by (auto simp: visited_enter)
  then show ?thesis unfolding unseen_def eq by (intro card_insert_disjoint) auto
qed

lemma visit_pre_length: "visit_pre adj G x st \<Longrightarrow> length (tj_index st) = length adj"
  by (simp add: visit_pre_def search_inv_def shape_def)

lemma visit_post_mono: "visit_post adj G x st st' \<Longrightarrow> visited st \<subseteq> visited st'"
  by (simp add: visit_post_def grows_def)

theorem visit_meets_contract:
  shows "bounded_graph adj \<Longrightarrow> visit_pre adj G x st \<Longrightarrow> unseen adj st \<le> fuel \<Longrightarrow>
      \<exists>st'. visit fuel adj x st = Some st' \<and> visit_post adj G x st st'"
    and "bounded_graph adj \<Longrightarrow> loop_inv adj G x st0 (set ds) st \<Longrightarrow> adj ! x = ds @ ws \<Longrightarrow>
      x < length adj \<Longrightarrow> unseen adj st \<le> fuel \<Longrightarrow>
      \<exists>st'. visit_neighbours fuel adj x ws st = Some st' \<and> loop_inv adj G x st0 (set (adj ! x)) st'"
proof (induction fuel adj x st and fuel adj x ws st arbitrary: G and G st0 ds
    rule: visit_visit_neighbours.induct)
  case (1 adj x st)
  then have "x < length adj" "x \<notin> visited st" by (auto simp: visit_pre_def)
  then have "unseen adj st \<noteq> 0" using unseen_enter [OF _ _ visit_pre_length [OF 1(2)]] by simp
  then show ?case using 1(3) by simp
next
  case (2 fuel adj x st)
  have x: "x < length adj" "x \<notin> visited st" using 2 by (auto simp: visit_pre_def)
  have len: "length (tj_index st) = length adj" using visit_pre_length 2 by auto
  have "loop_inv adj G x st (set []) (enter x st)" using loop_inv_enter 2 by auto
  moreover have "unseen adj (enter x st) \<le> fuel" using unseen_enter x len 2 by auto
  ultimately obtain st' where "visit_neighbours fuel adj x (adj ! x) (enter x st) = Some st'"
    "loop_inv adj G x st (set (adj ! x)) st'"
    using 2 x len by (metis append_Nil not_le)
  then show ?case using leave_post x len by auto
next
  case (3 fuel adj x st)
  then show ?case by auto
next
  case (4 fuel adj x w rest st)
  have edge: "(x, w) \<in> edge_rel adj" using 4 by (simp add: edge_rel_def)
  have w: "w < length adj" using 4 by (auto simp: bounded_graph_def)
  have len: "length (tj_index st) = length adj" using loop_invD(1) [OF 4(5)] by (simp add: shape_def)
  have split: "adj ! x = (ds @ [w]) @ rest" using 4 by simp
  show ?case
  proof (cases "tj_index st ! w")
    case None
    have new: "w \<notin> visited st" using None by (simp add: visited_def)
    obtain st' where st': "visit fuel adj w st = Some st'" "visit_post adj (insert x G) w st st'"
      using 4(1) [OF _ None 4(4) child_pre [OF 4(5) edge w new] 4(8)] w len by auto
    have post: "loop_inv adj G x st0 (set (ds @ [w])) (lower x (tj_low st' ! w) st')"
      using child_post [OF 4(5) edge new st'(2)] by simp
    have "unseen adj (lower x (tj_low st' ! w) st') \<le> fuel"
      using unseen_mono [OF visit_post_mono [OF st'(2)], of adj] 4(8) by (simp add: unseen_def)
    then show ?thesis
      using 4(2) [OF _ None st'(1) 4(4) post split 4(7)] w len None st'(1) by auto
  next
    case (Some i)
    then have seen: "w \<in> visited st" "idx st w = i" using w len by (auto simp: visited_def idx_def)
    have post: "loop_inv adj G x st0 (set (ds @ [w])) (if on_stack st ! w then lower x i st else st)"
      using seen_step [OF 4(5) edge seen(1)] unfolding seen(2) by (simp split: if_splits)
    have "unseen adj (if on_stack st ! w then lower x i st else st) \<le> fuel"
      using 4(8) by (simp add: unseen_def)
    then show ?thesis using 4(3) [OF _ Some 4(4) post split 4(7)] w len Some by auto
  qed
qed

lemma visit_all_correct:
  assumes "bounded_graph adj"
  shows "search_inv adj {} st \<Longrightarrow> set nodes \<subseteq> {..<length adj} \<Longrightarrow> unseen adj st \<le> fuel \<Longrightarrow>
    \<exists>st'. visit_all fuel adj nodes st = Some st' \<and> search_inv adj {} st' \<and> visited st \<union> set nodes \<subseteq> visited st'"
proof (induction nodes arbitrary: st)
  case (Cons x nodes)
  have x: "x < length adj" and len: "length (tj_index st) = length adj"
    using Cons by (auto simp: search_inv_def shape_def)
  show ?case
  proof (cases "tj_index st ! x")
    case None
    then have "visit_pre adj {} x st" using Cons x by (auto simp: visit_pre_def visited_def)
    then obtain st' where st': "visit fuel adj x st = Some st'" "visit_post adj {} x st st'"
      using visit_meets_contract(1) assms Cons by blast
    then have mono: "visited st \<subseteq> visited st'" "x \<in> visited st'" "search_inv adj {} st'"
      by (auto simp: visit_post_def grows_def)
    then obtain st'' where "visit_all fuel adj nodes st' = Some st''" "search_inv adj {} st''"
      "visited st' \<union> set nodes \<subseteq> visited st''"
      using Cons.IH [of st'] Cons.prems unseen_mono [OF mono(1), of adj] by auto
    then show ?thesis using None st'(1) mono by auto
  next
    case (Some i)
    then have "x \<in> visited st" using x len by (simp add: visited_def)
    then show ?thesis using Some Cons.IH [of st] Cons.prems by fastforce
  qed
qed auto

lemma inv_new: "search_inv adj {} (tarjan_new (length adj))"
  by (auto simp: search_inv_def shape_def paths_def found_def tarjan_new_def visited_def settled_def)

text \<open>After the outer loop the recorded components are exactly the classes of the nodes.\<close>

lemma search_correct:
  assumes "bounded_graph adj"
  shows "\<exists>st. visit_all (length adj) adj [0..<length adj] (tarjan_new (length adj)) = Some st \<and>
    (\<forall>c \<in> set (components st). distinct c \<and> is_scc (edge_rel adj) (set c)) \<and>
    \<Union> (set ` set (components st)) = {..<length adj} \<and> distinct (map set (components st))"
proof -
  have "unseen adj (tarjan_new (length adj)) \<le> length adj"
    unfolding unseen_def by (rule order_trans [OF card_mono [of "{..<length adj}"]]) auto
  then obtain st where st: "visit_all (length adj) adj [0..<length adj] (tarjan_new (length adj)) = Some st"
    "search_inv adj {} st" "{..<length adj} \<subseteq> visited st"
    using visit_all_correct [OF assms inv_new, of "[0..<length adj]" "length adj"] by (auto simp: atLeast_upt)
  have "stack st = []" using st(2) by (auto simp: search_inv_def paths_def)
  then have "settled st = {..<length adj}"
    using st(2,3) visited_bound by (auto simp: search_inv_def settled_def)
  then show ?thesis using st(1,2) by (auto simp: search_inv_def found_def)
qed

lemma adjacency_fold:
  assumes "\<forall>(u, v) \<in> set edges. u < length adj"
  shows "length (fold (\<lambda>(src, dst) a. a[src := a ! src @ [dst]]) edges adj) = length adj"
    and "edge_rel (fold (\<lambda>(src, dst) a. a[src := a ! src @ [dst]]) edges adj) = edge_rel adj \<union> set edges"
proof -
  have "length (fold (\<lambda>(src, dst) a. a[src := a ! src @ [dst]]) edges adj) = length adj \<and>
    edge_rel (fold (\<lambda>(src, dst) a. a[src := a ! src @ [dst]]) edges adj) = edge_rel adj \<union> set edges"
    using assms
  proof (induction edges arbitrary: adj)
    case (Cons e edges)
    obtain u v where e: "e = (u, v)" by (cases e)
    have "edge_rel (adj[u := adj ! u @ [v]]) = insert (u, v) (edge_rel adj)"
      using Cons.prems e by (auto simp: edge_rel_def nth_list_update split: if_splits)
    then show ?case using Cons.IH [of "adj[u := adj ! u @ [v]]"] Cons.prems e by auto
  qed simp
  then show "length (fold (\<lambda>(src, dst) a. a[src := a ! src @ [dst]]) edges adj) = length adj"
    and "edge_rel (fold (\<lambda>(src, dst) a. a[src := a ! src @ [dst]]) edges adj) = edge_rel adj \<union> set edges"
    by simp_all
qed

lemma adjacency_of_correct:
  assumes "\<forall>(u, v) \<in> set edges. u < n \<and> v < n"
  shows "length (adjacency_of n edges) = n" and "edge_rel (adjacency_of n edges) = set edges"
    and "bounded_graph (adjacency_of n edges)"
proof -
  have src: "\<forall>(u, v) \<in> set edges. u < length (replicate n ([] :: nat list))" using assms by auto
  have "edge_rel (replicate n []) = {}" by (auto simp: edge_rel_def)
  then show *: "length (adjacency_of n edges) = n" "edge_rel (adjacency_of n edges) = set edges"
    using adjacency_fold [OF src] by (simp_all add: adjacency_of_def)
  show "bounded_graph (adjacency_of n edges)"
    unfolding bounded_graph_def
  proof (intro allI impI ballI)
    fix u v
    assume "u < length (adjacency_of n edges)" "v \<in> set (adjacency_of n edges ! u)"
    then have "(u, v) \<in> set edges" using *(2) by (auto simp: edge_rel_def)
    then show "v < length (adjacency_of n edges)" using assms *(1) by auto
  qed
qed

lemma scc_edge_source:
  assumes "is_scc E C" and "2 \<le> card C"
  shows "\<exists>u \<in> C. \<exists>v. (u, v) \<in> E"
proof -
  obtain u where u: "u \<in> C" using assms(1) by (auto simp: is_scc_def)
  have "C \<noteq> {u}" using assms(2) by auto
  then obtain v where "v \<in> C" "v \<noteq> u" using u by auto
  then have "(u, v) \<in> E\<^sup>*" "u \<noteq> v" using assms(1) u by (auto simp: is_scc_def)
  then show ?thesis using u by (meson converse_rtranclE)
qed

theorem strongly_connected_correct:
  assumes "\<forall>(u, v) \<in> set edges. u < n \<and> v < n"
  shows "\<exists>cs. strongly_connected n edges = Some cs \<and> sorted cs \<and> distinct cs \<and>
    (\<forall>c \<in> set cs. sorted c \<and> distinct c) \<and>
    set ` set cs = {C. is_scc (set edges) C \<and> 2 \<le> card C}"
proof -
  note adj = adjacency_of_correct [OF assms]
  obtain st where st: "visit_all n (adjacency_of n edges) [0..<n] (tarjan_new n) = Some st"
    and scc: "\<And>c. c \<in> set (components st) \<Longrightarrow> distinct c \<and> is_scc (set edges) (set c)"
    and all: "\<Union> (set ` set (components st)) = {..<n}" and dist: "distinct (map set (components st))"
    using search_correct [OF adj(3)] adj(1,2) by auto
  let ?cs = "sort (map sort (filter (\<lambda>c. length c > 1) (components st)))"
  have "strongly_connected n edges = Some ?cs"
    using assms by (auto simp: strongly_connected_def st split: prod.splits)
  moreover have "distinct (map sort (filter (\<lambda>c. length c > 1) (components st)))"
  proof -
    have "distinct (map set (map sort (filter (\<lambda>c. length c > 1) (components st))))"
      using dist by (simp add: comp_def distinct_map inj_on_def)
    then show ?thesis by (simp only: distinct_map)
  qed
  moreover have "\<exists>c \<in> set (components st). C = set c \<and> length c > 1"
    if C: "is_scc (set edges) C" "2 \<le> card C" for C
  proof -
    obtain u v where u: "u \<in> C" "(u, v) \<in> set edges" using scc_edge_source [OF C] by auto
    then obtain c where c: "c \<in> set (components st)" "u \<in> set c" using assms all by blast
    then have "C = set c" using is_scc_eqI C(1) scc u(1) by blast
    then show ?thesis using c(1) C(2) distinct_card scc by fastforce
  qed
  then have "set ` set ?cs = {C. is_scc (set edges) C \<and> 2 \<le> card C}"
    using scc by (auto simp: distinct_card image_iff) (metis set_sort)
  ultimately show ?thesis using scc by auto
qed

section \<open>The check\<close>

lemma entity_index_bound: "entity_index s i = Some n \<Longrightarrow> n < length (sch_entities s)"
  unfolding entity_index_def by (drule map_of_SomeD) (auto simp: set_zip)

lemma reference_edges_bound:
  "(a, u, v) \<in> set (reference_edges s) \<Longrightarrow> u < length (sch_entities s) \<and> v < length (sch_entities s) \<and> u \<noteq> v"
  by (auto simp: reference_edges_def edges_of_def in_set_enumerate_eq
        dest: entity_index_bound entity_index_bound [OF sym] split: option.splits if_splits)

lemma all_edges_bound:
  "\<forall>(u, v) \<in> set (all_edges s). u < length (sch_entities s) \<and> v < length (sch_entities s)"
  "(u, v) \<in> set (all_edges s) \<Longrightarrow> u \<noteq> v"
  by (auto simp: all_edges_def dest: reference_edges_bound)

lemma required_edges_sub: "set (required_edges s) \<subseteq> set (all_edges s)"
  by (auto simp: required_edges_def all_edges_def)

lemma required_edges_bound:
  "\<forall>(u, v) \<in> set (required_edges s). u < length (sch_entities s) \<and> v < length (sch_entities s)"
  using all_edges_bound(1) required_edges_sub by blast

lemma mutual_scc:
  assumes "(u, v) \<in> E\<^sup>*" "(v, u) \<in> E\<^sup>*" "u \<noteq> v" "finite E"
  shows "\<exists>C. is_scc E C \<and> 2 \<le> card C \<and> u \<in> C"
proof -
  let ?C = "{w. (u, w) \<in> E\<^sup>* \<and> (w, u) \<in> E\<^sup>*}"
  have "?C \<subseteq> insert u (snd ` E)" by (auto elim: rtranclE simp: image_iff) (metis rtranclE snd_conv)
  then have "finite ?C" using assms(4) by (auto intro: finite_subset)
  moreover have "{u, v} \<subseteq> ?C" using assms by auto
  ultimately have "2 \<le> card ?C" using card_mono [of ?C "{u, v}"] assms(3) by auto
  moreover have "is_scc E ?C" by (auto simp: is_scc_def intro: rtrancl_trans)
  ultimately show ?thesis by (intro exI [of _ ?C]) auto
qed

lemma scc_two:
  assumes "is_scc E C" "2 \<le> card C"
  shows "\<exists>u v. u \<in> C \<and> v \<in> C \<and> u \<noteq> v \<and> (u, v) \<in> E\<^sup>* \<and> (v, u) \<in> E\<^sup>*"
proof -
  obtain u where u: "u \<in> C" using assms(1) by (auto simp: is_scc_def)
  have "C \<noteq> {u}" using assms(2) by auto
  then obtain v where "v \<in> C" "v \<noteq> u" using u by auto
  then show ?thesis using u assms(1) unfolding is_scc_def by blast
qed

text \<open>Without edges from a node to itself, a cycle is a component of two or more nodes.\<close>

lemma acyclic_iff_no_scc:
  assumes "finite E" and "\<And>u v. (u, v) \<in> E \<Longrightarrow> u \<noteq> v"
  shows "acyclic E \<longleftrightarrow> \<not> (\<exists>C. is_scc E C \<and> 2 \<le> card C)"
proof
  assume ac: "acyclic E"
  show "\<not> (\<exists>C. is_scc E C \<and> 2 \<le> card C)"
  proof
    assume "\<exists>C. is_scc E C \<and> 2 \<le> card C"
    then obtain u v where "u \<noteq> v" "(u, v) \<in> E\<^sup>*" "(v, u) \<in> E\<^sup>*" using scc_two by blast
    then have "(u, u) \<in> E\<^sup>+" by (metis rtranclD rtrancl_trancl_trancl)
    then show False using ac by (simp add: acyclic_def)
  qed
next
  assume none: "\<not> (\<exists>C. is_scc E C \<and> 2 \<le> card C)"
  show "acyclic E"
    unfolding acyclic_def
  proof (intro allI notI)
    fix u
    assume "(u, u) \<in> E\<^sup>+"
    then obtain v where "(u, v) \<in> E" "(v, u) \<in> E\<^sup>*" by (meson tranclD)
    then show False using mutual_scc [of u v E] assms none by blast
  qed
qed

lemma cycle_diagnostic_fields:
  "is_error (cycle_diagnostic s blocked c) \<longleftrightarrow> (\<exists>b \<in> set blocked. set b \<inter> set c \<noteq> {})"
  "element_ids (cycle_diagnostic s blocked c) = map (\<lambda>i. ent_id (sch_entities s ! i)) c"
  "diag_code (cycle_diagnostic s blocked c) = CIRCULAR_DEPENDENCY"
  by (auto simp: cycle_diagnostic_def Let_def list_ex_iff)

lemma fold_push: "diagnostics (fold (\<lambda>x. push (f x)) xs r) = diagnostics r @ map f xs"
  by (induction xs arbitrary: r) auto

text \<open>
  What the check reports: one diagnostic per cycle of tables, naming the tables of the cycle; it
  is an error when some cycle of NOT NULL foreign keys runs through one of them.
\<close>

lemma check_cycles_runs:
  obtains cycles blocked where
    "strongly_connected (length (sch_entities s)) (all_edges s) = Some cycles"
    "strongly_connected (length (sch_entities s)) (required_edges s) = Some blocked"
    "distinct cycles" "set ` set cycles = {C. is_scc (set (all_edges s)) C \<and> 2 \<le> card C}"
    "set ` set blocked = {C. is_scc (set (required_edges s)) C \<and> 2 \<le> card C}"
    "\<And>r. diagnostics (check_cycles s r) = diagnostics r @ map (cycle_diagnostic s blocked) cycles"
proof -
  obtain cycles where c: "strongly_connected (length (sch_entities s)) (all_edges s) = Some cycles"
    "distinct cycles" "set ` set cycles = {C. is_scc (set (all_edges s)) C \<and> 2 \<le> card C}"
    using strongly_connected_correct [OF all_edges_bound(1)] by blast
  obtain blocked where b: "strongly_connected (length (sch_entities s)) (required_edges s) = Some blocked"
    "set ` set blocked = {C. is_scc (set (required_edges s)) C \<and> 2 \<le> card C}"
    using strongly_connected_correct [OF required_edges_bound] by blast
  show thesis
    using that [OF c(1) b(1) c(2,3) b(2)] by (simp add: check_cycles_def c b fold_push)
qed

definition no_required_cycle :: "schema \<Rightarrow> bool" where
  "no_required_cycle s = acyclic (set (required_edges s))"

lemma blocked_in_cycle:
  assumes "is_scc (set (required_edges s)) B" "2 \<le> card B"
  shows "\<exists>C. is_scc (set (all_edges s)) C \<and> 2 \<le> card C \<and> B \<inter> C \<noteq> {}"
proof -
  obtain u v where "u \<in> B" "u \<noteq> v" "(u, v) \<in> (set (required_edges s))\<^sup>*" "(v, u) \<in> (set (required_edges s))\<^sup>*"
    using scc_two [OF assms] by blast
  then show ?thesis
    using mutual_scc [of u v "set (all_edges s)"] rtrancl_mono [OF required_edges_sub] by blast
qed

interpretation cycles: schema_check check_cycles no_required_cycle
proof
  fix s r
  obtain cs blocked where *: "set ` set cs = {C. is_scc (set (all_edges s)) C \<and> 2 \<le> card C}"
    "set ` set blocked = {C. is_scc (set (required_edges s)) C \<and> 2 \<le> card C}"
    "diagnostics (check_cycles s r) = diagnostics r @ map (cycle_diagnostic s blocked) cs"
    by (rule check_cycles_runs [of s]) blast
  show "\<exists>ds. diagnostics (check_cycles s r) = diagnostics r @ ds" using *(3) by blast
  have "(\<exists>c \<in> set cs. \<exists>b \<in> set blocked. set b \<inter> set c \<noteq> {}) \<longleftrightarrow> set blocked \<noteq> {}"
  proof
    assume "set blocked \<noteq> {}"
    then obtain b where b: "b \<in> set blocked" by (meson all_not_in_conv)
    then have "set b \<in> set ` set blocked" by simp
    then have "is_scc (set (required_edges s)) (set b) \<and> 2 \<le> card (set b)" using *(2) by blast
    then obtain C where "is_scc (set (all_edges s)) C" "2 \<le> card C" "set b \<inter> C \<noteq> {}"
      using blocked_in_cycle by blast
    moreover from this have "C \<in> set ` set cs" using *(1) by blast
    ultimately show "\<exists>c \<in> set cs. \<exists>b \<in> set blocked. set b \<inter> set c \<noteq> {}" using b by blast
  qed auto
  moreover have "set blocked = {} \<longleftrightarrow> no_required_cycle s"
  proof -
    have "set blocked = {} \<longleftrightarrow> \<not> (\<exists>C. is_scc (set (required_edges s)) C \<and> 2 \<le> card C)"
      unfolding image_is_empty [of set "set blocked", symmetric] *(2) by simp
    also have "\<dots> \<longleftrightarrow> no_required_cycle s"
      unfolding no_required_cycle_def using required_edges_sub [of s] all_edges_bound(2) [of _ _ s]
      by (subst acyclic_iff_no_scc) (simp, blast, simp)
    finally show ?thesis .
  qed
  ultimately show "is_valid (check_cycles s r) \<longleftrightarrow> is_valid r \<and> no_required_cycle s"
    by (simp add: is_valid_def *(3) list_ex_iff cycle_diagnostic_fields ball_Un) blast
qed

end
