(* ===== verification/Verifier.thy ===== *)
theory Verifier
  imports Cycles_Correct
begin

text \<open>
  \<open>SchemaVerifier::verify\<close> of \<^verbatim>\<open>module/schema/core/service/verifier/mod.rs\<close>: the ten checks of
  \<open>CHECKS\<close>, in order, on an empty report. The verifier finds a schema valid exactly when the
  schema is \<open>well_formed\<close>, a condition that mentions no check.
\<close>

definition CHECKS :: "(schema \<Rightarrow> report \<Rightarrow> report) list" where
  "CHECKS = [check_not_empty, check_names, check_type_parameters, check_relationship_ends,
     check_duplicate_names, check_primary_keys, check_foreign_keys, check_relationships,
     check_cycles, check_documentation]"

definition verify :: "schema \<Rightarrow> report" where
  "verify s = fold (\<lambda>check r. check s r) CHECKS report_default"

definition well_formed :: "schema \<Rightarrow> bool" where
  "well_formed s = (names_present s \<and> types_in_range s \<and> ends_resolve s \<and> all_names_distinct s \<and>
     keys_present s \<and> references_sound s \<and> relationships_backed s \<and> no_required_cycle s)"

lemmas checks_valid_iff = not_empty.valid_iff names.valid_iff type_parameters.valid_iff
  relationship_ends.valid_iff duplicate_names.valid_iff primary_keys.valid_iff
  foreign_keys.valid_iff relationships.valid_iff cycles.valid_iff documentation.valid_iff

lemma verify_valid_iff: "is_valid (verify s) \<longleftrightarrow> well_formed s"
  by (simp add: verify_def CHECKS_def checks_valid_iff well_formed_def)

end
