(* ===== verification/Generator.thy ===== *)
theory Generator
  imports Domain Float64
begin

text \<open>
  The PostgreSQL generator, \<^verbatim>\<open>module/schema/core/service/generator\<close>: identifiers and literals,
  \<^verbatim>\<open>layout.rs\<close>, \<^verbatim>\<open>comment.rs\<close>, \<^verbatim>\<open>constraint.rs\<close>, \<^verbatim>\<open>table.rs\<close> and
  \<open>PostgresGenerator::generate\<close>.
\<close>

section \<open>Names and literals (mod.rs, comment.rs, layout.rs)\<close>

definition quote :: "string \<Rightarrow> string" where
  "quote name = ''\"'' @ replace_char (CHR ''\"'') ''\"\"'' (trim name) @ ''\"''"

definition apostrophe :: char where "apostrophe = CHR 0x27"

definition literal :: "string \<Rightarrow> string" where
  "literal value = [apostrophe] @ replace_char apostrophe [apostrophe, apostrophe] (trim value) @ [apostrophe]"

definition newline :: char where "newline = CHR 0x0A"

definition layout_position :: "entity \<Rightarrow> string" where
  "layout_position e = ''-- @table '' @ quote (ent_name e) @ '' ''
     @ show_int (f64_round_as_i64 (pos_x (ent_position e))) @ '' ''
     @ show_int (f64_round_as_i64 (pos_y (ent_position e)))"

definition comments :: "schema \<Rightarrow> string list" where
  "comments s = concat (map (\<lambda>e.
     (if ent_is_documented e then
        [''COMMENT ON TABLE '' @ quote (ent_name e) @ '' IS '' @ literal (ent_description e) @ '';'']
      else []) @
     concat (map (\<lambda>a.
       if attr_is_documented a then
         [''COMMENT ON COLUMN '' @ quote (ent_name e) @ ''.'' @ quote (attr_name a) @ '' IS ''
           @ literal (attr_description a) @ '';'']
       else []) (ent_attributes e))) (sch_entities s))"

section \<open>Foreign keys (constraint.rs)\<close>

definition MAX_IDENTIFIER_BYTES :: nat where "MAX_IDENTIFIER_BYTES = 63"

text \<open>\<open>is_char_boundary\<close>: the byte offset at which some prefix of characters ends.\<close>

definition is_char_boundary :: "string \<Rightarrow> nat \<Rightarrow> bool" where
  "is_char_boundary s at = list_ex (\<lambda>n. bytes_len (take n s) = at) [0..<Suc (length s)]"

text \<open>\<open>String::truncate\<close> at a byte offset that is a boundary.\<close>

fun truncate_bytes :: "nat \<Rightarrow> string \<Rightarrow> string" where
  "truncate_bytes at [] = []"
| "truncate_bytes at (c # cs) = (if at < len_utf8 c then [] else c # truncate_bytes (at - len_utf8 c) cs)"

definition cut_identifier :: "string \<Rightarrow> string" where
  "cut_identifier name =
     (if bytes_len name > MAX_IDENTIFIER_BYTES then
        let stop = (case List.find (is_char_boundary name) (rev [0..<Suc MAX_IDENTIFIER_BYTES]) of
                      Some at \<Rightarrow> at | None \<Rightarrow> 0)
        in truncate_bytes stop name
      else name)"

definition constraint_name :: "string \<Rightarrow> string \<Rightarrow> string" where
  "constraint_name tab col = cut_identifier (''fk_'' @ trim tab @ ''_'' @ trim col)"

definition foreign_key_statement :: "entity \<Rightarrow> attribute \<Rightarrow> entity \<Rightarrow> attribute \<Rightarrow> string" where
  "foreign_key_statement e a target key =
     ''ALTER TABLE '' @ quote (ent_name e) @ [newline] @ ''    ADD CONSTRAINT ''
       @ quote (constraint_name (ent_name e) (attr_name a)) @ '' FOREIGN KEY ('' @ quote (attr_name a)
       @ '') REFERENCES '' @ quote (ent_name target) @ '' ('' @ quote (attr_name key) @ '');''"

definition gen_foreign_keys :: "schema \<Rightarrow> string list" where
  "gen_foreign_keys s = concat (map (\<lambda>e. concat (map (\<lambda>a.
     case attr_foreign_key a of
       None \<Rightarrow> []
     | Some ref \<Rightarrow>
         (case resolve s (fk_entity_id ref) (fk_attribute_id ref) of
            None \<Rightarrow> []
          | Some (target, key) \<Rightarrow> [foreign_key_statement e a target key]))
     (ent_attributes e))) (sch_entities s))"

section \<open>Tables (table.rs)\<close>

text \<open>\<open>to_uppercase\<close> on a rendered type: its letters are ASCII, so the ASCII mapping is the same.\<close>

definition gen_column :: "attribute \<Rightarrow> string" where
  "gen_column a =
     quote (attr_name a) @ '' '' @ to_ascii_uppercase (data_type_fmt (attr_data_type a))
       @ (if \<not> attr_nullable a then '' NOT NULL'' else '''')
       @ (case attr_default_value a of Some d \<Rightarrow> '' DEFAULT '' @ d | None \<Rightarrow> '''')
       @ (if attr_unique a \<and> \<not> attr_primary_key a then '' UNIQUE'' else '''')"

definition gen_primary_key :: "entity \<Rightarrow> string option" where
  "gen_primary_key e =
     (let key = primary_key e in
      if key = [] then None
      else Some (''PRIMARY KEY ('' @ join '', '' (map (\<lambda>a. quote (attr_name a)) key) @ '')''))"

definition create_table :: "entity \<Rightarrow> string" where
  "create_table e =
     (let lines = map gen_column (ent_attributes e)
            @ (case gen_primary_key e of Some c \<Rightarrow> [c] | None \<Rightarrow> []) in
      if lines = [] then ''CREATE TABLE '' @ quote (ent_name e) @ '' ();''
      else ''CREATE TABLE '' @ quote (ent_name e) @ '' ('' @ [newline] @ ''    ''
             @ join ('','' @ [newline] @ ''    '') lines @ [newline] @ '');'')"

section \<open>The script (mod.rs)\<close>

record generate_options =
  include_comments :: bool
  include_positions :: bool

definition gen_block :: "generate_options \<Rightarrow> entity \<Rightarrow> string" where
  "gen_block options e =
     (if include_positions options then layout_position e @ [newline] @ create_table e
      else create_table e)"

definition gen_blocks :: "schema \<Rightarrow> generate_options \<Rightarrow> string list" where
  "gen_blocks s options =
     map (gen_block options) (sch_entities s) @ gen_foreign_keys s
       @ (if include_comments options \<and> comments s \<noteq> [] then [join [newline] (comments s)] else [])"

definition generate :: "schema \<Rightarrow> generate_options \<Rightarrow> string" where
  "generate s options = join [newline, newline] (gen_blocks s options)"

section \<open>Facts\<close>

text \<open>A constraint's name fits the 63 bytes PostgreSQL keeps, and nothing that fits is lost.\<close>

lemma bytes_len_Cons [simp]: "bytes_len (c # s) = len_utf8 c + bytes_len s"
  by (simp add: bytes_len_def)

lemma bytes_len_append [simp]: "bytes_len (s @ t) = bytes_len s + bytes_len t"
  by (simp add: bytes_len_def)

lemma bytes_len_Nil [simp]: "bytes_len [] = 0"
  by (simp add: bytes_len_def)

lemma len_utf8_bounds: "1 \<le> len_utf8 c" "len_utf8 c \<le> 2"
  by (simp_all add: len_utf8_def)

lemma truncate_bytes_le: "bytes_len (truncate_bytes n s) \<le> n"
  by (induction n s rule: truncate_bytes.induct) auto

lemma truncate_bytes_prefix: "\<exists>t. s = truncate_bytes n s @ t"
  by (induction n s rule: truncate_bytes.induct) auto

lemma truncate_bytes_take: "bytes_len (take k s) = n \<Longrightarrow> truncate_bytes n s = take k s"
proof (induction n s arbitrary: k rule: truncate_bytes.induct)
  case (2 n c cs)
  show ?case
  proof (cases k)
    case 0
    then show ?thesis using 2(2) len_utf8_bounds(1) [of c] by auto
  next
    case (Suc j)
    then show ?thesis using 2 by auto
  qed
qed simp

lemma find_rev_upt:
  "List.find P (rev [0..<Suc m]) = Some k \<longleftrightarrow> k \<le> m \<and> P k \<and> (\<forall>j. k < j \<and> j \<le> m \<longrightarrow> \<not> P j)"
proof (induction m)
  case (Suc m)
  have "List.find P (rev [0..<Suc (Suc m)]) = (if P (Suc m) then Some (Suc m) else List.find P (rev [0..<Suc m]))"
    by simp
  then show ?case using Suc by (auto simp: le_Suc_eq)
qed auto

lemma char_boundary_take: "is_char_boundary s (bytes_len (take n s))"
proof -
  have "take n s = take (min n (length s)) s" by (simp add: min_def)
  moreover have "min n (length s) \<in> set [0..<Suc (length s)]" unfolding set_upt by auto
  ultimately show ?thesis unfolding is_char_boundary_def list_ex_iff by metis
qed

lemma cut_identifier_spec:
  "bytes_len (cut_identifier s) \<le> 63 \<and>
   (\<exists>t. s = cut_identifier s @ t \<and> (t \<noteq> [] \<longrightarrow> 63 < bytes_len (cut_identifier s @ [hd t])))"
proof (cases "bytes_len s > 63")
  case False
  then show ?thesis by (simp add: cut_identifier_def MAX_IDENTIFIER_BYTES_def)
next
  case True
  define k where "k = Max {k. k \<le> 63 \<and> is_char_boundary s k}"
  have fin: "finite {k. k \<le> 63 \<and> is_char_boundary s k}" by simp
  have "0 \<in> {k. k \<le> 63 \<and> is_char_boundary s k}"
    using char_boundary_take [of s 0] by simp
  then have "k \<in> {k. k \<le> 63 \<and> is_char_boundary s k}"
    unfolding k_def by (intro Max_in [OF fin]) blast
  then have k: "k \<le> 63" "is_char_boundary s k" by simp_all
  have max: "j \<le> k" if "j \<le> 63" "is_char_boundary s j" for j
    using Max_ge [OF fin, of j] that k_def by simp
  then have "List.find (is_char_boundary s) (rev [0..<Suc 63]) = Some k"
    using k by (subst find_rev_upt) (auto simp: leD)
  then have cut: "cut_identifier s = truncate_bytes k s"
    using True by (simp add: cut_identifier_def MAX_IDENTIFIER_BYTES_def)
  obtain n where n: "n \<le> length s" "bytes_len (take n s) = k"
    using k(2) unfolding is_char_boundary_def list_ex_iff set_upt by (metis atLeastLessThan_iff less_Suc_eq_le)
  have take: "cut_identifier s = take n s" using cut truncate_bytes_take [OF n(2)] by simp
  have "63 < bytes_len (take n s @ [hd (drop n s)])" if "drop n s \<noteq> []"
  proof (rule ccontr)
    assume small: "\<not> 63 < bytes_len (take n s @ [hd (drop n s)])"
    have "take n s @ [hd (drop n s)] = take (Suc n) s"
      using that by (simp add: take_Suc_conv_app_nth hd_drop_conv_nth)
    then have "bytes_len (take (Suc n) s) \<le> k"
      using small max char_boundary_take [of s "Suc n"] by (metis not_less)
    moreover have "k < bytes_len (take n s @ [hd (drop n s)])"
      using n(2) len_utf8_bounds(1) [of "hd (drop n s)"] by simp
    ultimately show False using \<open>take n s @ [hd (drop n s)] = take (Suc n) s\<close> by simp
  qed
  then show ?thesis using take n k(1) by (intro conjI exI [of _ "drop n s"]) auto
qed

end
