(* ===== verification/Sql_Scan.thy ===== *)
theory Sql_Scan
  imports Float64
begin

text \<open>
  The SQL scanner, \<^verbatim>\<open>module/schema/core/service/exchange/sql/scan.rs\<close>. \<open>Scanner\<close> is a record over
  the whole text and the position \<open>at\<close>; each method is a function on the record, and the loops
  inside a method run over the text that is left. \<open>run\<close> is total: every round of its loop moves
  \<open>at\<close> forward, which is its termination proof.
\<close>

section \<open>Tokens, statements and layout hints\<close>

datatype token = TWord string | TQuoted string | TText string | TNumber string | TPunct char

fun is_word :: "string \<Rightarrow> token \<Rightarrow> bool" where
  "is_word word (TWord found) = (found = word)"
| "is_word word _ = False"

fun is_punct :: "char \<Rightarrow> token \<Rightarrow> bool" where
  "is_punct punct (TPunct found) = (found = punct)"
| "is_punct punct _ = False"

fun token_name :: "token \<Rightarrow> string option" where
  "token_name (TWord word) = Some word"
| "token_name (TQuoted word) = Some word"
| "token_name _ = None"

record statement =
  st_tokens :: "token list"
  st_source :: string

record layout_hint =
  hint_table :: string
  hint_x :: f64
  hint_y :: f64
  above :: "nat option"

section \<open>Characters and comment lines\<close>

definition is_name_start :: "char \<Rightarrow> bool" where
  "is_name_start c = (is_alphabetic c \<or> c = CHR ''_'')"

definition is_name_char :: "char \<Rightarrow> bool" where
  "is_name_char c = (is_alphanumeric c \<or> c = CHR ''_'' \<or> c = CHR ''$'')"

fun split_quoted :: "string \<Rightarrow> (string \<times> string) option" where
  "split_quoted [] = None"
| "split_quoted (c # cs) =
     (if c \<noteq> CHR ''\"'' then map_option (\<lambda>(name, rest). (c # name, rest)) (split_quoted cs)
      else case cs of
        d # ds \<Rightarrow> if d = CHR ''\"'' then map_option (\<lambda>(name, rest). (CHR ''\"'' # name, rest)) (split_quoted ds)
                  else Some ([], cs)
      | [] \<Rightarrow> Some ([], cs))"

text \<open>\<open>str::split_whitespace\<close>.\<close>

function split_whitespace :: "string \<Rightarrow> string list" where
  "split_whitespace [] = []"
| "split_whitespace (c # cs) =
     (if is_whitespace c then split_whitespace cs
      else (c # takeWhile (\<lambda>x. \<not> is_whitespace x) cs)
             # split_whitespace (dropWhile (\<lambda>x. \<not> is_whitespace x) cs))"
  by pat_completeness auto

termination
  by (relation "measure length") (auto simp: le_imp_less_Suc length_dropWhile_le)

definition hint_name :: "string \<Rightarrow> (string \<times> string) option" where
  "hint_name rest =
     (case strip_prefix ''\"'' rest of
        Some quoted \<Rightarrow> split_quoted quoted
      | None \<Rightarrow> if list_ex is_whitespace rest
                then Some (takeWhile (\<lambda>c. \<not> is_whitespace c) rest, dropWhile (\<lambda>c. \<not> is_whitespace c) rest)
                else None)"

definition read_layout_hint :: "string \<Rightarrow> layout_hint option" where
  "read_layout_hint line =
     (case strip_prefix ''@table'' (trim (dropWhile (\<lambda>c. c = CHR ''-'') line)) of
        None \<Rightarrow> None
      | Some rest \<Rightarrow>
          (case hint_name (trim rest) of
             None \<Rightarrow> None
           | Some (table, numbers) \<Rightarrow>
               (case split_whitespace numbers of
                  x # y # _ \<Rightarrow>
                    (case (parse_f64 x, parse_f64 y) of
                       (Some px, Some py) \<Rightarrow>
                         Some \<lparr>hint_table = table, hint_x = px, hint_y = py, above = None\<rparr>
                     | _ \<Rightarrow> None)
                | _ \<Rightarrow> None)))"

section \<open>The scanner\<close>

record scanner =
  sc_chars :: string
  sc_at :: nat
  sc_statements :: "statement list"
  sc_hints :: "layout_hint list"
  sc_tokens :: "token list"
  started_at :: nat
  token_at :: nat

definition scanner_new :: "string \<Rightarrow> scanner" where
  "scanner_new source = \<lparr>sc_chars = source, sc_at = 0, sc_statements = [], sc_hints = [],
     sc_tokens = [], started_at = 0, token_at = 0\<rparr>"

text \<open>The text from the current position on.\<close>

definition remaining :: "scanner \<Rightarrow> string" where
  "remaining s = drop (sc_at s) (sc_chars s)"

definition advance :: "nat \<Rightarrow> scanner \<Rightarrow> scanner" where
  "advance n s = s\<lparr>sc_at := sc_at s + n\<rparr>"

definition push_token :: "token \<Rightarrow> scanner \<Rightarrow> scanner" where
  "push_token t s =
     (let s1 = (if sc_tokens s = [] then s\<lparr>started_at := token_at s\<rparr> else s)
      in s1\<lparr>sc_tokens := sc_tokens s1 @ [t]\<rparr>)"

definition slice :: "scanner \<Rightarrow> nat \<Rightarrow> nat \<Rightarrow> string" where
  "slice s a b = (let n = length (sc_chars s) in drop (min a n) (take (min b n) (sc_chars s)))"

definition finish :: "scanner \<Rightarrow> scanner" where
  "finish s =
     (if sc_tokens s = [] then s\<lparr>started_at := sc_at s\<rparr>
      else s\<lparr>sc_statements := sc_statements s
               @ [\<lparr>st_tokens = sc_tokens s, st_source = trim (slice s (started_at s) (sc_at s))\<rparr>],
             sc_tokens := [], started_at := sc_at s\<rparr>)"

definition looks_at :: "string \<Rightarrow> string \<Rightarrow> bool" where
  "looks_at prefix rest = (take (length prefix) rest = prefix)"

definition line_comment :: "scanner \<Rightarrow> scanner" where
  "line_comment s =
     (let text = takeWhile (\<lambda>c. c \<noteq> CHR 0x0A) (remaining s); s1 = advance (length text) s in
      case read_layout_hint text of
        None \<Rightarrow> s1
      | Some hint \<Rightarrow>
          s1\<lparr>sc_hints := sc_hints s1 @
               [if sc_tokens s1 = [] then hint\<lparr>above := Some (length (sc_statements s1))\<rparr> else hint]\<rparr>)"

text \<open>The number of characters a block comment takes; \<open>depth\<close> counts the open markers.\<close>

fun block_length :: "int \<Rightarrow> string \<Rightarrow> nat" where
  "block_length depth [] = 0"
| "block_length depth [c] = 1"
| "block_length depth (c # d # cs) =
     (if c = CHR ''/'' \<and> d = CHR ''*'' then 2 + block_length (depth + 1) cs
      else if c = CHR ''*'' \<and> d = CHR ''/'' then
        (if depth - 1 = 0 then 2 else 2 + block_length (depth - 1) cs)
      else 1 + block_length depth (d # cs))"

definition block_comment :: "scanner \<Rightarrow> scanner" where
  "block_comment s = advance (block_length 0 (remaining s)) s"

text \<open>The loop of \<open>quoted\<close>: the value read and the number of characters taken.\<close>

fun quoted_loop :: "char \<Rightarrow> string \<Rightarrow> string \<times> nat" where
  "quoted_loop q [] = ([], 0)"
| "quoted_loop q [c] = (if c = q then ([], 1) else ([c], 1))"
| "quoted_loop q (c # d # cs) =
     (if c = q then
        (if d = q then (let (v, n) = quoted_loop q cs in (q # v, n + 2)) else ([], 1))
      else (let (v, n) = quoted_loop q (d # cs) in (c # v, n + 1)))"

definition scan_quoted :: "char \<Rightarrow> (string \<Rightarrow> token) \<Rightarrow> scanner \<Rightarrow> scanner" where
  "scan_quoted q wrap s =
     (let (value, n) = quoted_loop q (drop 1 (remaining s))
      in push_token (wrap value) (advance (1 + n) s))"

fun dollar_tag_loop :: "string \<Rightarrow> string option" where
  "dollar_tag_loop [] = None"
| "dollar_tag_loop (c # cs) =
     (if c = CHR ''$'' then Some []
      else if is_name_char c then map_option (\<lambda>tag. c # tag) (dollar_tag_loop cs)
      else None)"

definition dollar_tag :: "scanner \<Rightarrow> string option" where
  "dollar_tag s = dollar_tag_loop (drop 1 (remaining s))"

fun until_delimiter :: "string \<Rightarrow> string \<Rightarrow> string" where
  "until_delimiter delimiter [] = []"
| "until_delimiter delimiter (c # cs) =
     (if looks_at delimiter (c # cs) then [] else c # until_delimiter delimiter cs)"

definition dollar_quoted :: "scanner \<Rightarrow> scanner" where
  "dollar_quoted s =
     (case dollar_tag s of
        None \<Rightarrow> s
      | Some tag \<Rightarrow>
          (let delimiter = ''$'' @ tag @ ''$'';
               s1 = advance (length delimiter) s;
               value = until_delimiter delimiter (remaining s1);
               s2 = advance (length value) s1
           in push_token (TText value)
                (s2\<lparr>sc_at := min (sc_at s2 + length delimiter) (length (sc_chars s2))\<rparr>)))"

definition scan_number :: "scanner \<Rightarrow> scanner" where
  "scan_number s =
     (let value = takeWhile (\<lambda>c. is_ascii_digit c \<or> c = CHR ''.'') (remaining s)
      in push_token (TNumber value) (advance (length value) s))"

definition scan_word :: "scanner \<Rightarrow> scanner" where
  "scan_word s =
     (let value = takeWhile is_name_char (remaining s)
      in push_token (TWord (to_lowercase value)) (advance (length value) s))"

text \<open>One round of the loop of \<open>run\<close>, at the character \<open>c\<close>.\<close>

definition scan_step :: "char \<Rightarrow> scanner \<Rightarrow> scanner" where
  "scan_step c s0 =
     (let s = s0\<lparr>token_at := sc_at s0\<rparr> in
      if c = CHR '';'' then finish (advance 1 s)
      else if c = CHR ''-'' \<and> looks_at ''--'' (remaining s) then line_comment s
      else if c = CHR ''/'' \<and> looks_at ''/*'' (remaining s) then block_comment s
      else if c = CHR 0x27 then scan_quoted (CHR 0x27) TText s
      else if c = CHR ''\"'' then scan_quoted (CHR ''\"'') TQuoted s
      else if c = CHR ''$'' \<and> dollar_tag s \<noteq> None then dollar_quoted s
      else if is_whitespace c then advance 1 s
      else if is_ascii_digit c then scan_number s
      else if is_name_start c then scan_word s
      else advance 1 (push_token (TPunct c) s))"

section \<open>Every round moves on\<close>

lemma push_token_fields [simp]:
  "sc_chars (push_token t s) = sc_chars s" "sc_at (push_token t s) = sc_at s"
  "sc_statements (push_token t s) = sc_statements s" "sc_hints (push_token t s) = sc_hints s"
  "sc_tokens (push_token t s) = sc_tokens s @ [t]"
  by (simp_all add: push_token_def Let_def)

lemma advance_fields [simp]:
  "sc_chars (advance n s) = sc_chars s" "sc_at (advance n s) = sc_at s + n"
  "sc_statements (advance n s) = sc_statements s" "sc_hints (advance n s) = sc_hints s"
  "sc_tokens (advance n s) = sc_tokens s"
  by (simp_all add: advance_def)

lemma finish_fields [simp]: "sc_chars (finish s) = sc_chars s" "sc_at (finish s) = sc_at s"
  by (simp_all add: finish_def)

lemma block_length_pos: "rest \<noteq> [] \<Longrightarrow> 0 < block_length d rest"
  by (cases "(d, rest)" rule: block_length.cases) auto

lemma is_name_start_char: "is_name_start c \<Longrightarrow> is_name_char c"
  by (auto simp: is_name_start_def is_name_char_def is_alphanumeric_def)

lemma scan_step_moves:
  assumes "sc_at s < length (sc_chars s)" and "c = sc_chars s ! sc_at s"
  shows "sc_chars (scan_step c s) = sc_chars s" and "sc_at s < sc_at (scan_step c s)"
proof -
  have rest: "remaining s = c # drop (Suc (sc_at s)) (sc_chars s)"
    using assms by (simp add: remaining_def Cons_nth_drop_Suc)
  have rest': "remaining (s\<lparr>token_at := i\<rparr>) = remaining s" for i by (simp add: remaining_def)
  show "sc_chars (scan_step c s) = sc_chars s"
    by (simp add: scan_step_def Let_def line_comment_def block_comment_def scan_quoted_def
        dollar_quoted_def scan_number_def scan_word_def split: option.splits prod.splits)
  have "0 < block_length 0 (remaining s)" using rest block_length_pos by simp
  then show "sc_at s < sc_at (scan_step c s)"
    using assms(1)
    by (auto simp: scan_step_def Let_def line_comment_def block_comment_def scan_quoted_def
        dollar_quoted_def scan_number_def scan_word_def rest' rest is_name_start_char
        split: option.splits prod.splits)
qed

function scan_run :: "scanner \<Rightarrow> statement list \<times> layout_hint list" where
  "scan_run s =
     (if sc_at s < length (sc_chars s) then scan_run (scan_step (sc_chars s ! sc_at s) s)
      else (let s1 = finish s in (sc_statements s1, sc_hints s1)))"
  by auto

termination
proof (relation "measure (\<lambda>s. length (sc_chars s) - sc_at s)")
  fix s :: scanner
  assume *: "sc_at s < length (sc_chars s)"
  then show "(scan_step (sc_chars s ! sc_at s) s, s) \<in> measure (\<lambda>s. length (sc_chars s) - sc_at s)"
    using scan_step_moves [OF * refl] by simp
qed simp

declare scan_run.simps [simp del]

definition scan :: "string \<Rightarrow> statement list \<times> layout_hint list" where
  "scan sql = scan_run (scanner_new sql)"

end
