(* ===== verification/Sql_Cursor.thy ===== *)
theory Sql_Cursor
  imports Sql_Scan Domain
begin

text \<open>
  The token cursor and the type aliases of the SQL reader,
  \<^verbatim>\<open>module/schema/core/service/exchange/sql/cursor.rs\<close> and \<^verbatim>\<open>types.rs\<close>. A cursor only ever moves
  forward, so it is the list of the tokens from its position on; an operation that moves it
  returns the cursor it leaves. The facts give the lengths the termination proofs of the reader
  need.
\<close>

type_synonym cursor = "token list"

definition cur_done :: "cursor \<Rightarrow> bool" where
  "cur_done c = (c = [])"

definition peek :: "cursor \<Rightarrow> token option" where
  "peek c = (case c of [] \<Rightarrow> None | t # _ \<Rightarrow> Some t)"

definition cur_next :: "cursor \<Rightarrow> token option \<times> cursor" where
  "cur_next c = (case c of [] \<Rightarrow> (None, []) | t # rest \<Rightarrow> (Some t, rest))"

definition at_word :: "string \<Rightarrow> cursor \<Rightarrow> bool" where
  "at_word word c = (case peek c of None \<Rightarrow> False | Some t \<Rightarrow> is_word word t)"

definition at_punct :: "char \<Rightarrow> cursor \<Rightarrow> bool" where
  "at_punct punct c = (case peek c of None \<Rightarrow> False | Some t \<Rightarrow> is_punct punct t)"

definition eat_word :: "string \<Rightarrow> cursor \<Rightarrow> bool \<times> cursor" where
  "eat_word word c = (if at_word word c then (True, tl c) else (False, c))"

fun starts_with_words :: "string list \<Rightarrow> cursor \<Rightarrow> bool" where
  "starts_with_words [] c = True"
| "starts_with_words (w # ws) [] = False"
| "starts_with_words (w # ws) (t # ts) = (is_word w t \<and> starts_with_words ws ts)"

definition eat_words :: "string list \<Rightarrow> cursor \<Rightarrow> bool \<times> cursor" where
  "eat_words words c =
     (if starts_with_words words c then (True, drop (length words) c) else (False, c))"

definition eat_punct :: "char \<Rightarrow> cursor \<Rightarrow> bool \<times> cursor" where
  "eat_punct punct c = (if at_punct punct c then (True, tl c) else (False, c))"

fun qualified_rest :: "string \<Rightarrow> cursor \<Rightarrow> string option \<times> cursor" where
  "qualified_rest name [] = (Some name, [])"
| "qualified_rest name (p # rest) =
     (if is_punct (CHR ''.'') p then
        (case rest of
           [] \<Rightarrow> (None, [])
         | t # rest' \<Rightarrow>
             (case token_name t of
                None \<Rightarrow> (None, rest')
              | Some part \<Rightarrow> qualified_rest (name @ ''.'' @ part) rest'))
      else (Some name, p # rest))"

definition qualified_name :: "cursor \<Rightarrow> string option \<times> cursor" where
  "qualified_name c =
     (case c of
        [] \<Rightarrow> (None, [])
      | t # rest \<Rightarrow> (case token_name t of None \<Rightarrow> (None, rest) | Some name \<Rightarrow> qualified_rest name rest))"

fun name_list_loop :: "cursor \<Rightarrow> string list option \<times> cursor" where
  "name_list_loop [] = (None, [])"
| "name_list_loop (t # rest) =
     (case token_name t of
        None \<Rightarrow> (None, rest)
      | Some name \<Rightarrow>
          (case rest of
             [] \<Rightarrow> (None, [])
           | p # rest' \<Rightarrow>
               if is_punct (CHR '','') p then
                 (let (names, c) = name_list_loop rest' in (map_option (\<lambda>ns. name # ns) names, c))
               else if is_punct (CHR '')'') p then (Some [name], rest')
               else (None, p # rest')))"

definition name_list :: "cursor \<Rightarrow> string list option \<times> cursor" where
  "name_list c = (let (found, c1) = eat_punct (CHR ''('') c in
     if \<not> found then (None, c1) else name_list_loop c1)"

fun is_stop :: "string list \<Rightarrow> token \<Rightarrow> bool" where
  "is_stop stop (TWord word) = (word \<in> set stop)"
| "is_stop stop _ = False"

fun take_until :: "nat \<Rightarrow> string list \<Rightarrow> cursor \<Rightarrow> token list \<times> cursor" where
  "take_until depth stop [] = ([], [])"
| "take_until depth stop (t # rest) =
     (if t = TPunct (CHR ''('') then
        (let (taken, c) = take_until (Suc depth) stop rest in (t # taken, c))
      else if t = TPunct (CHR '')'') \<and> depth = 0 then ([], t # rest)
      else if t = TPunct (CHR '')'') then
        (let (taken, c) = take_until (depth - 1) stop rest in (t # taken, c))
      else if t = TPunct (CHR '','') \<and> depth = 0 then ([], t # rest)
      else if depth = 0 \<and> is_stop stop t then ([], t # rest)
      else (let (taken, c) = take_until depth stop rest in (t # taken, c)))"

definition take_until_separator :: "string list \<Rightarrow> cursor \<Rightarrow> token list \<times> cursor" where
  "take_until_separator stop c = take_until 0 stop c"

fun skip_loop :: "nat \<Rightarrow> cursor \<Rightarrow> cursor" where
  "skip_loop depth [] = []"
| "skip_loop depth (t # rest) =
     (if is_punct (CHR ''('') t then skip_loop (Suc depth) rest
      else if is_punct (CHR '')'') t then
        (if depth - 1 = 0 then rest else skip_loop (depth - 1) rest)
      else skip_loop depth rest)"

definition skip_balanced :: "cursor \<Rightarrow> cursor" where
  "skip_balanced c = (let (found, c1) = eat_punct (CHR ''('') c in
     if \<not> found then c1 else skip_loop 1 c1)"

fun render_piece :: "token \<Rightarrow> string" where
  "render_piece (TWord word) = word"
| "render_piece (TQuoted name) = ''\"'' @ replace_char (CHR ''\"'') ''\"\"'' name @ ''\"''"
| "render_piece (TText text) = [CHR 0x27] @ replace_char (CHR 0x27) [CHR 0x27, CHR 0x27] text @ [CHR 0x27]"
| "render_piece (TNumber number) = number"
| "render_piece (TPunct punct) = [punct]"

definition render_step :: "string \<Rightarrow> token \<Rightarrow> string" where
  "render_step out t =
     (let piece = render_piece t;
          joined = (out \<noteq> [] \<and> piece \<notin> {'')'', '','', ''(''} \<and> last out \<noteq> CHR ''('')
      in out @ (if joined then '' '' else '''') @ piece)"

definition render :: "token list \<Rightarrow> string" where
  "render tokens = foldl render_step '''' tokens"

section \<open>Type names (types.rs)\<close>

definition kind_of :: "string \<Rightarrow> data_type_kind option" where
  "kind_of name =
     (if name = ''text'' then Some Text
      else if name = ''varchar'' \<or> name = ''character varying'' then Some Varchar
      else if name = ''char'' \<or> name = ''character'' \<or> name = ''bpchar'' then Some Char_kind
      else if name = ''smallint'' \<or> name = ''int2'' \<or> name = ''smallserial'' \<or> name = ''serial2'' then Some SmallInt
      else if name = ''int'' \<or> name = ''integer'' \<or> name = ''int4'' \<or> name = ''serial'' \<or> name = ''serial4'' then Some Integer
      else if name = ''bigint'' \<or> name = ''int8'' \<or> name = ''bigserial'' \<or> name = ''serial8'' then Some BigInt
      else if name = ''numeric'' \<or> name = ''decimal'' then Some Numeric
      else if name = ''real'' \<or> name = ''float4'' then Some Real
      else if name = ''double precision'' \<or> name = ''float8'' \<or> name = ''float'' then Some DoublePrecision
      else if name = ''boolean'' \<or> name = ''bool'' then Some Boolean
      else if name = ''date'' then Some Date
      else if name = ''time'' \<or> name = ''time without time zone'' then Some Time
      else if name = ''timestamp'' \<or> name = ''timestamp without time zone'' then Some Timestamp
      else if name = ''timestamptz'' \<or> name = ''timestamp with time zone'' then Some TimestampTz
      else if name = ''uuid'' then Some Uuid
      else if name = ''json'' then Some Json
      else if name = ''jsonb'' then Some Jsonb
      else if name = ''bytea'' then Some Bytea
      else None)"

definition is_serial :: "string \<Rightarrow> bool" where
  "is_serial name = (name \<in> {''smallserial'', ''serial2'', ''serial'', ''serial4'', ''bigserial'', ''serial8''})"

section \<open>Facts\<close>

lemma kind_of_as_str: "kind_of (kind_as_str k) = Some k" and not_serial: "\<not> is_serial (kind_as_str k)"
  by (cases k; simp add: kind_of_def is_serial_def)+

named_theorems cursor_length \<open>no operation of the cursor moves it backwards\<close>

lemma eat_word_length [cursor_length]: "length (snd (eat_word w c)) \<le> length c"
  by (simp add: eat_word_def)

lemma eat_words_length [cursor_length]: "length (snd (eat_words ws c)) \<le> length c"
  by (simp add: eat_words_def)

lemma eat_punct_length [cursor_length]: "length (snd (eat_punct p c)) \<le> length c"
  by (simp add: eat_punct_def)

lemma cur_next_length [cursor_length]: "length (snd (cur_next c)) \<le> length c"
  by (simp add: cur_next_def split: list.splits)

lemma qualified_rest_length: "length (snd (qualified_rest n c)) \<le> length c"
  by (induction n c rule: qualified_rest.induct) (auto simp: le_SucI split: list.splits option.splits)

lemma qualified_name_length [cursor_length]: "length (snd (qualified_name c)) \<le> length c"
  using qualified_rest_length by (auto simp: qualified_name_def le_SucI split: list.splits option.splits)

lemma name_list_loop_length: "length (snd (name_list_loop c)) \<le> length c"
  by (induction c rule: name_list_loop.induct) (auto simp: le_SucI split: list.splits option.splits prod.splits)

lemma name_list_length [cursor_length]: "length (snd (name_list c)) \<le> length c"
  using name_list_loop_length [of "snd (eat_punct (CHR ''('') c)"] eat_punct_length [of "CHR ''(''" c]
  by (auto simp: name_list_def split: prod.splits)

lemma take_until_length: "length (snd (take_until d stop c)) \<le> length c"
  by (induction d stop c rule: take_until.induct) (auto split: prod.splits simp: le_SucI)

lemma take_until_separator_length [cursor_length]:
  "length (snd (take_until_separator stop c)) \<le> length c"
  by (simp add: take_until_separator_def take_until_length)

lemma skip_loop_length: "length (skip_loop d c) \<le> length c"
  by (induction d c rule: skip_loop.induct) (auto simp: le_SucI)

lemma skip_balanced_length [cursor_length]: "length (skip_balanced c) \<le> length c"
  using skip_loop_length [of 1 "snd (eat_punct (CHR ''('') c)"] eat_punct_length [of "CHR ''(''" c]
  by (auto simp: skip_balanced_def split: prod.splits)

text \<open>What is taken and what is left make up the whole: no token is lost.\<close>

lemma take_until_append: "fst (take_until d stop c) @ snd (take_until d stop c) = c"
  by (induction d stop c rule: take_until.induct) (auto split: prod.splits)

end
