(* ===== verification/Sql_Table.thy ===== *)
theory Sql_Table
  imports Sql_Cursor
begin

text \<open>
  The reader of one \<open>CREATE TABLE\<close> statement,
  \<^verbatim>\<open>module/schema/core/service/exchange/sql/table.rs\<close>. A function that takes \<open>&mut Cursor\<close> and
  \<open>&mut ParsedTable\<close> returns the cursor and the table it leaves. The loops over constraints and
  over the items of a table are total functions: each round takes a token.
\<close>

record parsed_column =
  pc_name :: string
  pc_data_type :: data_type
  pc_nullable :: bool
  pc_primary_key :: bool
  pc_unique :: bool
  pc_default_value :: "string option"

record parsed_foreign_key =
  pfk_column :: string
  pfk_table :: string
  pfk_target :: "string option"

record parsed_table =
  pt_name :: string
  pt_columns :: "parsed_column list"
  pt_foreign_keys :: "parsed_foreign_key list"
  pt_skipped :: "string list"

definition AFTER_TYPE :: "string list" where
  "AFTER_TYPE = [''not'', ''null'', ''primary'', ''unique'', ''default'', ''references'', ''check'',
     ''constraint'', ''collate'', ''generated'']"

definition skip_note :: "string \<Rightarrow> parsed_table \<Rightarrow> parsed_table" where
  "skip_note note t = t\<lparr>pt_skipped := pt_skipped t @ [note]\<rparr>"

text \<open>\<open>find\<close> followed by a change of the column it found.\<close>

fun change_first :: "('a \<Rightarrow> bool) \<Rightarrow> ('a \<Rightarrow> 'a) \<Rightarrow> 'a list \<Rightarrow> 'a list" where
  "change_first p f [] = []"
| "change_first p f (x # xs) = (if p x then f x # xs else x # change_first p f xs)"

definition change_column :: "string \<Rightarrow> (parsed_column \<Rightarrow> parsed_column) \<Rightarrow> parsed_table \<Rightarrow> parsed_table" where
  "change_column name f t =
     t\<lparr>pt_columns := change_first (\<lambda>c. eq_ignore_ascii_case (pc_name c) name) f (pt_columns t)\<rparr>"

definition mark_primary :: "string list \<Rightarrow> parsed_table \<Rightarrow> parsed_table" where
  "mark_primary names t =
     fold (\<lambda>name. change_column name (\<lambda>c. c\<lparr>pc_primary_key := True, pc_nullable := False\<rparr>)) names t"

definition mark_unique :: "string \<Rightarrow> parsed_table \<Rightarrow> parsed_table" where
  "mark_unique name t = change_column name (\<lambda>c. c\<lparr>pc_unique := True\<rparr>) t"

section \<open>Columns\<close>

fun type_words :: "cursor \<Rightarrow> string list \<times> cursor" where
  "type_words (TWord word # rest) =
     (if word \<in> set AFTER_TYPE then ([], TWord word # rest)
      else (let (words, c) = type_words rest in (word # words, c)))"
| "type_words c = ([], c)"

definition type_name :: "cursor \<Rightarrow> string \<times> cursor" where
  "type_name c = (let (words, c1) = type_words c in (join '' '' words, c1))"

text \<open>The numbers between the parentheses; one that does not fit \<open>u32\<close> is passed over.\<close>

fun parameter_numbers :: "cursor \<Rightarrow> u32 list \<times> cursor" where
  "parameter_numbers (TNumber number # rest) =
     (let here = (case parse_u32 number of Some n \<Rightarrow> [n] | None \<Rightarrow> []) in
      case rest of
        p # rest' \<Rightarrow>
          if is_punct (CHR '','') p then
            (let (more, c) = parameter_numbers rest' in (here @ more, c))
          else (here, rest)
      | [] \<Rightarrow> (here, []))"
| "parameter_numbers c = ([], c)"

definition parameters :: "data_type_kind \<Rightarrow> cursor \<Rightarrow> (u32 option \<times> u32 option \<times> u32 option) \<times> cursor" where
  "parameters kind c =
     (let (opened, c1) = eat_punct (CHR ''('') c;
          (numbers, c2) = (if opened then
                 (let (ns, c') = parameter_numbers c1 in (ns, snd (eat_punct (CHR '')'') c')))
               else ([], c1));
          c3 = snd (type_words c2);
          first = (case numbers of [] \<Rightarrow> None | n # _ \<Rightarrow> Some n);
          second = (case numbers of _ # n # _ \<Rightarrow> Some n | _ \<Rightarrow> None)
      in if takes_length kind then ((first, None, None), c3)
         else if takes_precision kind then ((None, first, second), c3)
         else ((None, None, None), c3))"

lemma type_words_length [cursor_length]: "length (snd (type_words c)) \<le> length c"
  by (induction c rule: type_words.induct) (auto simp: le_SucI split: prod.splits)

lemma parameter_numbers_length [cursor_length]: "length (snd (parameter_numbers c)) \<le> length c"
  by (induction c rule: parameter_numbers.induct) (auto simp: le_SucI Let_def split: prod.splits list.splits)

lemma eat_words_shorter: "fst (eat_words ws c) \<Longrightarrow> ws \<noteq> [] \<Longrightarrow> length (snd (eat_words ws c)) < length c"
  by (cases ws; cases c) (auto simp: eat_words_def split: if_splits)

text \<open>
  The loop over the constraints of a column. Every round that goes on takes a token.
\<close>

function constraints :: "cursor \<Rightarrow> parsed_column \<Rightarrow> cursor \<times> parsed_column" where
  "constraints c col =
     (if cur_done c \<or> at_punct (CHR '','') c \<or> at_punct (CHR '')'') c then (c, col)
      else if fst (eat_words [''not'', ''null''] c) then
        constraints (snd (eat_words [''not'', ''null''] c)) (col\<lparr>pc_nullable := False\<rparr>)
      else if fst (eat_words [''primary'', ''key''] c) then
        constraints (snd (eat_words [''primary'', ''key''] c))
          (col\<lparr>pc_primary_key := True, pc_nullable := False\<rparr>)
      else if at_word ''unique'' c then constraints (tl c) (col\<lparr>pc_unique := True\<rparr>)
      else if at_word ''null'' c then constraints (tl c) (col\<lparr>pc_nullable := True\<rparr>)
      else if at_word ''default'' c then
        (let (expression, c1) = take_until_separator AFTER_TYPE (tl c) in
         constraints c1
           (if expression \<noteq> [] then col\<lparr>pc_default_value := Some (render expression)\<rparr> else col))
      else if at_word ''constraint'' c then constraints (tl (tl c)) col
      else if at_word ''check'' c then constraints (skip_balanced (tl c)) col
      else if at_word ''references'' c then (c, col)
      else constraints (tl c) col)"
  by auto

termination
proof (relation "measure (\<lambda>(c, col). length c)", goal_cases)
  case (6 c col x xa y)
  have "tl c \<noteq> [] \<or> c \<noteq> []" using 6 by (simp add: cur_done_def)
  then have "length (tl c) < length c" using 6(1) by (simp add: cur_done_def)
  moreover have "length y \<le> length (tl c)"
    using take_until_separator_length [of AFTER_TYPE "tl c"] 6 by (metis snd_conv)
  ultimately show ?case by simp
next
  case (8 c col)
  have "length (tl c) < length c" using 8(1) by (simp add: cur_done_def)
  then show ?case using skip_balanced_length [of "tl c"] by simp
qed (auto simp: cur_done_def eat_words_shorter simp del: fst_conv)

declare constraints.simps [simp del]

definition column :: "cursor \<Rightarrow> (string + parsed_column) \<times> cursor" where
  "column c =
     (case peek c of
        None \<Rightarrow> (Inl '''', c)
      | Some t \<Rightarrow>
         (case token_name t of
            None \<Rightarrow> (Inl '''', c)
          | Some name \<Rightarrow>
             (let (tname, c1) = type_name (tl c) in
              case kind_of tname of
                None \<Rightarrow> (Inl (if tname = '''' then name else name @ '' '' @ tname), c1)
              | Some kind \<Rightarrow>
                 (let ((len, prec, scl), c2) = parameters kind c1;
                      parsed = \<lparr>pc_name = name,
                        pc_data_type = \<lparr>dt_kind = kind, dt_length = len, dt_precision = prec, dt_scale = scl\<rparr>,
                        pc_nullable = \<not> is_serial tname, pc_primary_key = False, pc_unique = False,
                        pc_default_value = None\<rparr>;
                      (c3, parsed') = constraints c2 parsed
                  in (Inr parsed', c3)))))"

definition first_name :: "string list option \<Rightarrow> string option" where
  "first_name names = (case names of Some (n # _) \<Rightarrow> Some n | _ \<Rightarrow> None)"

definition inline_reference :: "cursor \<Rightarrow> string \<Rightarrow> parsed_table \<Rightarrow> bool \<times> cursor \<times> parsed_table" where
  "inline_reference c col t =
     (if \<not> at_word ''references'' c then (False, c, t)
      else case qualified_name (tl c) of
        (None, c1) \<Rightarrow> (True, c1, skip_note ''a reference with no target'' t)
      | (Some target_table, c1) \<Rightarrow>
          (let (targets, c2) = name_list c1 in
           (True, c2, t\<lparr>pt_foreign_keys := pt_foreign_keys t @
              [\<lparr>pfk_column = col, pfk_table = target_table, pfk_target = first_name targets\<rparr>]\<rparr>)))"

definition read_foreign_key :: "cursor \<Rightarrow> parsed_table \<Rightarrow> cursor \<times> parsed_table" where
  "read_foreign_key c t =
     (case name_list c of
        (None, c1) \<Rightarrow> (c1, skip_note ''a foreign key it could not read'' t)
      | (Some columns, c1) \<Rightarrow>
         (if \<not> at_word ''references'' c1 then (c1, skip_note ''a foreign key with no target'' t)
          else case qualified_name (tl c1) of
            (None, c2) \<Rightarrow> (c2, skip_note ''a foreign key with no target'' t)
          | (Some target_table, c2) \<Rightarrow>
             (let (targets, c3) = name_list c2 in
              if length columns \<noteq> 1 then (c3, skip_note ''a foreign key across several columns'' t)
              else (snd (take_until_separator [] c3),
                    t\<lparr>pt_foreign_keys := pt_foreign_keys t @
                      [\<lparr>pfk_column = hd columns, pfk_table = target_table,
                        pfk_target = first_name targets\<rparr>]\<rparr>))))"

section \<open>Items and tables\<close>

definition column_item :: "cursor \<Rightarrow> parsed_table \<Rightarrow> cursor \<times> parsed_table" where
  "column_item c t =
     (case column c of
        (Inr parsed, c1) \<Rightarrow>
          (let (referenced, c2, t1) = inline_reference c1 (pc_name parsed) t;
               (c3, parsed') = (if referenced then constraints c2 parsed else (c2, parsed))
           in (c3, t1\<lparr>pt_columns := pt_columns t1 @ [parsed']\<rparr>))
      | (Inl name, c1) \<Rightarrow>
          (let (rest, c2) = take_until_separator [] c1; written = render rest in
           (c2, skip_note (if written = '''' then ''the column `'' @ name @ ''`''
                           else ''the column `'' @ name @ '' '' @ written @ ''`'') t)))"

text \<open>\<open>item\<close> once a leading \<open>CONSTRAINT name\<close> has been taken; \<open>named\<close> says whether there was one.\<close>

definition item_body :: "bool \<Rightarrow> cursor \<Rightarrow> parsed_table \<Rightarrow> cursor \<times> parsed_table" where
  "item_body named c t =
     (if fst (eat_words [''primary'', ''key''] c) then
           (case name_list (snd (eat_words [''primary'', ''key''] c)) of
              (Some names, c1) \<Rightarrow> (c1, mark_primary names t)
            | (None, c1) \<Rightarrow> (c1, skip_note ''a primary key it could not read'' t))
         else if fst (eat_words [''foreign'', ''key''] c) then
           read_foreign_key (snd (eat_words [''foreign'', ''key''] c)) t
         else if at_word ''unique'' c then
           (case name_list (tl c) of
              (Some [name], c1) \<Rightarrow> (c1, mark_unique name t)
            | (_, c1) \<Rightarrow> (c1, skip_note ''a unique constraint across several columns'' t))
         else if at_word ''check'' c \<or> at_word ''exclude'' c then
           (skip_balanced (tl c), skip_note ''a check constraint'' t)
         else if named then
           (let (rest, c1) = take_until_separator [] c in
            (c1, skip_note (''the constraint `'' @ render rest @ ''`'') t))
         else column_item c t)"

definition item :: "cursor \<Rightarrow> parsed_table \<Rightarrow> cursor \<times> parsed_table" where
  "item c t = (let named = at_word ''constraint'' c in item_body named (if named then tl (tl c) else c) t)"

lemma type_name_length [cursor_length]: "length (snd (type_name c)) \<le> length c"
  using type_words_length [of c] by (simp add: type_name_def case_prod_beta)

lemma parameters_length [cursor_length]: "length (snd (parameters k c)) \<le> length c"
proof -
  let ?c1 = "snd (eat_punct (CHR ''('') c)"
  define c2 where "c2 = (if fst (eat_punct (CHR ''('') c)
    then snd (eat_punct (CHR '')'') (snd (parameter_numbers ?c1))) else ?c1)"
  have "length c2 \<le> length ?c1"
    using order_trans [OF eat_punct_length parameter_numbers_length] by (simp add: c2_def)
  also have "\<dots> \<le> length c" by (rule eat_punct_length)
  finally have "length (snd (type_words c2)) \<le> length c" using type_words_length order_trans by blast
  moreover have "snd (parameters k c) = snd (type_words c2)"
    by (simp add: parameters_def Let_def case_prod_beta c2_def)
  ultimately show ?thesis by simp
qed

lemma length_fst_if:
  "(b \<Longrightarrow> length (fst x) \<le> n) \<Longrightarrow> (\<not> b \<Longrightarrow> length (fst y) \<le> n) \<Longrightarrow> length (fst (if b then x else y)) \<le> n"
  by simp

lemma tl_length: "length c' \<le> length (tl c) \<Longrightarrow> length c' \<le> length c"
  by simp

lemma constraints_length [cursor_length]: "length (fst (constraints c col)) \<le> length c"
proof (induction c col rule: constraints.induct)
  case (1 c col)
  show ?case
  proof (subst constraints.simps, intro length_fst_if)
    show "length (fst (let (expression, c1) = take_until_separator AFTER_TYPE (tl c) in
         constraints c1 (if expression \<noteq> [] then col\<lparr>pc_default_value := Some (render expression)\<rparr> else col)))
       \<le> length c"
      if "\<not> (cur_done c \<or> at_punct (CHR '','') c \<or> at_punct (CHR '')'') c)"
        "\<not> fst (eat_words [''not'', ''null''] c)" "\<not> fst (eat_words [''primary'', ''key''] c)"
        "\<not> at_word ''unique'' c" "\<not> at_word ''null'' c" "at_word ''default'' c"
      using 1(5) [OF that refl prod.collapse] take_until_separator_length [of AFTER_TYPE "tl c"]
      by (simp add: case_prod_beta Let_def)
  qed ((simp; fail) | (rule 1 [THEN order_trans], assumption+,
      simp add: eat_words_length skip_balanced_length [THEN tl_length] del: length_tl; fail)
    | (rule 1 [THEN order_trans], assumption+, simp))+
qed
lemma column_length: "length (snd (column c)) \<le> length c"
proof -
  have *: "length (fst (constraints (snd (parameters k (snd (type_name (tl c))))) p)) \<le> length c" for k p
    using constraints_length [of "snd (parameters k (snd (type_name (tl c))))" p]
      parameters_length [of k "snd (type_name (tl c))"] type_name_length [of "tl c"] by simp
  show ?thesis
    using * type_name_length [THEN tl_length, of c]
    by (auto simp add: column_def Let_def case_prod_beta split: option.split)
qed

lemma inline_reference_length: "length (fst (snd (inline_reference c n t))) \<le> length c"
  using qualified_name_length [of "tl c"] name_list_length [of "snd (qualified_name (tl c))"]
  by (cases "qualified_name (tl c)") (auto simp add: inline_reference_def case_prod_beta split: option.split)

lemma read_foreign_key_length: "length (fst (read_foreign_key c t)) \<le> length c"
proof -
  obtain cols c1 where 1: "name_list c = (cols, c1)" by fastforce
  obtain q c2 where 2: "qualified_name (tl c1) = (q, c2)" by fastforce
  obtain ts c3 where 3: "name_list c2 = (ts, c3)" by fastforce
  have "length c1 \<le> length c" "length c2 \<le> length (tl c1)" "length c3 \<le> length c2"
    using name_list_length [of c] qualified_name_length [of "tl c1"] name_list_length [of c2] 1 2 3 by simp_all
  then show ?thesis
    using take_until_separator_length [of "[]" c3]
    by (auto simp add: read_foreign_key_def 1 2 3 split: option.split)
qed

lemma column_item_length: "length (fst (column_item c t)) \<le> length c"
proof (cases "column c")
  case (Pair r c1)
  then have c1: "length c1 \<le> length c" using column_length [of c] by simp
  show ?thesis
  proof (cases r)
    case (Inl name)
    then show ?thesis
      using c1 Pair take_until_separator_length [of "[]" c1] by (simp add: column_item_def case_prod_beta Let_def)
  next
    case (Inr parsed)
    obtain b c2 t1 where ir: "inline_reference c1 (pc_name parsed) t = (b, c2, t1)" by (cases "inline_reference c1 (pc_name parsed) t") auto
    then have "length c2 \<le> length c" using c1 inline_reference_length [of c1 "pc_name parsed" t] by simp
    then show ?thesis
      using Pair Inr ir constraints_length [of c2 parsed] by (simp add: column_item_def case_prod_beta)
  qed
qed

lemma item_body_length: "length (fst (item_body named c t)) \<le> length c"
proof -
  let ?pk = "snd (eat_words [''primary'', ''key''] c)" and ?fk = "snd (eat_words [''foreign'', ''key''] c)"
  have "length (snd (name_list ?pk)) \<le> length c" "length (fst (read_foreign_key ?fk t)) \<le> length c"
    "length (snd (name_list (tl c))) \<le> length c" "length (skip_balanced (tl c)) \<le> length c"
    "length (snd (take_until_separator [] c)) \<le> length c" "length (fst (column_item c t)) \<le> length c"
    using name_list_length [of ?pk] eat_words_length [of _ c] read_foreign_key_length [of ?fk t] order_trans
      name_list_length [of "tl c"] skip_balanced_length [of "tl c"] take_until_separator_length column_item_length
      tl_length by blast+
  then show ?thesis
    by (cases "name_list ?pk"; cases "name_list (tl c)")
      (auto simp add: item_body_def Let_def case_prod_beta split: option.split list.split)
qed

lemma item_length: "length (fst (item c t)) \<le> length c"
  using item_body_length [of True "tl (tl c)" t] item_body_length [of False c t]
  by (auto simp: item_def Let_def)

function items :: "cursor \<Rightarrow> parsed_table \<Rightarrow> parsed_table" where
  "items c t =
     (if cur_done c \<or> at_punct (CHR '')'') c then t
      else let (c1, t1) = item c t in
           if at_punct (CHR '','') c1 then items (tl c1) t1 else t1)"
  by auto

termination
proof (relation "measure (\<lambda>(c, t). length c)", goal_cases)
  case (2 c t x c1 t1)
  have "c1 \<noteq> []" using 2(4) by (auto simp: at_punct_def peek_def)
  moreover have "length c1 \<le> length c" using item_length [of c t] 2(2,3) by (metis fst_conv)
  ultimately have "length (tl c1) < length c" by (cases c1) auto
  then show ?case by simp
qed simp

declare items.simps [simp del]

fun skip_to_table :: "cursor \<Rightarrow> cursor" where
  "skip_to_table [] = []"
| "skip_to_table (t # rest) = (if is_word ''table'' t then t # rest else skip_to_table rest)"

definition parse_table :: "token list \<Rightarrow> parsed_table option" where
  "parse_table tokens =
     (if \<not> at_word ''create'' tokens then None
      else let c1 = skip_to_table (tl tokens) in
        if \<not> at_word ''table'' c1 then None
        else case qualified_name (snd (eat_words [''if'', ''not'', ''exists''] (tl c1))) of
          (None, _) \<Rightarrow> None
        | (Some name, c2) \<Rightarrow>
            (let t = \<lparr>pt_name = name, pt_columns = [], pt_foreign_keys = [], pt_skipped = []\<rparr> in
             if \<not> at_punct (CHR ''('') c2 then Some t else Some (items (tl c2) t)))"

end
