(* ===== verification/Errdef.thy ===== *)
theory Errdef
  imports SF_Prelude
begin

text \<open>
  \<^verbatim>\<open>package/errdef.rs\<close> and the envelope of \<^verbatim>\<open>package/response.rs\<close>: the one error type every
  component returns, its constructors, and how it leaves the process, as an HTTP response and as
  a gRPC status. An \<open>i32\<close> code is an \<open>int\<close>: codes are constants and no arithmetic is done on
  them. A \<open>BTreeMap\<close> of violations is an association list sorted by key.
\<close>

section \<open>Codes\<close>

abbreviation VALIDATION_FAILED :: int where "VALIDATION_FAILED \<equiv> 1000"
abbreviation NOT_FOUND :: int where "NOT_FOUND \<equiv> 1001"
abbreviation UNAUTHORIZED :: int where "UNAUTHORIZED \<equiv> 1002"
abbreviation BAD_REQUEST :: int where "BAD_REQUEST \<equiv> 1003"
abbreviation RESOURCE_CONFLICT :: int where "RESOURCE_CONFLICT \<equiv> 1004"
abbreviation UNPROCESSABLE :: int where "UNPROCESSABLE \<equiv> 1005"
abbreviation FORBIDDEN :: int where "FORBIDDEN \<equiv> 1006"
abbreviation UNIMPLEMENTED :: int where "UNIMPLEMENTED \<equiv> 1007"
abbreviation UNAVAILABLE :: int where "UNAVAILABLE \<equiv> 1008"
abbreviation UNKNOWN :: int where "UNKNOWN \<equiv> 2000"

datatype grpc_code = Code_NotFound | Code_Unauthenticated | Code_InvalidArgument
  | Code_AlreadyExists | Code_PermissionDenied | Code_Unimplemented | Code_Unavailable | Code_Internal

definition transport_code_for :: "int \<Rightarrow> grpc_code" where
  "transport_code_for code =
     (if code = NOT_FOUND then Code_NotFound
      else if code = UNAUTHORIZED then Code_Unauthenticated
      else if code = BAD_REQUEST then Code_InvalidArgument
      else if code = RESOURCE_CONFLICT then Code_AlreadyExists
      else if code = UNPROCESSABLE \<or> code = VALIDATION_FAILED then Code_InvalidArgument
      else if code = FORBIDDEN then Code_PermissionDenied
      else if code = UNIMPLEMENTED then Code_Unimplemented
      else if code = UNAVAILABLE then Code_Unavailable
      else if code = UNKNOWN then Code_Internal
      else Code_InvalidArgument)"

text \<open>An HTTP status is the number it stands for.\<close>

definition status_for :: "int \<Rightarrow> nat" where
  "status_for code =
     (if code = NOT_FOUND then 404
      else if code = UNAUTHORIZED then 401
      else if code = BAD_REQUEST then 400
      else if code = RESOURCE_CONFLICT then 409
      else if code = UNPROCESSABLE then 422
      else if code = FORBIDDEN then 403
      else if code = UNIMPLEMENTED then 501
      else if code = UNAVAILABLE then 503
      else if code = UNKNOWN then 500
      else 400)"

section \<open>The error type\<close>

record app_error =
  app_err_code :: int
  app_err_message :: string
  app_err_cause :: "string option"

type_synonym violations = "(string \<times> string list) list"

record validation_error =
  val_err_message :: string
  field_violations :: violations

datatype sf_error = App app_error | Validation validation_error

definition error_new :: "int \<Rightarrow> string \<Rightarrow> sf_error" where
  "error_new code message =
     App \<lparr>app_err_code = code, app_err_message = message, app_err_cause = None\<rparr>"

definition not_found :: "string \<Rightarrow> sf_error" where "not_found = error_new NOT_FOUND"
definition unauthorized :: "string \<Rightarrow> sf_error" where "unauthorized = error_new UNAUTHORIZED"
definition bad_request :: "string \<Rightarrow> sf_error" where "bad_request = error_new BAD_REQUEST"
definition conflict :: "string \<Rightarrow> sf_error" where "conflict = error_new RESOURCE_CONFLICT"
definition unprocessable :: "string \<Rightarrow> sf_error" where "unprocessable = error_new UNPROCESSABLE"
definition forbidden :: "string \<Rightarrow> sf_error" where "forbidden = error_new FORBIDDEN"
definition unimplemented :: "string \<Rightarrow> sf_error" where "unimplemented = error_new UNIMPLEMENTED"
definition unavailable :: "string \<Rightarrow> sf_error" where "unavailable = error_new UNAVAILABLE"

definition unknown :: "string \<Rightarrow> sf_error" where
  "unknown cause = App \<lparr>app_err_code = UNKNOWN, app_err_message = ''internal server error'',
     app_err_cause = Some cause\<rparr>"

definition validation :: "string \<Rightarrow> sf_error" where
  "validation message = Validation \<lparr>val_err_message = message, field_violations = []\<rparr>"

fun with_cause :: "string \<Rightarrow> sf_error \<Rightarrow> sf_error" where
  "with_cause cause (App err) = App (err\<lparr>app_err_cause := Some cause\<rparr>)"
| "with_cause cause (Validation err) = Validation err"

text \<open>\<open>entry(field).or_default().push(message)\<close> on the sorted map.\<close>

fun push_entry :: "string \<Rightarrow> string \<Rightarrow> violations \<Rightarrow> violations" where
  "push_entry field message [] = [(field, [message])]"
| "push_entry field message ((k, ms) # rest) =
     (if field = k then (k, ms @ [message]) # rest
      else if field < k then (field, [message]) # (k, ms) # rest
      else (k, ms) # push_entry field message rest)"

fun push_violation :: "string \<Rightarrow> string \<Rightarrow> sf_error \<Rightarrow> sf_error" where
  "push_violation field message (Validation err) =
     Validation (err\<lparr>field_violations := push_entry field message (field_violations err)\<rparr>)"
| "push_violation field message (App err) = App err"

definition add_violation :: "string \<Rightarrow> string \<Rightarrow> sf_error \<Rightarrow> sf_error" where
  "add_violation field message e = push_violation field message e"

fun has_violations :: "sf_error \<Rightarrow> bool" where
  "has_violations (Validation err) = (field_violations err \<noteq> [])"
| "has_violations (App _) = False"

fun app_code :: "sf_error \<Rightarrow> int" where
  "app_code (App err) = app_err_code err"
| "app_code (Validation _) = VALIDATION_FAILED"

fun error_fmt :: "sf_error \<Rightarrow> string" where
  "error_fmt (App err) =
     (case app_err_cause err of
        Some cause \<Rightarrow> ''code '' @ show_int (app_err_code err) @ '': '' @ app_err_message err
          @ '' (cause: '' @ cause @ '')''
      | None \<Rightarrow> ''code '' @ show_int (app_err_code err) @ '': '' @ app_err_message err)"
| "error_fmt (Validation err) = ''code '' @ show_int VALIDATION_FAILED @ '': '' @ val_err_message err"

section \<open>How an error leaves the process\<close>

datatype log_level = Log_error | Log_info

text \<open>The line \<open>log\<close> writes: its level, the status it names and the rendered error.\<close>

definition error_log :: "sf_error \<Rightarrow> log_level \<times> nat \<times> string" where
  "error_log e = (let status = status_for (app_code e) in
     (if 500 \<le> status \<and> status < 600 then Log_error else Log_info, status, error_fmt e))"

record http_error =
  http_status :: nat
  body_code :: int
  body_message :: string
  body_errors :: "violations option"

fun into_response :: "sf_error \<Rightarrow> http_error" where
  "into_response (Validation err) =
     \<lparr>http_status = 422, body_code = 422, body_message = val_err_message err,
      body_errors = Some (field_violations err)\<rparr>"
| "into_response (App err) =
     (let status = status_for (app_err_code err) in
      \<lparr>http_status = status, body_code = int status, body_message = app_err_message err,
       body_errors = None\<rparr>)"

record grpc_status =
  grpc_status_code :: grpc_code
  grpc_message :: string
  grpc_metadata :: "(string \<times> string) list"

text \<open>
  \<open>Status::from\<close>. The parameter \<open>to_json\<close> stands for \<open>serde_json::to_string\<close> on the violations and
  \<open>header\<close> for tonic's parser of metadata values; each may refuse, and then the entry is left out.
\<close>

definition status_from ::
  "(violations \<Rightarrow> string option) \<Rightarrow> (string \<Rightarrow> string option) \<Rightarrow> sf_error \<Rightarrow> grpc_status" where
  "status_from to_json header e =
     (let st = (case e of
          Validation err \<Rightarrow>
            \<lparr>grpc_status_code = transport_code_for VALIDATION_FAILED,
             grpc_message = val_err_message err,
             grpc_metadata = (case to_json (field_violations err) of
                 None \<Rightarrow> []
               | Some text \<Rightarrow> (case header text of
                     None \<Rightarrow> []
                   | Some value \<Rightarrow> [(''x-validation-violations'', value)]))\<rparr>
        | App err \<Rightarrow>
            \<lparr>grpc_status_code = transport_code_for (app_err_code err),
             grpc_message = app_err_message err, grpc_metadata = []\<rparr>)
      in case header (show_int (app_code e)) of
           None \<Rightarrow> st
         | Some value \<Rightarrow> st\<lparr>grpc_metadata := grpc_metadata st @ [(''x-app-code'', value)]\<rparr>)"

section \<open>Facts\<close>

lemmas error_constructors = error_new_def not_found_def unauthorized_def bad_request_def
  conflict_def unprocessable_def forbidden_def unimplemented_def unavailable_def unknown_def
  validation_def

lemma app_code_constructors [simp]:
  "app_code (not_found m) = NOT_FOUND" "app_code (unauthorized m) = UNAUTHORIZED"
  "app_code (bad_request m) = BAD_REQUEST" "app_code (conflict m) = RESOURCE_CONFLICT"
  "app_code (unprocessable m) = UNPROCESSABLE" "app_code (forbidden m) = FORBIDDEN"
  "app_code (unimplemented m) = UNIMPLEMENTED" "app_code (unavailable m) = UNAVAILABLE"
  "app_code (unknown m) = UNKNOWN" "app_code (validation m) = VALIDATION_FAILED"
  by (simp_all add: error_constructors)

lemma app_code_add_violation [simp]: "app_code (add_violation f m e) = app_code e"
  by (cases e) (simp_all add: add_violation_def)

text \<open>The map of violations stays a map, and a violation is added to its own field only.\<close>

lemma push_entry_keys: "set (map fst (push_entry f m vs)) = insert f (set (map fst vs))"
  by (induction f m vs rule: push_entry.induct) auto

lemma push_entry_sorted:
  "sorted_wrt (<) (map fst vs) \<Longrightarrow> sorted_wrt (<) (map fst (push_entry f m vs))"
proof (induction f m vs rule: push_entry.induct)
  case (2 f m k ms rest)
  have "fst ` set (push_entry f m rest) = insert f (fst ` set rest)"
    using push_entry_keys [of f m rest] by simp
  then show ?case using 2 by (auto dest: order.strict_trans)
qed simp

lemma push_entry_lookup:
  "map_of (push_entry f m vs) g =
     (if g = f then Some (case map_of vs f of None \<Rightarrow> [m] | Some ms \<Rightarrow> ms @ [m]) else map_of vs g)"
  if "sorted_wrt (<) (map fst vs)"
  using that
proof (induction f m vs rule: push_entry.induct)
  case (2 f m k ms rest)
  show ?case
  proof (cases "f < k")
    case True
    then have "map_of rest f = None"
      using 2(2) by (auto simp: map_of_eq_None_iff dest: order.strict_trans)
    then show ?thesis using True by auto
  next
    case False
    then show ?thesis using 2 by (auto split: option.splits)
  qed
qed simp

end
