(* ===== verification/Sql_Read.thy ===== *)
theory Sql_Read
  imports Sql_Table Errdef Diagnostics
begin

text \<open>
  The SQL reader, \<^verbatim>\<open>module/schema/core/service/exchange/sql/mod.rs\<close>, with \<open>grid_slot\<close> of
  \<^verbatim>\<open>exchange/mod.rs\<close>: a script becomes a draft and a report of what was skipped. Version 4 UUIDs
  come from a library; the parameter \<open>ids\<close> gives the text of the \<open>n\<close>-th one, and a counter
  threads through the functions that draw from it.
\<close>

section \<open>Statements\<close>

record sql_comment =
  com_table :: string
  com_column :: "string option"
  com_text :: string

datatype statement_read =
    Read_table parsed_table
  | Read_foreign_key "string \<times> parsed_foreign_key"
  | Read_comment sql_comment
  | Read_skipped

definition alter :: "token list \<Rightarrow> (string \<times> parsed_foreign_key) option" where
  "alter tokens =
     (let c1 = snd (eat_word ''alter'' tokens) in
      if \<not> at_word ''table'' c1 then None
      else let c2 = snd (eat_word ''only'' (snd (eat_words [''if'', ''exists''] (tl c1)))) in
        case qualified_name c2 of
          (None, _) \<Rightarrow> None
        | (Some holder, c3) \<Rightarrow>
           (if \<not> at_word ''add'' c3 then None
            else let c4 = (if at_word ''constraint'' (tl c3) then tl (tl (tl c3)) else tl c3);
                     (found, c5) = eat_words [''foreign'', ''key''] c4
              in if \<not> found then None
                 else case name_list c5 of
                   (None, _) \<Rightarrow> None
                 | (Some columns, c6) \<Rightarrow>
                    (if \<not> at_word ''references'' c6 then None
                     else case qualified_name (tl c6) of
                       (None, _) \<Rightarrow> None
                     | (Some table, c7) \<Rightarrow>
                        (if length columns \<noteq> 1 then None
                         else Some (holder, \<lparr>pfk_column = hd columns, pfk_table = table,
                                pfk_target = first_name (fst (name_list c7))\<rparr>)))))"

definition comment :: "token list \<Rightarrow> sql_comment option" where
  "comment tokens =
     (let c1 = snd (eat_word ''comment'' tokens) in
      if \<not> at_word ''on'' c1 then None
      else let c2 = tl c1 in
        if \<not> at_word ''column'' c2 \<and> \<not> at_word ''table'' c2 then None
        else case qualified_name (tl c2) of
          (None, _) \<Rightarrow> None
        | (Some name, c3) \<Rightarrow>
           (if \<not> at_word ''is'' c3 then None
            else case tl c3 of
              TText text # _ \<Rightarrow>
                (if at_word ''column'' c2 then
                   (case rsplit_once (CHR ''.'') name of
                      None \<Rightarrow> None
                    | Some (table, col) \<Rightarrow>
                        Some \<lparr>com_table = table, com_column = Some col, com_text = text\<rparr>)
                 else Some \<lparr>com_table = name, com_column = None, com_text = text\<rparr>)
            | _ \<Rightarrow> None))"

definition classify :: "statement \<Rightarrow> statement_read" where
  "classify st =
     (let tokens = st_tokens st in
      if at_word ''create'' tokens then
        (case parse_table tokens of Some parsed \<Rightarrow> Read_table parsed | None \<Rightarrow> Read_skipped)
      else if at_word ''alter'' tokens then
        (case alter tokens of Some parsed \<Rightarrow> Read_foreign_key parsed | None \<Rightarrow> Read_skipped)
      else if at_word ''comment'' tokens then
        (case comment tokens of Some parsed \<Rightarrow> Read_comment parsed | None \<Rightarrow> Read_skipped)
      else Read_skipped)"

section \<open>Building the draft\<close>

definition SOURCE_LIMIT :: nat where "SOURCE_LIMIT = 120"

definition skipped_statement :: "string \<Rightarrow> diagnostic" where
  "skipped_statement source =
     (let single_line = join '' '' (split_whitespace source);
          shortened = (if length single_line > SOURCE_LIMIT
                       then take SOURCE_LIMIT single_line @ ''...'' else single_line)
      in diag_warning IMPORT_SKIPPED
           (''skipped a statement the reader does not handle: `'' @ shortened @ ''`''))"

definition fresh :: "(nat \<Rightarrow> string) \<Rightarrow> string \<Rightarrow> nat \<Rightarrow> string" where
  "fresh ids prefix n = prefix @ ids n"

definition attribute_from :: "(nat \<Rightarrow> string) \<Rightarrow> nat \<Rightarrow> parsed_column \<Rightarrow> attribute" where
  "attribute_from ids n col =
     (attribute_new (fresh ids ''a'' n) (pc_name col) (pc_data_type col))
       \<lparr>attr_nullable := pc_nullable col, attr_primary_key := pc_primary_key col,
        attr_unique := pc_unique col \<or> pc_primary_key col,
        attr_default_value := pc_default_value col\<rparr>"

definition entity_from :: "(nat \<Rightarrow> string) \<Rightarrow> nat \<Rightarrow> parsed_table \<Rightarrow> entity \<times> nat" where
  "entity_from ids n parsed =
     (with_attributes (map (\<lambda>(i, col). attribute_from ids i col) (enumerate (Suc n) (pt_columns parsed)))
        (entity_new (fresh ids ''e'' n) (pt_name parsed)),
      Suc n + length (pt_columns parsed))"

definition tail_name :: "string \<Rightarrow> string" where
  "tail_name name = (case rsplit_once (CHR ''.'') name of None \<Rightarrow> name | Some (_, tail) \<Rightarrow> tail)"

definition same_table :: "string \<Rightarrow> string \<Rightarrow> bool" where
  "same_table left right =
     (if eq_ignore_ascii_case left right then True
      else eq_ignore_ascii_case (tail_name left) (tail_name right))"

text \<open>\<open>Iterator::position\<close>.\<close>

fun find_index :: "('a \<Rightarrow> bool) \<Rightarrow> 'a list \<Rightarrow> nat option" where
  "find_index p [] = None"
| "find_index p (x # xs) = (if p x then Some 0 else map_option Suc (find_index p xs))"

definition find_table :: "schema_draft \<Rightarrow> string \<Rightarrow> nat option" where
  "find_table d name =
     (case find_index (\<lambda>e. eq_ignore_ascii_case (ent_name e) name) (draft_entities d) of
        Some i \<Rightarrow> Some i
      | None \<Rightarrow> find_index (\<lambda>e. same_table (ent_name e) name) (draft_entities d))"

definition attribute_id_of :: "entity \<Rightarrow> string \<Rightarrow> string option" where
  "attribute_id_of e name = map_option attr_id (attribute_by_name e name)"

definition link_note :: "string \<Rightarrow> parsed_foreign_key \<Rightarrow> diagnostic" where
  "link_note holder key = diag_warning IMPORT_SKIPPED
     (''`'' @ holder @ ''.'' @ pfk_column key @ ''` is not a foreign key, because it points at `''
       @ pfk_table key @ ''`'')"

type_synonym import_state = "schema_draft \<times> report \<times> nat"

definition link :: "(nat \<Rightarrow> string) \<Rightarrow> string \<times> parsed_foreign_key \<Rightarrow> import_state \<Rightarrow> import_state" where
  "link ids = (\<lambda>(holder, key) (d, r, n).
     let give_up = (d, push (link_note holder key) r, n) in
     case (find_table d holder, find_table d (pfk_table key)) of
       (Some hi, Some ti) \<Rightarrow>
         (let he = draft_entities d ! hi; te = draft_entities d ! ti in
          case attribute_id_of he (pfk_column key) of
            None \<Rightarrow> give_up
          | Some holder_attribute \<Rightarrow>
             (case (case pfk_target key of
                      Some name \<Rightarrow> attribute_id_of te name
                    | None \<Rightarrow> (case primary_key te of [] \<Rightarrow> None | a # _ \<Rightarrow> Some (attr_id a))) of
                None \<Rightarrow> give_up
              | Some target_attribute \<Rightarrow>
                  (let ref = foreign_key_ref_new (ent_id te) target_attribute;
                       he' = he\<lparr>ent_attributes := change_first (\<lambda>a. attr_id a = holder_attribute)
                                  (\<lambda>a. a\<lparr>attr_foreign_key := Some ref\<rparr>) (ent_attributes he)\<rparr>
                   in (d\<lparr>draft_entities := (draft_entities d)[hi := he'],
                         draft_relationships := draft_relationships d @
                           [relationship_new (fresh ids ''r'' n) (ent_id te, target_attribute)
                              (ent_id he, holder_attribute) OneToMany]\<rparr>, r, Suc n))))
     | _ \<Rightarrow> give_up)"

definition describe :: "sql_comment \<Rightarrow> schema_draft \<times> report \<Rightarrow> schema_draft \<times> report" where
  "describe com = (\<lambda>(d, r).
     case find_table d (com_table com) of
       None \<Rightarrow> (d, push (diag_warning IMPORT_SKIPPED
           (''a comment on `'' @ com_table com @ ''`, which is not in the file'')) r)
     | Some i \<Rightarrow>
         (let e = draft_entities d ! i in
          case com_column com of
            None \<Rightarrow> (d\<lparr>draft_entities := (draft_entities d)[i := e\<lparr>ent_description := com_text com\<rparr>]\<rparr>, r)
          | Some col \<Rightarrow>
              if list_ex (\<lambda>a. eq_ignore_ascii_case (attr_name a) col) (ent_attributes e) then
                (d\<lparr>draft_entities := (draft_entities d)[i := e\<lparr>ent_attributes :=
                   change_first (\<lambda>a. eq_ignore_ascii_case (attr_name a) col)
                     (\<lambda>a. a\<lparr>attr_description := com_text com\<rparr>) (ent_attributes e)\<rparr>]\<rparr>, r)
              else (d, push (diag_warning IMPORT_SKIPPED
                (''a comment on `'' @ com_table com @ ''.'' @ col @ ''`, which is not in the file'')) r)))"

section \<open>Layout\<close>

definition GRID_COLUMNS :: nat where "GRID_COLUMNS = 4"
definition GRID_WIDTH :: f64 where "GRID_WIDTH = f64_of_nat 320"
definition GRID_HEIGHT :: f64 where "GRID_HEIGHT = f64_of_nat 260"

definition grid_slot :: "nat \<Rightarrow> position" where
  "grid_slot index =
     position_new (f64_mul (f64_of_nat (index mod GRID_COLUMNS)) GRID_WIDTH)
       (f64_mul (f64_of_nat (index div GRID_COLUMNS)) GRID_HEIGHT)"

definition nth_option :: "'a list \<Rightarrow> nat \<Rightarrow> 'a option" where
  "nth_option xs i = (if i < length xs then Some (xs ! i) else None)"

definition find_hint :: "layout_hint list \<Rightarrow> nat list \<Rightarrow> nat \<Rightarrow> entity \<Rightarrow> layout_hint option" where
  "find_hint hints table_at index e =
     (case List.find (\<lambda>h. above h = nth_option table_at index \<and> same_table (hint_table h) (ent_name e)) hints of
        Some h \<Rightarrow> Some h
      | None \<Rightarrow> List.find (\<lambda>h. same_table (hint_table h) (ent_name e)) hints)"

definition place_entity :: "layout_hint list \<Rightarrow> nat list \<Rightarrow> bool \<Rightarrow> nat \<times> entity \<Rightarrow> entity" where
  "place_entity hints table_at with_positions = (\<lambda>(index, e).
     e\<lparr>ent_position := (case (if with_positions then find_hint hints table_at index e else None) of
          Some h \<Rightarrow> position_new (hint_x h) (hint_y h)
        | None \<Rightarrow> grid_slot index)\<rparr>)"

definition place :: "schema_draft \<Rightarrow> layout_hint list \<Rightarrow> nat list \<Rightarrow> bool \<Rightarrow> schema_draft" where
  "place d hints table_at with_positions =
     d\<lparr>draft_entities := map (place_entity hints table_at with_positions) (enumerate 0 (draft_entities d))\<rparr>"

section \<open>The reader\<close>

record sql_parts =
  part_tables :: "parsed_table list"
  part_table_at :: "nat list"
  part_comments :: "sql_comment list"
  part_late_keys :: "(string \<times> parsed_foreign_key) list"
  part_report :: report

definition sort_statement :: "nat \<times> statement \<Rightarrow> sql_parts \<Rightarrow> sql_parts" where
  "sort_statement = (\<lambda>(at, st) p.
     case classify st of
       Read_table parsed \<Rightarrow>
         p\<lparr>part_table_at := part_table_at p @ [at], part_tables := part_tables p @ [parsed]\<rparr>
     | Read_foreign_key parsed \<Rightarrow> p\<lparr>part_late_keys := part_late_keys p @ [parsed]\<rparr>
     | Read_comment com \<Rightarrow> p\<lparr>part_comments := part_comments p @ [com]\<rparr>
     | Read_skipped \<Rightarrow> p\<lparr>part_report := push (skipped_statement (st_source st)) (part_report p)\<rparr>)"

definition sort_statements :: "statement list \<Rightarrow> sql_parts" where
  "sort_statements sts = fold sort_statement (enumerate 0 sts)
     \<lparr>part_tables = [], part_table_at = [], part_comments = [], part_late_keys = [],
      part_report = report_default\<rparr>"

definition draw_table :: "(nat \<Rightarrow> string) \<Rightarrow> parsed_table \<Rightarrow> import_state \<Rightarrow> import_state" where
  "draw_table ids parsed = (\<lambda>(d, r, n).
     let r1 = fold (\<lambda>note. push (diag_warning IMPORT_SKIPPED
            (''`'' @ pt_name parsed @ ''` kept, without '' @ note))) (pt_skipped parsed) r;
         (e, n1) = entity_from ids n parsed
     in (d\<lparr>draft_entities := draft_entities d @ [e]\<rparr>, r1, n1))"

definition empty_draft :: schema_draft where
  "empty_draft = \<lparr>draft_name = '''', draft_description = '''', draft_entities = [], draft_relationships = []\<rparr>"

definition inline_keys :: "parsed_table list \<Rightarrow> (string \<times> parsed_foreign_key) list" where
  "inline_keys tables = concat (map (\<lambda>t. map (Pair (pt_name t)) (pt_foreign_keys t)) tables)"

definition read_parts ::
  "(nat \<Rightarrow> string) \<Rightarrow> sql_parts \<Rightarrow> layout_hint list \<Rightarrow> bool \<Rightarrow> schema_draft \<times> report" where
  "read_parts ids p hints with_positions =
     (let drawn = fold (draw_table ids) (part_tables p) (empty_draft, part_report p, 0);
          (d1, r1, _) = fold (link ids) (inline_keys (part_tables p) @ part_late_keys p) drawn;
          (d2, r2) = fold describe (part_comments p) (d1, r1)
      in (place d2 hints (part_table_at p) with_positions, r2))"

definition sql_read :: "(nat \<Rightarrow> string) \<Rightarrow> string \<Rightarrow> bool \<Rightarrow> sf_error + schema_draft \<times> report" where
  "sql_read ids content with_positions =
     (let (statements, hints) = scan content; p = sort_statements statements in
      if part_tables p = [] then
        Inl (add_violation ''content'' ''expected at least one CREATE TABLE statement''
               (validation ''the file holds no table the canvas could draw''))
      else Inr (read_parts ids p hints with_positions))"

section \<open>Nothing is dropped silently\<close>

text \<open>Every statement becomes a table, a late foreign key, a comment or a warning.\<close>

definition part_count :: "sql_parts \<Rightarrow> nat" where
  "part_count p = length (part_tables p) + length (part_late_keys p) + length (part_comments p)
     + length (diagnostics (part_report p))"

lemma sort_statement_count: "part_count (sort_statement x p) = Suc (part_count p)"
  by (cases x) (simp add: part_count_def sort_statement_def split: statement_read.split)

lemma sort_statements_count: "part_count (sort_statements sts) = length sts"
proof -
  have "part_count (fold sort_statement xs p) = part_count p + length xs" for xs p
    by (induction xs arbitrary: p) (simp_all add: sort_statement_count)
  then show ?thesis by (simp add: sort_statements_def part_count_def report_default_def)
qed

text \<open>Foreign keys, comments and positions leave the tables and the names of their columns alone.\<close>

definition drawn_names :: "schema_draft \<Rightarrow> (string \<times> string list) list" where
  "drawn_names d = map (\<lambda>e. (ent_name e, map attr_name (ent_attributes e))) (draft_entities d)"

lemma map_change_first: "(\<And>x. f (g x) = f x) \<Longrightarrow> map f (change_first p g xs) = map f xs"
  by (induction xs) auto

lemma drawn_names_update:
  "i < length (draft_entities d) \<Longrightarrow> ent_name e = ent_name (draft_entities d ! i) \<Longrightarrow>
     map attr_name (ent_attributes e) = map attr_name (ent_attributes (draft_entities d ! i)) \<Longrightarrow>
     drawn_names (d\<lparr>draft_entities := (draft_entities d)[i := e]\<rparr>) = drawn_names d"
  by (simp add: drawn_names_def map_update list_update_same_conv)

lemma find_index_less: "find_index p xs = Some i \<Longrightarrow> i < length xs"
  by (induction xs arbitrary: i) (auto split: if_splits)

lemma find_table_less: "find_table d name = Some i \<Longrightarrow> i < length (draft_entities d)"
  by (auto simp: find_table_def dest: find_index_less split: option.splits)

lemma drawn_names_relationships [simp]: "drawn_names (d\<lparr>draft_relationships := rs\<rparr>) = drawn_names d"
  by (simp add: drawn_names_def)

lemma link_names: "drawn_names (fst (link ids k x)) = drawn_names (fst x)"
proof -
  obtain holder key d r n where kx: "k = (holder, key)" "x = (d, r, n)" by (metis prod_cases3 surj_pair)
  show ?thesis
    unfolding kx link_def
    by (auto simp: Let_def find_table_less map_change_first intro!: drawn_names_update split: option.splits)
qed

lemma describe_names: "drawn_names (fst (describe com x)) = drawn_names (fst x)"
proof -
  obtain d r where x: "x = (d, r)" by fastforce
  show ?thesis
    unfolding x describe_def
    by (auto simp: Let_def find_table_less map_change_first intro!: drawn_names_update split: option.splits)
qed

lemma draw_table_names:
  "drawn_names (fst (draw_table ids t x)) = drawn_names (fst x) @ [(pt_name t, map pc_name (pt_columns t))]"
proof -
  obtain d r n where x: "x = (d, r, n)" by (metis prod_cases3)
  have "map (attr_name \<circ> (\<lambda>(i, col). attribute_from ids i col)) (enumerate m cols) = map pc_name cols" for m cols
    by (induction cols arbitrary: m) (simp_all add: attribute_from_def attribute_new_def)
  then show ?thesis
    by (simp add: x draw_table_def Let_def entity_from_def drawn_names_def with_attributes_def entity_new_def)
qed

lemma place_names: "drawn_names (place d hints ats b) = drawn_names d"
proof -
  have "map (\<lambda>e. (ent_name e, map attr_name (ent_attributes e))) (map (place_entity hints ats b) (enumerate m es)) =
      map (\<lambda>e. (ent_name e, map attr_name (ent_attributes e))) es" for m es
    by (induction es arbitrary: m) (simp_all add: place_entity_def)
  then show ?thesis by (simp add: drawn_names_def place_def)
qed

lemma fold_names:
  assumes "\<And>k x. drawn_names (fst (f k x)) = drawn_names (fst x)"
  shows "drawn_names (fst (fold f ks x)) = drawn_names (fst x)"
  using assms by (induction ks arbitrary: x) simp_all

lemma sql_read_names:
  assumes "sql_read ids content b = Inr (d, r)"
  shows "drawn_names d = map (\<lambda>t. (pt_name t, map pc_name (pt_columns t)))
    (part_tables (sort_statements (fst (scan content))))"
proof -
  let ?p = "sort_statements (fst (scan content))"
  define x0 where "x0 = fold (draw_table ids) (part_tables ?p) (empty_draft, part_report ?p, 0)"
  define x1 where "x1 = fold (link ids) (inline_keys (part_tables ?p) @ part_late_keys ?p) x0"
  define x2 where "x2 = fold describe (part_comments ?p) (fst x1, fst (snd x1))"
  have "drawn_names (fst (fold (draw_table ids) ts x)) =
      drawn_names (fst x) @ map (\<lambda>t. (pt_name t, map pc_name (pt_columns t))) ts" for ts x
    by (induction ts arbitrary: x) (simp_all add: draw_table_names)
  then have "drawn_names (fst x0) = map (\<lambda>t. (pt_name t, map pc_name (pt_columns t))) (part_tables ?p)"
    by (simp add: x0_def drawn_names_def empty_draft_def)
  moreover have "drawn_names (fst x2) = drawn_names (fst x0)"
    unfolding x2_def x1_def by (simp add: fold_names [OF describe_names] fold_names [OF link_names])
  moreover have "d = place (fst x2) (snd (scan content)) (part_table_at ?p) b"
    using assms
    by (auto simp: sql_read_def read_parts_def x0_def [symmetric] x1_def Let_def case_prod_beta
        x2_def split: if_splits)
  ultimately show ?thesis by (simp add: place_names)
qed

end
