(* ===== verification/Exchange_Json.thy ===== *)
theory Exchange_Json
  imports Sql_Read
begin

text \<open>
  The JSON side of the exchange, \<^verbatim>\<open>module/schema/core/service/exchange\<close>: \<^verbatim>\<open>names.rs\<close>,
  \<^verbatim>\<open>read.rs\<close>, \<^verbatim>\<open>json.rs\<close> and the dispatch of \<^verbatim>\<open>mod.rs\<close>.

  serde\_json is a library. A \<open>Value\<close> is a datatype here; \<open>document_doc\<close> gives the value the
  \<open>Serialize\<close> derives describe, the parameter \<open>print\<close> stands for \<open>to_string_pretty\<close> and \<open>parse\<close>
  for \<open>from_str\<close>. As in the SQL reader, \<open>ids\<close> gives the text of the \<open>n\<close>-th fresh UUID and a
  counter threads through the readers.
\<close>

section \<open>Results and values\<close>

text \<open>The \<open>?\<close> operator on \<open>Result\<close>.\<close>

definition bind_ok :: "'e + 'a \<Rightarrow> ('a \<Rightarrow> 'e + 'b) \<Rightarrow> 'e + 'b" where
  "bind_ok r f = (case r of Inl e \<Rightarrow> Inl e | Inr x \<Rightarrow> f x)"

lemma bind_ok_simps [simp]: "bind_ok (Inl e) f = Inl e" "bind_ok (Inr x) f = f x"
  by (simp_all add: bind_ok_def)

text \<open>A number is a \<open>u64\<close>, a negative \<open>i64\<close> or a finite double.\<close>

datatype json =
    JNull | JBool bool | JUnsigned nat | JNegative int | JFloat f64 | JString string
  | JArray "json list" | JObject "(string \<times> json) list"

type_synonym json_map = "(string \<times> json) list"

text \<open>A map's \<open>get\<close>, and \<open>get\<close> followed by the filter on null.\<close>

definition get :: "json_map \<Rightarrow> string \<Rightarrow> json option" where
  "get m key = map_of m key"

definition get_present :: "json_map \<Rightarrow> string \<Rightarrow> json option" where
  "get_present m key = (case get m key of None \<Rightarrow> None | Some JNull \<Rightarrow> None | Some v \<Rightarrow> Some v)"

section \<open>Names (names.rs)\<close>

fun kind_name :: "data_type_kind \<Rightarrow> string" where
  "kind_name Text = ''DATA_TYPE_KIND_TEXT''"
| "kind_name Varchar = ''DATA_TYPE_KIND_VARCHAR''"
| "kind_name Char_kind = ''DATA_TYPE_KIND_CHAR''"
| "kind_name SmallInt = ''DATA_TYPE_KIND_SMALL_INT''"
| "kind_name Integer = ''DATA_TYPE_KIND_INTEGER''"
| "kind_name BigInt = ''DATA_TYPE_KIND_BIG_INT''"
| "kind_name Numeric = ''DATA_TYPE_KIND_NUMERIC''"
| "kind_name Real = ''DATA_TYPE_KIND_REAL''"
| "kind_name DoublePrecision = ''DATA_TYPE_KIND_DOUBLE_PRECISION''"
| "kind_name Boolean = ''DATA_TYPE_KIND_BOOLEAN''"
| "kind_name Date = ''DATA_TYPE_KIND_DATE''"
| "kind_name Time = ''DATA_TYPE_KIND_TIME''"
| "kind_name Timestamp = ''DATA_TYPE_KIND_TIMESTAMP''"
| "kind_name TimestampTz = ''DATA_TYPE_KIND_TIMESTAMPTZ''"
| "kind_name Uuid = ''DATA_TYPE_KIND_UUID''"
| "kind_name Json = ''DATA_TYPE_KIND_JSON''"
| "kind_name Jsonb = ''DATA_TYPE_KIND_JSONB''"
| "kind_name Bytea = ''DATA_TYPE_KIND_BYTEA''"

definition kind_from_name :: "string \<Rightarrow> data_type_kind option" where
  "kind_from_name name =
     (let wanted = trim name in
      List.find (\<lambda>k. kind_name k = wanted \<or> eq_ignore_ascii_case (kind_as_str k) wanted) kind_variants)"

fun cardinality_name :: "cardinality \<Rightarrow> string" where
  "cardinality_name OneToOne = ''CARDINALITY_ONE_TO_ONE''"
| "cardinality_name OneToMany = ''CARDINALITY_ONE_TO_MANY''"
| "cardinality_name ManyToMany = ''CARDINALITY_MANY_TO_MANY''"

definition cardinality_from_name :: "string \<Rightarrow> cardinality option" where
  "cardinality_from_name name =
     (let wanted = trim name in
      List.find (\<lambda>c. cardinality_name c = wanted \<or> eq_ignore_ascii_case (cardinality_as_str c) wanted)
        [OneToOne, OneToMany, ManyToMany])"

section \<open>Readers (read.rs)\<close>

definition refuse :: "string \<Rightarrow> string \<Rightarrow> sf_error" where
  "refuse path message =
     add_violation path message (validation (''the file could not be read at `'' @ path @ ''`''))"

definition json_object :: "json \<Rightarrow> string \<Rightarrow> sf_error + json_map" where
  "json_object v path = (case v of JObject m \<Rightarrow> Inr m | _ \<Rightarrow> Inl (refuse path ''expected an object''))"

definition json_array :: "json \<Rightarrow> string \<Rightarrow> sf_error + json list" where
  "json_array v path = (case v of JArray vs \<Rightarrow> Inr vs | _ \<Rightarrow> Inl (refuse path ''expected an array''))"

definition json_required :: "json_map \<Rightarrow> string \<Rightarrow> string \<Rightarrow> sf_error + json" where
  "json_required m key path =
     (case get_present m key of Some v \<Rightarrow> Inr v | None \<Rightarrow> Inl (refuse path ''field is required''))"

definition json_text :: "json \<Rightarrow> string \<Rightarrow> sf_error + string" where
  "json_text v path = (case v of JString s \<Rightarrow> Inr s | _ \<Rightarrow> Inl (refuse path ''expected a string''))"

definition required_text :: "json_map \<Rightarrow> string \<Rightarrow> string \<Rightarrow> sf_error + string" where
  "required_text m key path = bind_ok (json_required m key path) (\<lambda>v. json_text v path)"

definition optional_text :: "json_map \<Rightarrow> string \<Rightarrow> string \<Rightarrow> sf_error + string option" where
  "optional_text m key path =
     (case get_present m key of
        None \<Rightarrow> Inr None
      | Some v \<Rightarrow> bind_ok (json_text v path) (\<lambda>s. Inr (Some s)))"

definition flag :: "json_map \<Rightarrow> string \<Rightarrow> string \<Rightarrow> bool \<Rightarrow> sf_error + bool" where
  "flag m key path dflt =
     (case get_present m key of
        None \<Rightarrow> Inr dflt
      | Some v \<Rightarrow> (case v of JBool b \<Rightarrow> Inr b | _ \<Rightarrow> Inl (refuse path ''expected true or false'')))"

definition count :: "json_map \<Rightarrow> string \<Rightarrow> string \<Rightarrow> sf_error + u32 option" where
  "count m key path =
     (case get_present m key of
        None \<Rightarrow> Inr None
      | Some v \<Rightarrow>
         (case v of
            JUnsigned n \<Rightarrow> if n < 2 ^ 32 then Inr (Some (of_nat n))
                           else Inl (refuse path ''expected a whole number that is not negative'')
          | _ \<Rightarrow> Inl (refuse path ''expected a whole number that is not negative'')))"

definition f64_of_int :: "int \<Rightarrow> f64" where
  "f64_of_int i = f64_of_ratio (i < 0) (nat \<bar>i\<bar>) 1"

definition coordinate :: "json_map \<Rightarrow> string \<Rightarrow> string \<Rightarrow> sf_error + f64" where
  "coordinate m key path =
     (case get_present m key of
        None \<Rightarrow> Inr 0
      | Some v \<Rightarrow>
         (case v of
            JUnsigned n \<Rightarrow> Inr (f64_of_nat n)
          | JNegative i \<Rightarrow> Inr (f64_of_int i)
          | JFloat x \<Rightarrow> Inr x
          | _ \<Rightarrow> Inl (refuse path ''expected a number'')))"

section \<open>Writing (json.rs)\<close>

definition CONTENT_TYPE :: string where "CONTENT_TYPE = ''application/json''"
definition EXTENSION :: string where "EXTENSION = ''json''"
definition VERSION :: nat where "VERSION = 1"

text \<open>A double that is not finite is written as null.\<close>

definition f64_value :: "f64 \<Rightarrow> json" where
  "f64_value x = (if f64_exponent x = 2047 then JNull else JFloat x)"

definition u32_field :: "string \<Rightarrow> u32 option \<Rightarrow> json_map" where
  "u32_field key v = (case v of None \<Rightarrow> [] | Some n \<Rightarrow> [(key, JUnsigned (unat n))])"

definition data_type_doc :: "data_type \<Rightarrow> json" where
  "data_type_doc t = JObject ([(''kind'', JString (kind_name (dt_kind t)))]
     @ u32_field ''length'' (dt_length t) @ u32_field ''precision'' (dt_precision t)
     @ u32_field ''scale'' (dt_scale t))"

definition foreign_key_doc :: "foreign_key_ref \<Rightarrow> json" where
  "foreign_key_doc r = JObject [(''entityId'', JString (fk_entity_id r)),
     (''attributeId'', JString (fk_attribute_id r))]"

definition attribute_doc :: "attribute \<Rightarrow> json" where
  "attribute_doc a = JObject
     ([(''id'', JString (attr_id a)), (''name'', JString (attr_name a)),
       (''description'', JString (attr_description a)), (''dataType'', data_type_doc (attr_data_type a)),
       (''nullable'', JBool (attr_nullable a)), (''primaryKey'', JBool (attr_primary_key a)),
       (''unique'', JBool (attr_unique a))]
      @ (case attr_foreign_key a of None \<Rightarrow> [] | Some r \<Rightarrow> [(''foreignKey'', foreign_key_doc r)])
      @ (case attr_default_value a of None \<Rightarrow> [] | Some d \<Rightarrow> [(''defaultValue'', JString d)]))"

definition entity_doc :: "bool \<Rightarrow> entity \<Rightarrow> json" where
  "entity_doc with_positions e = JObject
     ([(''id'', JString (ent_id e)), (''name'', JString (ent_name e)),
       (''description'', JString (ent_description e)),
       (''attributes'', JArray (map attribute_doc (ent_attributes e)))]
      @ (if with_positions then
           [(''position'', JObject [(''x'', f64_value (pos_x (ent_position e))),
                                    (''y'', f64_value (pos_y (ent_position e)))])]
         else []))"

definition relationship_doc :: "relationship \<Rightarrow> json" where
  "relationship_doc r = JObject
     [(''id'', JString (rel_id r)), (''name'', JString (rel_name r)),
      (''description'', JString (rel_description r)), (''fromEntityId'', JString (from_entity_id r)),
      (''fromAttributeId'', JString (from_attribute_id r)), (''toEntityId'', JString (to_entity_id r)),
      (''toAttributeId'', JString (to_attribute_id r)),
      (''cardinality'', JString (cardinality_name (rel_cardinality r)))]"

definition document_doc :: "schema \<Rightarrow> bool \<Rightarrow> json" where
  "document_doc s with_positions = JObject
     [(''schemaforge'', JUnsigned VERSION), (''name'', JString (sch_name s)),
      (''description'', JString (sch_description s)),
      (''entities'', JArray (map (entity_doc with_positions) (sch_entities s))),
      (''relationships'', JArray (map relationship_doc (sch_relationships s)))]"

definition json_write :: "(json \<Rightarrow> string) \<Rightarrow> schema \<Rightarrow> bool \<Rightarrow> string" where
  "json_write print s with_positions = print (document_doc s with_positions)"

definition trim_matches :: "char \<Rightarrow> string \<Rightarrow> string" where
  "trim_matches c s = rev (dropWhile (\<lambda>x. x = c) (rev (dropWhile (\<lambda>x. x = c) s)))"

definition file_name :: "string \<Rightarrow> string" where
  "file_name schema_name =
     (let slug = filter (\<lambda>c. is_alphanumeric c \<or> c = CHR ''_'' \<or> c = CHR ''-'')
            (map (\<lambda>c. if is_whitespace c then CHR ''_'' else c) (to_lowercase (trim schema_name)));
          trimmed = trim_matches (CHR ''_'') slug
      in if trimmed = '''' then ''schema.'' @ EXTENSION else trimmed @ ''.'' @ EXTENSION)"

section \<open>Reading (json.rs)\<close>

definition identity :: "(nat \<Rightarrow> string) \<Rightarrow> string \<Rightarrow> json_map \<Rightarrow> nat \<Rightarrow> string \<times> nat" where
  "identity ids prefix m n =
     (case get m ''id'' of
        Some (JString s) \<Rightarrow> if trim s \<noteq> '''' then (trim s, n) else (fresh ids prefix n, Suc n)
      | _ \<Rightarrow> (fresh ids prefix n, Suc n))"

definition data_type_from :: "json_map \<Rightarrow> string \<Rightarrow> sf_error + data_type" where
  "data_type_from m path =
     (let tp = path @ ''.dataType'' in
      bind_ok (json_required m ''dataType'' tp) (\<lambda>v.
      bind_ok (json_object v tp) (\<lambda>t.
      bind_ok (required_text t ''kind'' (tp @ ''.kind'')) (\<lambda>name.
      case kind_from_name name of
        None \<Rightarrow> Inl (refuse (tp @ ''.kind'') ''field must name a known data type'')
      | Some kind \<Rightarrow>
          bind_ok (count t ''length'' (tp @ ''.length'')) (\<lambda>len.
          bind_ok (count t ''precision'' (tp @ ''.precision'')) (\<lambda>prec.
          bind_ok (count t ''scale'' (tp @ ''.scale'')) (\<lambda>scl.
          Inr \<lparr>dt_kind = kind, dt_length = (if takes_length kind then len else None),
               dt_precision = (if takes_precision kind then prec else None),
               dt_scale = (if takes_precision kind then scl else None)\<rparr>)))))))"

definition foreign_key_from :: "json_map \<Rightarrow> string \<Rightarrow> sf_error + foreign_key_ref option" where
  "foreign_key_from m path =
     (case get_present m ''foreignKey'' of
        None \<Rightarrow> Inr None
      | Some v \<Rightarrow>
          (let rp = path @ ''.foreignKey'' in
           bind_ok (json_object v rp) (\<lambda>r.
           bind_ok (required_text r ''entityId'' (rp @ ''.entityId'')) (\<lambda>e.
           bind_ok (required_text r ''attributeId'' (rp @ ''.attributeId'')) (\<lambda>a.
           Inr (Some (foreign_key_ref_new e a)))))))"

definition json_attribute_from :: "(nat \<Rightarrow> string) \<Rightarrow> json \<Rightarrow> string \<Rightarrow> nat \<Rightarrow> sf_error + attribute \<times> nat" where
  "json_attribute_from ids v path n =
     bind_ok (json_object v path) (\<lambda>m.
     let (ident, n1) = identity ids ''a'' m n in
     bind_ok (required_text m ''name'' (path @ ''.name'')) (\<lambda>name.
     bind_ok (data_type_from m path) (\<lambda>t.
     bind_ok (optional_text m ''description'' (path @ ''.description'')) (\<lambda>desc.
     bind_ok (flag m ''nullable'' (path @ ''.nullable'') True) (\<lambda>nullable.
     bind_ok (flag m ''primaryKey'' (path @ ''.primaryKey'') False) (\<lambda>pk.
     bind_ok (flag m ''unique'' (path @ ''.unique'') False) (\<lambda>uniq.
     bind_ok (optional_text m ''defaultValue'' (path @ ''.defaultValue'')) (\<lambda>dflt.
     bind_ok (foreign_key_from m path) (\<lambda>fk.
     Inr ((attribute_new ident name t)
            \<lparr>attr_description := (case desc of None \<Rightarrow> '''' | Some d \<Rightarrow> d),
             attr_nullable := (if pk then False else nullable), attr_primary_key := pk,
             attr_unique := uniq, attr_default_value := dflt, attr_foreign_key := fk\<rparr>, n1))))))))))"

definition position_from :: "json_map \<Rightarrow> nat \<Rightarrow> bool \<Rightarrow> string \<Rightarrow> sf_error + position" where
  "position_from m index with_positions path =
     (if \<not> with_positions then Inr (grid_slot index)
      else case get_present m ''position'' of
        None \<Rightarrow> Inr (grid_slot index)
      | Some v \<Rightarrow>
          (let pp = path @ ''.position'' in
           bind_ok (json_object v pp) (\<lambda>p.
           bind_ok (coordinate p ''x'' (pp @ ''.x'')) (\<lambda>x.
           bind_ok (coordinate p ''y'' (pp @ ''.y'')) (\<lambda>y.
           Inr (position_new x y))))))"

text \<open>The loops over an array: one reader call per element, with its position, until one fails.\<close>

fun read_list :: "(json \<Rightarrow> nat \<Rightarrow> nat \<Rightarrow> sf_error + 'a \<times> nat) \<Rightarrow> json list \<Rightarrow> nat \<Rightarrow> nat \<Rightarrow> sf_error + 'a list \<times> nat" where
  "read_list f [] i n = Inr ([], n)"
| "read_list f (v # vs) i n =
     bind_ok (f v i n) (\<lambda>(x, n1).
     bind_ok (read_list f vs (Suc i) n1) (\<lambda>(xs, n2).
     Inr (x # xs, n2)))"

definition indexed :: "string \<Rightarrow> nat \<Rightarrow> string" where
  "indexed path i = path @ ''['' @ show_nat i @ '']''"

definition json_entity_from :: "(nat \<Rightarrow> string) \<Rightarrow> bool \<Rightarrow> json \<Rightarrow> nat \<Rightarrow> nat \<Rightarrow> sf_error + entity \<times> nat" where
  "json_entity_from ids with_positions v index n =
     (let path = indexed ''$.entities'' index in
      bind_ok (json_object v path) (\<lambda>m.
      let (ident, n1) = identity ids ''e'' m n in
      bind_ok (required_text m ''name'' (path @ ''.name'')) (\<lambda>name.
      bind_ok (optional_text m ''description'' (path @ ''.description'')) (\<lambda>desc.
      bind_ok (position_from m index with_positions path) (\<lambda>pos.
      let e = with_position pos (ent_with_description (case desc of None \<Rightarrow> '''' | Some d \<Rightarrow> d)
                (entity_new ident name)) in
      case get_present m ''attributes'' of
        None \<Rightarrow> Inr (e, n1)
      | Some vs \<Rightarrow>
          (let ap = path @ ''.attributes'' in
           bind_ok (json_array vs ap) (\<lambda>items.
           bind_ok (read_list (\<lambda>a i. json_attribute_from ids a (indexed ap i)) items 0 n1) (\<lambda>(attributes, n2).
           Inr (with_attributes attributes e, n2)))))))))"

definition json_relationship_from ::
  "(nat \<Rightarrow> string) \<Rightarrow> entity list \<Rightarrow> json \<Rightarrow> nat \<Rightarrow> nat \<Rightarrow> sf_error + relationship \<times> nat" where
  "json_relationship_from ids es v index n =
     (let path = indexed ''$.relationships'' index in
      bind_ok (json_object v path) (\<lambda>m.
      bind_ok (optional_text m ''cardinality'' (path @ ''.cardinality'')) (\<lambda>cname.
      bind_ok (case cname of
                 None \<Rightarrow> Inr cardinality_default
               | Some name \<Rightarrow> (case cardinality_from_name name of
                     None \<Rightarrow> Inl (refuse (path @ ''.cardinality'') ''field must name a known cardinality'')
                   | Some c \<Rightarrow> Inr c)) (\<lambda>card.
      let (ident, n1) = identity ids ''r'' m n in
      bind_ok (required_text m ''fromEntityId'' (path @ ''.fromEntityId'')) (\<lambda>fe.
      bind_ok (required_text m ''fromAttributeId'' (path @ ''.fromAttributeId'')) (\<lambda>fa.
      bind_ok (required_text m ''toEntityId'' (path @ ''.toEntityId'')) (\<lambda>te.
      bind_ok (required_text m ''toAttributeId'' (path @ ''.toAttributeId'')) (\<lambda>ta.
      bind_ok (optional_text m ''name'' (path @ ''.name'')) (\<lambda>name.
      bind_ok (optional_text m ''description'' (path @ ''.description'')) (\<lambda>desc.
      if \<not> list_ex (\<lambda>e. ent_id e = fe) es then
        Inl (refuse (path @ ''.fromEntityId'') ''field names an entity that is not in the file'')
      else if \<not> list_ex (\<lambda>e. ent_id e = te) es then
        Inl (refuse (path @ ''.toEntityId'') ''field names an entity that is not in the file'')
      else Inr ((relationship_new ident (fe, fa) (te, ta) card)
             \<lparr>rel_name := (case name of None \<Rightarrow> '''' | Some x \<Rightarrow> x),
              rel_description := (case desc of None \<Rightarrow> '''' | Some x \<Rightarrow> x)\<rparr>, n1)))))))))))"

definition json_read ::
  "(string \<Rightarrow> string + json) \<Rightarrow> (nat \<Rightarrow> string) \<Rightarrow> string \<Rightarrow> bool \<Rightarrow> sf_error + schema_draft" where
  "json_read parse ids content with_positions =
     (case parse content of
        Inl err \<Rightarrow> Inl (refuse ''$'' (''invalid json: '' @ err))
      | Inr document \<Rightarrow>
          bind_ok (json_object document ''$'') (\<lambda>root.
          bind_ok (required_text root ''name'' ''$.name'') (\<lambda>name.
          bind_ok (optional_text root ''description'' ''$.description'') (\<lambda>desc.
          bind_ok (json_required root ''entities'' ''$.entities'') (\<lambda>ev.
          bind_ok (json_array ev ''$.entities'') (\<lambda>evs.
          bind_ok (read_list (json_entity_from ids with_positions) evs 0 0) (\<lambda>(es, n).
          bind_ok (case get_present root ''relationships'' of
                     None \<Rightarrow> Inr []
                   | Some rv \<Rightarrow>
                       bind_ok (json_array rv ''$.relationships'') (\<lambda>rvs.
                       bind_ok (read_list (json_relationship_from ids es) rvs 0 n) (\<lambda>(rs, _). Inr rs))) (\<lambda>rs.
          Inr \<lparr>draft_name = name, draft_description = (case desc of None \<Rightarrow> '''' | Some d \<Rightarrow> d),
               draft_entities = es, draft_relationships = rs\<rparr>))))))))"

section \<open>Dispatch (mod.rs)\<close>

record exported =
  exp_file_name :: string
  exp_content_type :: string
  exp_content :: string

definition export :: "(json \<Rightarrow> string) \<Rightarrow> schema \<Rightarrow> exchange_format \<Rightarrow> bool \<Rightarrow> sf_error + exported" where
  "export print s format with_positions =
     (case format of
        Json_format \<Rightarrow> Inr \<lparr>exp_file_name = file_name (sch_name s), exp_content_type = CONTENT_TYPE,
          exp_content = json_write print s with_positions\<rparr>
      | Sql_format \<Rightarrow> Inl (unimplemented ''exporting as sql is not built yet, generate the ddl instead''))"

definition import ::
  "(string \<Rightarrow> string + json) \<Rightarrow> (nat \<Rightarrow> string) \<Rightarrow> string \<Rightarrow> exchange_format \<Rightarrow> bool \<Rightarrow> sf_error + schema_draft \<times> report" where
  "import parse ids content format with_positions =
     (case format of
        Json_format \<Rightarrow> bind_ok (json_read parse ids content with_positions) (\<lambda>d. Inr (d, report_default))
      | Sql_format \<Rightarrow> sql_read ids content with_positions)"

section \<open>Round trips\<close>

lemma kind_from_name_kind_name: "kind_from_name (kind_name k) = Some k"
  by (cases k) (simp_all add: kind_from_name_def kind_variants_def text_simps)

lemma cardinality_from_name_name: "cardinality_from_name (cardinality_name c) = Some c"
  by (cases c) (simp_all add: cardinality_from_name_def text_simps)

text \<open>What the file format can carry: parameters only where the kind takes them, trimmed ids.\<close>

definition type_clean :: "data_type \<Rightarrow> bool" where
  "type_clean t = ((dt_length t \<noteq> None \<longrightarrow> takes_length (dt_kind t)) \<and>
     (dt_precision t \<noteq> None \<longrightarrow> takes_precision (dt_kind t)) \<and>
     (dt_scale t \<noteq> None \<longrightarrow> takes_precision (dt_kind t)))"

definition id_clean :: "string \<Rightarrow> bool" where
  "id_clean i = (trim i = i \<and> i \<noteq> '''')"

definition attribute_clean :: "attribute \<Rightarrow> bool" where
  "attribute_clean a = (id_clean (attr_id a) \<and> type_clean (attr_data_type a) \<and>
     (attr_primary_key a \<longrightarrow> \<not> attr_nullable a))"

definition entity_clean :: "entity \<Rightarrow> bool" where
  "entity_clean e = (id_clean (ent_id e) \<and> list_all attribute_clean (ent_attributes e))"

definition position_finite :: "position \<Rightarrow> bool" where
  "position_finite p = (f64_exponent (pos_x p) \<noteq> 2047 \<and> f64_exponent (pos_y p) \<noteq> 2047)"

definition exportable :: "schema \<Rightarrow> bool" where
  "exportable s = (list_all entity_clean (sch_entities s) \<and>
     list_all (\<lambda>r. id_clean (rel_id r) \<and>
       from_entity_id r \<in> set (map ent_id (sch_entities s)) \<and>
       to_entity_id r \<in> set (map ent_id (sch_entities s))) (sch_relationships s))"

lemmas reader_defs = get_present_def get_def required_text_def optional_text_def json_required_def
  json_text_def json_object_def json_array_def flag_def

lemma count_u32_field:
  "map_of m key = (case v of None \<Rightarrow> None | Some n \<Rightarrow> Some (JUnsigned (unat n))) \<Longrightarrow> count m key path = Inr v"
  using unsigned_less [where ?'a = nat, of "the v"]
  by (cases v) (simp_all add: count_def get_present_def get_def)

lemma data_type_round_trip:
  assumes "map_of m ''dataType'' = Some (data_type_doc t)" and "type_clean t"
  shows "data_type_from m path = Inr t"
proof -
  define fields where "fields = [(''kind'', JString (kind_name (dt_kind t)))]
    @ u32_field ''length'' (dt_length t) @ u32_field ''precision'' (dt_precision t)
    @ u32_field ''scale'' (dt_scale t)"
  have doc: "data_type_doc t = JObject fields" by (simp add: data_type_doc_def fields_def)
  have kind: "map_of fields ''kind'' = Some (JString (kind_name (dt_kind t)))" by (simp add: fields_def)
  have "map_of fields ''length'' = (case dt_length t of None \<Rightarrow> None | Some n \<Rightarrow> Some (JUnsigned (unat n)))"
    "map_of fields ''precision'' = (case dt_precision t of None \<Rightarrow> None | Some n \<Rightarrow> Some (JUnsigned (unat n)))"
    "map_of fields ''scale'' = (case dt_scale t of None \<Rightarrow> None | Some n \<Rightarrow> Some (JUnsigned (unat n)))"
    by (auto simp: fields_def u32_field_def split: option.split)
  then have counts: "\<And>p. count fields ''length'' p = Inr (dt_length t)"
    "\<And>p. count fields ''precision'' p = Inr (dt_precision t)" "\<And>p. count fields ''scale'' p = Inr (dt_scale t)"
    by (simp_all add: count_u32_field)
  have "data_type_from m path = Inr \<lparr>dt_kind = dt_kind t,
      dt_length = (if takes_length (dt_kind t) then dt_length t else None),
      dt_precision = (if takes_precision (dt_kind t) then dt_precision t else None),
      dt_scale = (if takes_precision (dt_kind t) then dt_scale t else None)\<rparr>"
    by (simp add: data_type_from_def reader_defs assms(1) doc kind counts Let_def kind_from_name_kind_name)
  also have "\<dots> = Inr t" using assms(2) by (cases t) (auto simp: type_clean_def)
  finally show ?thesis .
qed

lemma identity_clean: "map_of m ''id'' = Some (JString i) \<Longrightarrow> id_clean i \<Longrightarrow> identity ids p m n = (i, n)"
  by (simp add: identity_def get_def id_clean_def)

lemma foreign_key_round_trip:
  "map_of m ''foreignKey'' = map_option foreign_key_doc fk \<Longrightarrow> foreign_key_from m path = Inr fk"
  by (cases fk) (simp_all add: foreign_key_from_def reader_defs foreign_key_doc_def foreign_key_ref_new_def Let_def)

lemma attribute_round_trip:
  assumes "attribute_clean a"
  shows "json_attribute_from ids (attribute_doc a) path n = Inr (a, n)"
proof -
  obtain m where m: "attribute_doc a = JObject m" by (simp add: attribute_doc_def)
  have fields: "map_of m ''id'' = Some (JString (attr_id a))" "map_of m ''name'' = Some (JString (attr_name a))"
    "map_of m ''description'' = Some (JString (attr_description a))"
    "map_of m ''dataType'' = Some (data_type_doc (attr_data_type a))"
    "map_of m ''nullable'' = Some (JBool (attr_nullable a))"
    "map_of m ''primaryKey'' = Some (JBool (attr_primary_key a))"
    "map_of m ''unique'' = Some (JBool (attr_unique a))"
    "map_of m ''foreignKey'' = map_option foreign_key_doc (attr_foreign_key a)"
    "map_of m ''defaultValue'' = map_option JString (attr_default_value a)"
    using m by (auto simp: attribute_doc_def split: option.splits)
  have dt: "data_type_from m path = Inr (attr_data_type a)"
    using data_type_round_trip [OF fields(4)] assms by (simp add: attribute_clean_def)
  have ident: "identity ids ''a'' m n = (attr_id a, n)"
    using identity_clean [OF fields(1)] assms by (simp add: attribute_clean_def)
  have dflt: "optional_text m ''defaultValue'' p = Inr (attr_default_value a)" for p
    by (cases "attr_default_value a") (simp_all add: reader_defs fields)
  show ?thesis
    using assms foreign_key_round_trip [OF fields(8), of path]
    by (simp add: json_attribute_from_def json_object_def m ident dt dflt)
      (simp add: reader_defs fields attribute_new_def attribute_clean_def)
qed

lemma read_list_round_trip:
  "(\<And>x i n. x \<in> set xs \<Longrightarrow> f (g x) i n = Inr (x, n)) \<Longrightarrow> read_list f (map g xs) i n = Inr (xs, n)"
  by (induction xs arbitrary: i n) simp_all

lemma entity_round_trip:
  assumes "entity_clean e" and "position_finite (ent_position e)"
  shows "json_entity_from ids True (entity_doc True e) i n = Inr (e, n)"
proof -
  obtain m where m: "entity_doc True e = JObject m" by (simp add: entity_doc_def)
  have fields: "map_of m ''id'' = Some (JString (ent_id e))" "map_of m ''name'' = Some (JString (ent_name e))"
    "map_of m ''description'' = Some (JString (ent_description e))"
    "map_of m ''attributes'' = Some (JArray (map attribute_doc (ent_attributes e)))"
    "map_of m ''position'' = Some (JObject [(''x'', JFloat (pos_x (ent_position e))), (''y'', JFloat (pos_y (ent_position e)))])"
    using m assms(2) by (auto simp: entity_doc_def f64_value_def position_finite_def)
  have ident: "identity ids ''e'' m n = (ent_id e, n)"
    using identity_clean [OF fields(1)] assms(1) by (simp add: entity_clean_def)
  have attributes: "read_list (\<lambda>a i. json_attribute_from ids a (indexed p i)) (map attribute_doc (ent_attributes e)) 0 n
      = Inr (ent_attributes e, n)" for p
    using assms(1) by (intro read_list_round_trip attribute_round_trip) (simp add: entity_clean_def list_all_iff)
  show ?thesis
    by (simp add: json_entity_from_def json_object_def m ident position_from_def reader_defs fields
        coordinate_def attributes Let_def with_position_def ent_with_description_def entity_new_def
        with_attributes_def position_new_def)
qed

lemma relationship_round_trip:
  assumes "id_clean (rel_id r)" and "from_entity_id r \<in> set (map ent_id es)" "to_entity_id r \<in> set (map ent_id es)"
  shows "json_relationship_from ids es (relationship_doc r) i n = Inr (r, n)"
proof -
  obtain m where m: "relationship_doc r = JObject m" by (simp add: relationship_doc_def)
  have fields: "map_of m ''id'' = Some (JString (rel_id r))" "map_of m ''name'' = Some (JString (rel_name r))"
    "map_of m ''description'' = Some (JString (rel_description r))"
    "map_of m ''fromEntityId'' = Some (JString (from_entity_id r))"
    "map_of m ''fromAttributeId'' = Some (JString (from_attribute_id r))"
    "map_of m ''toEntityId'' = Some (JString (to_entity_id r))"
    "map_of m ''toAttributeId'' = Some (JString (to_attribute_id r))"
    "map_of m ''cardinality'' = Some (JString (cardinality_name (rel_cardinality r)))"
    using m by (auto simp: relationship_doc_def)
  have ident: "identity ids ''r'' m n = (rel_id r, n)"
    using identity_clean [OF fields(1) assms(1)] .
  have known: "list_ex (\<lambda>e. ent_id e = from_entity_id r) es" "list_ex (\<lambda>e. ent_id e = to_entity_id r) es"
    using assms by (auto simp: list_ex_iff)
  show ?thesis
    by (simp add: json_relationship_from_def m ident Let_def known reader_defs fields
        cardinality_from_name_name relationship_new_def)
qed

lemma json_round_trip:
  assumes "exportable s" and "\<forall>e \<in> set (sch_entities s). position_finite (ent_position e)"
    and "parse (print (document_doc s True)) = Inr (document_doc s True)"
  shows "json_read parse ids (json_write print s True) True = Inr (draft s)"
proof -
  obtain m where m: "document_doc s True = JObject m" by (simp add: document_doc_def)
  have fields: "map_of m ''name'' = Some (JString (sch_name s))"
    "map_of m ''description'' = Some (JString (sch_description s))"
    "map_of m ''entities'' = Some (JArray (map (entity_doc True) (sch_entities s)))"
    "map_of m ''relationships'' = Some (JArray (map relationship_doc (sch_relationships s)))"
    using m by (auto simp: document_doc_def)
  have es: "read_list (json_entity_from ids True) (map (entity_doc True) (sch_entities s)) 0 0 = Inr (sch_entities s, 0)"
    using assms by (intro read_list_round_trip entity_round_trip) (auto simp: exportable_def list_all_iff)
  have rs: "read_list (json_relationship_from ids (sch_entities s)) (map relationship_doc (sch_relationships s)) 0 0
      = Inr (sch_relationships s, 0)"
    using assms(1) by (intro read_list_round_trip relationship_round_trip) (auto simp: exportable_def list_all_iff)
  show ?thesis
    using assms(3)
    by (simp add: json_read_def json_write_def m reader_defs fields es rs draft_def)
qed

end
