(* ===== verification/Compare.thy ===== *)
theory Compare
  imports Domain Float64
begin

text \<open>
  Comparing two schemas: \<^verbatim>\<open>module/schema/core/domain/comparison.rs\<close> and
  \<^verbatim>\<open>module/schema/core/service/exchange/compare.rs\<close>. The counts are \<open>u32\<close> and wrap, as in the
  release build. A \<open>Vec<bool>\<close> of what is taken is a list of booleans.
\<close>

section \<open>Comparisons (domain/comparison.rs)\<close>

datatype category = Tables | Columns | Keys | ForeignKeys | Relationships | Descriptions | Positions

fun category_as_str :: "category \<Rightarrow> string" where
  "category_as_str Tables = ''tables''"
| "category_as_str Columns = ''columns''"
| "category_as_str Keys = ''keys''"
| "category_as_str ForeignKeys = ''foreign_keys''"
| "category_as_str Relationships = ''relationships''"
| "category_as_str Descriptions = ''descriptions''"
| "category_as_str Positions = ''positions''"

definition category_variants :: "category list" where
  "category_variants = [Tables, Columns, Keys, ForeignKeys, Relationships, Descriptions, Positions]"

datatype difference_kind = Missing | Extra | Changed

fun difference_kind_as_str :: "difference_kind \<Rightarrow> string" where
  "difference_kind_as_str Missing = ''missing''"
| "difference_kind_as_str Extra = ''extra''"
| "difference_kind_as_str Changed = ''changed''"

record difference =
  diff_kind :: difference_kind
  diff_path :: string
  diff_expected :: string
  diff_actual :: string

definition missing :: "string \<Rightarrow> string \<Rightarrow> difference" where
  "missing path e = \<lparr>diff_kind = Missing, diff_path = path, diff_expected = e, diff_actual = ''''\<rparr>"

definition extra :: "string \<Rightarrow> string \<Rightarrow> difference" where
  "extra path a = \<lparr>diff_kind = Extra, diff_path = path, diff_expected = '''', diff_actual = a\<rparr>"

definition changed :: "string \<Rightarrow> string \<Rightarrow> string \<Rightarrow> difference" where
  "changed path e a = \<lparr>diff_kind = Changed, diff_path = path, diff_expected = e, diff_actual = a\<rparr>"

record counts =
  n_matched :: u32
  n_missing :: u32
  n_extra :: u32
  n_changed :: u32

definition counts_default :: counts where
  "counts_default = \<lparr>n_matched = 0, n_missing = 0, n_extra = 0, n_changed = 0\<rparr>"

text \<open>
  Both operands are \<open>u32\<close>, exact as doubles, and IEEE division rounds the exact quotient.
\<close>

definition ratio :: "u32 \<Rightarrow> u32 \<Rightarrow> f64" where
  "ratio m t = (if t = 0 then f64_of_nat 1 else f64_of_ratio False (unat m) (unat t))"

definition precision :: "counts \<Rightarrow> f64" where
  "precision c = ratio (n_matched c) (n_matched c + n_extra c + n_changed c)"

definition recall :: "counts \<Rightarrow> f64" where
  "recall c = ratio (n_matched c) (n_matched c + n_missing c + n_changed c)"

definition is_clean :: "counts \<Rightarrow> bool" where
  "is_clean c = (n_missing c = 0 \<and> n_extra c = 0 \<and> n_changed c = 0)"

fun count_kind :: "difference_kind \<Rightarrow> counts \<Rightarrow> counts" where
  "count_kind Missing c = c\<lparr>n_missing := n_missing c + 1\<rparr>"
| "count_kind Extra c = c\<lparr>n_extra := n_extra c + 1\<rparr>"
| "count_kind Changed c = c\<lparr>n_changed := n_changed c + 1\<rparr>"

definition count_match :: "counts \<Rightarrow> counts" where
  "count_match c = c\<lparr>n_matched := n_matched c + 1\<rparr>"

definition count_change :: "counts \<Rightarrow> counts" where
  "count_change c = c\<lparr>n_changed := n_changed c + 1\<rparr>"

text \<open>The seven counters of a \<open>Comparison\<close> are a function from the category.\<close>

record comparison =
  differences :: "difference list"
  cmp_counts :: "category \<Rightarrow> counts"

definition comparison_default :: comparison where
  "comparison_default = \<lparr>differences = [], cmp_counts = (\<lambda>_. counts_default)\<rparr>"

definition is_equal :: "comparison \<Rightarrow> bool" where
  "is_equal c = list_all (\<lambda>cat. is_clean (cmp_counts c cat)) category_variants"

definition counts_mut :: "category \<Rightarrow> (counts \<Rightarrow> counts) \<Rightarrow> comparison \<Rightarrow> comparison" where
  "counts_mut cat f c = c\<lparr>cmp_counts := (cmp_counts c)(cat := f (cmp_counts c cat))\<rparr>"

definition record_difference :: "category \<Rightarrow> difference \<Rightarrow> comparison \<Rightarrow> comparison" where
  "record_difference cat d c =
     (let c1 = counts_mut cat (count_kind (diff_kind d)) c
      in c1\<lparr>differences := differences c1 @ [d]\<rparr>)"

section \<open>Fields (compare.rs)\<close>

definition same :: "string \<Rightarrow> string \<Rightarrow> bool" where
  "same l r = eq_ignore_ascii_case l r"

definition table_path :: "string \<Rightarrow> string" where
  "table_path name = ''entities['' @ name @ '']''"

definition column_path :: "string \<Rightarrow> string \<Rightarrow> string" where
  "column_path tab name = tab @ ''.attributes['' @ name @ '']''"

definition field :: "('a \<Rightarrow> string) \<Rightarrow> string \<Rightarrow> string \<Rightarrow> 'a \<Rightarrow> 'a \<Rightarrow> difference option" where
  "field to_string path name e a =
     (if e = a then None else Some (changed (path @ ''.'' @ name) (to_string e) (to_string a)))"

definition show_bool :: "bool \<Rightarrow> string" where
  "show_bool b = (if b then ''true'' else ''false'')"

definition optional :: "string option \<Rightarrow> string" where
  "optional v = (case v of None \<Rightarrow> '''' | Some s \<Rightarrow> s)"

definition settle :: "category \<Rightarrow> difference option list \<Rightarrow> comparison \<Rightarrow> comparison" where
  "settle cat fs c =
     (let found = map the (filter (\<lambda>f. f \<noteq> None) fs) in
      if found = [] then counts_mut cat count_match c
      else (let c1 = counts_mut cat count_change c in c1\<lparr>differences := differences c1 @ found\<rparr>))"

definition compare_description :: "string \<Rightarrow> string \<Rightarrow> string \<Rightarrow> comparison \<Rightarrow> comparison" where
  "compare_description path0 expected0 actual0 c =
     (let path = path0 @ ''.description''; e = trim expected0; a = trim actual0 in
      if e = '''' \<and> a = '''' then c
      else if a = '''' then record_difference Descriptions (missing path e) c
      else if e = '''' then record_difference Descriptions (extra path a) c
      else if e = a then counts_mut Descriptions count_match c
      else record_difference Descriptions (changed path e a) c)"

definition position_eq :: "position \<Rightarrow> position \<Rightarrow> bool" where
  "position_eq p q = (f64_eq (pos_x p) (pos_x q) \<and> f64_eq (pos_y p) (pos_y q))"

definition spell_position :: "entity \<Rightarrow> string" where
  "spell_position e = f64_display (pos_x (ent_position e)) @ '', '' @ f64_display (pos_y (ent_position e))"

definition compare_position :: "string \<Rightarrow> entity \<Rightarrow> entity \<Rightarrow> comparison \<Rightarrow> comparison" where
  "compare_position path e a c =
     (if position_eq (ent_position e) (ent_position a) then counts_mut Positions count_match c
      else record_difference Positions
        (changed (path @ ''.position'') (spell_position e) (spell_position a)) c)"

definition flagged :: "attribute \<Rightarrow> bool" where
  "flagged a = (attr_primary_key a \<or> attr_unique a)"

definition spell_key :: "attribute \<Rightarrow> string" where
  "spell_key a = (case (attr_primary_key a, attr_unique a) of
     (True, True) \<Rightarrow> ''primary key, unique''
   | (True, False) \<Rightarrow> ''primary key''
   | (False, True) \<Rightarrow> ''unique''
   | (False, False) \<Rightarrow> '''')"

definition compare_keys :: "string \<Rightarrow> attribute \<Rightarrow> attribute \<Rightarrow> comparison \<Rightarrow> comparison" where
  "compare_keys path e a c =
     (case (flagged e, flagged a) of
        (False, False) \<Rightarrow> c
      | (True, False) \<Rightarrow> record_difference Keys (missing path (spell_key e)) c
      | (False, True) \<Rightarrow> record_difference Keys (extra path (spell_key a)) c
      | (True, True) \<Rightarrow> settle Keys
          [field show_bool path ''primaryKey'' (attr_primary_key e) (attr_primary_key a),
           field show_bool path ''unique'' (attr_unique e) (attr_unique a)] c)"

definition compare_attribute :: "string \<Rightarrow> attribute \<Rightarrow> attribute \<Rightarrow> comparison \<Rightarrow> comparison" where
  "compare_attribute tab e a c =
     (let path = column_path tab (attr_name e);
          c1 = settle Columns
            [field data_type_fmt path ''dataType'' (attr_data_type e) (attr_data_type a),
             field show_bool path ''nullable'' (attr_nullable e) (attr_nullable a),
             field (\<lambda>s. s) path ''default'' (optional (attr_default_value e)) (optional (attr_default_value a))] c;
          c2 = compare_keys path e a c1
      in compare_description path (attr_description e) (attr_description a) c2)"

section \<open>Matching by name (compare.rs)\<close>

text \<open>
  The scan all the loops share: the first item that is not taken yet and satisfies \<open>p\<close>, with its
  position.
\<close>

fun find_free :: "('a \<Rightarrow> bool) \<Rightarrow> bool list \<Rightarrow> 'a list \<Rightarrow> nat option" where
  "find_free p (t # ts) (x # xs) = (if \<not> t \<and> p x then Some 0 else map_option Suc (find_free p ts xs))"
| "find_free p _ _ = None"

text \<open>The items left over, in order.\<close>

fun untaken :: "bool list \<Rightarrow> 'a list \<Rightarrow> 'a list" where
  "untaken (t # ts) (x # xs) = (if t then untaken ts xs else x # untaken ts xs)"
| "untaken _ _ = []"

fun match_entities ::
  "entity list \<Rightarrow> entity list \<Rightarrow> bool list \<Rightarrow> comparison \<Rightarrow> (entity \<times> entity) list \<times> bool list \<times> comparison" where
  "match_entities [] actual taken c = ([], taken, c)"
| "match_entities (l # ls) actual taken c =
     (case find_free (\<lambda>r. same (ent_name r) (ent_name l)) taken actual of
        Some i \<Rightarrow>
          (let (pairs, taken', c') = match_entities ls actual (taken[i := True]) (counts_mut Tables count_match c)
           in ((l, actual ! i) # pairs, taken', c'))
      | None \<Rightarrow> match_entities ls actual taken
          (record_difference Tables (missing (table_path (ent_name l)) (ent_name l)) c))"

definition compare_entities ::
  "entity list \<Rightarrow> entity list \<Rightarrow> comparison \<Rightarrow> (entity \<times> entity) list \<times> comparison" where
  "compare_entities expected actual c =
     (let (pairs, taken, c1) = match_entities expected actual (replicate (length actual) False) c in
      (pairs, fold (\<lambda>r. record_difference Tables (extra (table_path (ent_name r)) (ent_name r)))
         (untaken taken actual) c1))"

fun match_attributes ::
  "string \<Rightarrow> attribute list \<Rightarrow> attribute list \<Rightarrow> bool list \<Rightarrow> comparison \<Rightarrow> bool list \<times> comparison" where
  "match_attributes path [] actual taken c = (taken, c)"
| "match_attributes path (l # ls) actual taken c =
     (case find_free (\<lambda>r. same (attr_name r) (attr_name l)) taken actual of
        Some i \<Rightarrow> match_attributes path ls actual (taken[i := True]) (compare_attribute path l (actual ! i) c)
      | None \<Rightarrow> match_attributes path ls actual taken
          (record_difference Columns (missing (column_path path (attr_name l)) (attr_name l)) c))"

definition compare_entity :: "bool \<Rightarrow> entity \<times> entity \<Rightarrow> comparison \<Rightarrow> comparison" where
  "compare_entity with_positions = (\<lambda>(e, a) c.
     let path = table_path (ent_name e);
         c1 = compare_description path (ent_description e) (ent_description a) c;
         c2 = (if with_positions then compare_position path e a c1 else c1);
         (taken, c3) = match_attributes path (ent_attributes e) (ent_attributes a)
             (replicate (length (ent_attributes a)) False) c2
     in fold (\<lambda>r. record_difference Columns (extra (column_path path (attr_name r)) (attr_name r)))
          (untaken taken (ent_attributes a)) c3)"

section \<open>References and relationships (compare.rs)\<close>

definition point_at :: "schema_draft \<Rightarrow> string \<Rightarrow> string \<Rightarrow> string" where
  "point_at d eid aid =
     (case List.find (\<lambda>e. ent_id e = eid) (draft_entities d) of
        None \<Rightarrow> eid @ ''.'' @ aid
      | Some e \<Rightarrow> (case entity_attribute e aid of
            Some a \<Rightarrow> ent_name e @ ''.'' @ attr_name a
          | None \<Rightarrow> ent_name e @ ''.'' @ aid))"

definition references :: "schema_draft \<Rightarrow> (string \<times> string) list" where
  "references d = concat (map (\<lambda>e. concat (map (\<lambda>a.
     case attr_foreign_key a of
       None \<Rightarrow> []
     | Some r \<Rightarrow> [(ent_name e @ ''.'' @ attr_name a, point_at d (fk_entity_id r) (fk_attribute_id r))])
     (ent_attributes e))) (draft_entities d))"

definition links :: "schema_draft \<Rightarrow> string list" where
  "links d = map (\<lambda>r. point_at d (from_entity_id r) (from_attribute_id r) @ '' -> ''
     @ point_at d (to_entity_id r) (to_attribute_id r)) (draft_relationships d)"

definition compare_foreign_keys :: "schema_draft \<Rightarrow> schema_draft \<Rightarrow> comparison \<Rightarrow> comparison" where
  "compare_foreign_keys expected actual c =
     (let l = references expected; r = references actual;
          c1 = fold (\<lambda>(holder, target).
            let path = holder @ ''.foreignKey'' in
            case List.find (\<lambda>(name, _). same name holder) r of
              None \<Rightarrow> record_difference ForeignKeys (missing path target)
            | Some (_, found) \<Rightarrow>
                if same found target then counts_mut ForeignKeys count_match
                else record_difference ForeignKeys (changed path target found)) l c
      in fold (\<lambda>(holder, target).
            if \<not> list_ex (\<lambda>(name, _). same name holder) l
            then record_difference ForeignKeys (extra (holder @ ''.foreignKey'') target) else id) r c1)"

fun match_links ::
  "(relationship \<times> string) list \<Rightarrow> relationship list \<Rightarrow> string list \<Rightarrow> bool list \<Rightarrow> comparison \<Rightarrow> bool list \<times> comparison" where
  "match_links [] actual r taken c = (taken, c)"
| "match_links ((lnk, ends) # rest) actual r taken c =
     (let path = ''relationships['' @ ends @ '']'' in
      case find_free (\<lambda>other. same other ends) taken r of
        None \<Rightarrow> match_links rest actual r taken
          (record_difference Relationships (missing path (cardinality_as_str (rel_cardinality lnk))) c)
      | Some i \<Rightarrow>
          (let other = actual ! i;
               c1 = (if rel_cardinality other = rel_cardinality lnk then counts_mut Relationships count_match c
                     else record_difference Relationships
                       (changed path (cardinality_as_str (rel_cardinality lnk))
                          (cardinality_as_str (rel_cardinality other))) c)
           in match_links rest actual r (taken[i := True])
                (compare_description path (rel_description lnk) (rel_description other) c1)))"

definition compare_relationships :: "schema_draft \<Rightarrow> schema_draft \<Rightarrow> comparison \<Rightarrow> comparison" where
  "compare_relationships expected actual c =
     (let r = links actual;
          (taken, c1) = match_links (zip (draft_relationships expected) (links expected))
             (draft_relationships actual) r (replicate (length r) False) c
      in fold (\<lambda>(ends, other). record_difference Relationships
             (extra (''relationships['' @ ends @ '']'') (cardinality_as_str (rel_cardinality other))))
           (untaken taken (zip r (draft_relationships actual))) c1)"

definition compare :: "schema_draft \<Rightarrow> schema_draft \<Rightarrow> bool \<Rightarrow> comparison" where
  "compare expected actual with_positions =
     (let (pairs, c1) = compare_entities (draft_entities expected) (draft_entities actual) comparison_default;
          c2 = fold (compare_entity with_positions) pairs c1;
          c3 = compare_foreign_keys expected actual c2
      in compare_relationships expected actual c3)"

section \<open>A schema compared with itself\<close>

text \<open>Nothing was recorded against the comparison.\<close>

definition quiet :: "comparison \<Rightarrow> bool" where
  "quiet c = (differences c = [] \<and> (\<forall>cat. is_clean (cmp_counts c cat)))"

lemma quiet_default [simp]: "quiet comparison_default"
  by (simp add: quiet_def comparison_default_def counts_default_def is_clean_def)

lemma quiet_match [simp]: "quiet c \<Longrightarrow> quiet (counts_mut cat count_match c)"
  by (simp add: quiet_def counts_mut_def count_match_def is_clean_def)

lemma quiet_is_equal: "quiet c \<Longrightarrow> is_equal c"
  by (simp add: quiet_def is_equal_def list_all_iff)

lemma quiet_fold: "(\<And>x c. x \<in> set xs \<Longrightarrow> quiet c \<Longrightarrow> quiet (f x c)) \<Longrightarrow> quiet c \<Longrightarrow> quiet (fold f xs c)"
  by (induction xs arbitrary: c) simp_all

lemma same_refl [simp]: "same x x"
  by (simp add: same_def eq_ignore_ascii_case_def)

lemma quiet_description [simp]: "quiet c \<Longrightarrow> quiet (compare_description path d d c)"
  by (simp add: compare_description_def Let_def)

lemma quiet_attribute [simp]: "quiet c \<Longrightarrow> quiet (compare_attribute tab a a c)"
  by (simp add: compare_attribute_def compare_keys_def settle_def field_def Let_def split: bool.split)

lemma find_free_next:
  "length pre = k \<Longrightarrow> p x \<Longrightarrow> find_free p (replicate k True @ False # ts) (pre @ x # post) = Some k"
  by (induction k arbitrary: pre) (auto simp: length_Suc_conv)

lemma untaken_all [simp]: "untaken (replicate n True) xs = []"
  by (induction n arbitrary: xs) (simp, case_tac xs, auto)

lemma taken_step:
  "(replicate k True @ False # ts)[k := True] = replicate (Suc k) True @ ts"
  by (simp add: list_update_append replicate_append_same [symmetric])

lemma match_entities_self:
  assumes "es = pre @ ls"
  shows "\<exists>c'. match_entities ls es (replicate (length pre) True @ replicate (length ls) False) c =
    (map (\<lambda>e. (e, e)) ls, replicate (length es) True, c') \<and> (quiet c \<longrightarrow> quiet c')"
  using assms
proof (induction ls arbitrary: pre c)
  case (Cons l ls)
  define tk where "tk = replicate (length pre) True @ replicate (length (l # ls)) False"
  have found: "find_free (\<lambda>r. same (ent_name r) (ent_name l))
      tk es = Some (length pre)"
    unfolding tk_def using Cons.prems find_free_next [of pre "length pre" _ l "replicate (length ls) False" ls] by simp
  have upd: "tk[length pre := True] =
      replicate (length (pre @ [l])) True @ replicate (length ls) False"
    unfolding tk_def using taken_step [of "length pre" "replicate (length ls) False"] by simp
  obtain c' where "match_entities ls es (replicate (length (pre @ [l])) True @ replicate (length ls) False)
      (counts_mut Tables count_match c) = (map (\<lambda>e. (e, e)) ls, replicate (length es) True, c')"
    "quiet (counts_mut Tables count_match c) \<longrightarrow> quiet c'"
    using Cons.IH [of "pre @ [l]" "counts_mut Tables count_match c"] Cons.prems by auto
  moreover have "es ! length pre = l" using Cons.prems by (simp add: nth_append)
  ultimately have "match_entities (l # ls) es tk c = (map (\<lambda>e. (e, e)) (l # ls), replicate (length es) True, c')"
    "quiet c \<longrightarrow> quiet c'"
    by (simp_all add: found upd)
  then show ?case unfolding tk_def by blast
qed simp

lemma match_attributes_self:
  assumes "as = pre @ ls"
  shows "\<exists>c'. match_attributes path ls as (replicate (length pre) True @ replicate (length ls) False) c =
    (replicate (length as) True, c') \<and> (quiet c \<longrightarrow> quiet c')"
  using assms
proof (induction ls arbitrary: pre c)
  case (Cons l ls)
  define tk where "tk = replicate (length pre) True @ replicate (length (l # ls)) False"
  have found: "find_free (\<lambda>r. same (attr_name r) (attr_name l))
      tk as = Some (length pre)"
    unfolding tk_def using Cons.prems find_free_next [of pre "length pre" _ l "replicate (length ls) False" ls] by simp
  have upd: "tk[length pre := True] =
      replicate (length (pre @ [l])) True @ replicate (length ls) False"
    unfolding tk_def using taken_step [of "length pre" "replicate (length ls) False"] by simp
  have self: "as ! length pre = l" using Cons.prems by (simp add: nth_append)
  obtain c' where "match_attributes path ls as (replicate (length (pre @ [l])) True @ replicate (length ls) False)
      (compare_attribute path l l c) = (replicate (length as) True, c')"
    "quiet (compare_attribute path l l c) \<longrightarrow> quiet c'"
    using Cons.IH [of "pre @ [l]" "compare_attribute path l l c"] Cons.prems by auto
  then have "match_attributes path (l # ls) as tk c = (replicate (length as) True, c')" "quiet c \<longrightarrow> quiet c'"
    by (simp_all add: found upd self)
  then show ?case unfolding tk_def by blast
qed simp

lemma match_links_self:
  assumes "rs = pre @ ls" and "ends = map f rs"
  shows "\<exists>c'. match_links (zip ls (map f ls)) rs ends (replicate (length pre) True @ replicate (length ls) False) c =
    (replicate (length rs) True, c') \<and> (quiet c \<longrightarrow> quiet c')"
  using assms
proof (induction ls arbitrary: pre c)
  case (Cons l ls)
  define tk where "tk = replicate (length pre) True @ replicate (length (l # ls)) False"
  have found: "find_free (\<lambda>other. same other (f l))
      tk ends = Some (length pre)"
    unfolding tk_def using Cons.prems find_free_next [of "map f pre" "length pre" _ "f l" "replicate (length ls) False" "map f ls"] by simp
  have upd: "tk[length pre := True] =
      replicate (length (pre @ [l])) True @ replicate (length ls) False"
    unfolding tk_def using taken_step [of "length pre" "replicate (length ls) False"] by simp
  have self: "rs ! length pre = l" using Cons.prems by (simp add: nth_append)
  define c1 where "c1 = compare_description (''relationships['' @ f l @ '']'') (rel_description l)
    (rel_description l) (counts_mut Relationships count_match c)"
  obtain c' where "match_links (zip ls (map f ls)) rs ends (replicate (length (pre @ [l])) True @ replicate (length ls) False) c1
      = (replicate (length rs) True, c')" "quiet c1 \<longrightarrow> quiet c'"
    using Cons.IH [of "pre @ [l]" c1] Cons.prems by auto
  moreover have "quiet c \<longrightarrow> quiet c1" by (simp add: c1_def)
  ultimately have "match_links (zip (l # ls) (map f (l # ls))) rs ends tk c = (replicate (length rs) True, c')"
    "quiet c \<longrightarrow> quiet c'"
    by (simp_all add: found upd self c1_def Let_def)
  then show ?case unfolding tk_def by blast
qed simp

definition layout_known :: "entity \<Rightarrow> bool" where
  "layout_known e = (\<not> f64_is_nan (pos_x (ent_position e)) \<and> \<not> f64_is_nan (pos_y (ent_position e)))"

lemma quiet_entity:
  assumes "quiet c" and "with_positions \<longrightarrow> layout_known e"
  shows "quiet (compare_entity with_positions (e, e) c)"
proof -
  define c2 where "c2 = (let c1 = compare_description (table_path (ent_name e)) (ent_description e) (ent_description e) c
    in if with_positions then compare_position (table_path (ent_name e)) e e c1 else c1)"
  have "quiet c2"
    using assms by (auto simp: c2_def Let_def compare_position_def position_eq_def f64_eq_def layout_known_def)
  then show ?thesis
    using match_attributes_self [of "ent_attributes e" "[]" "ent_attributes e" "table_path (ent_name e)" c2]
    by (auto simp: compare_entity_def c2_def Let_def)
qed

text \<open>Foreign keys held under the same name point at the same name.\<close>

definition holders_consistent :: "schema_draft \<Rightarrow> bool" where
  "holders_consistent d = (\<forall>(h, t) \<in> set (references d). \<forall>(h', t') \<in> set (references d).
     same h' h \<longrightarrow> same t' t)"

lemma quiet_foreign_keys:
  assumes "quiet c" and "holders_consistent d"
  shows "quiet (compare_foreign_keys d d c)"
proof -
  have left: "quiet ((\<lambda>(holder, target).
            let path = holder @ ''.foreignKey'' in
            case List.find (\<lambda>(name, _). same name holder) (references d) of
              None \<Rightarrow> record_difference ForeignKeys (missing path target)
            | Some (_, found) \<Rightarrow>
                if same found target then counts_mut ForeignKeys count_match
                else record_difference ForeignKeys (changed path target found)) x c')"
    if x: "x \<in> set (references d)" and "quiet c'" for x c'
  proof -
    obtain h t where ht: "x = (h, t)" by (cases x)
    have "List.find (\<lambda>(name, _). same name h) (references d) \<noteq> None"
      using x ht by (auto simp: find_None_iff)
    then obtain h' t' where f: "List.find (\<lambda>(name, _). same name h) (references d) = Some (h', t')" by auto
    then have "(h', t') \<in> set (references d)" "same h' h" by (auto simp: find_Some_iff) (metis nth_mem)
    then have "same t' t" using assms(2) x ht by (auto simp: holders_consistent_def)
    then show ?thesis using \<open>quiet c'\<close> by (simp add: ht f)
  qed
  have right: "list_ex (\<lambda>(name, _). same name (fst x)) (references d)" if "x \<in> set (references d)" for x
    using that by (auto simp: list_ex_iff intro!: bexI [of _ x] split: prod.split)
  show ?thesis
    unfolding compare_foreign_keys_def Let_def
    by (intro quiet_fold) (use left [unfolded Let_def] right assms(1) in \<open>auto split: prod.splits\<close>)
qed

lemma quiet_relationships: "quiet c \<Longrightarrow> quiet (compare_relationships d d c)"
  using match_links_self [of "draft_relationships d" "[]" "draft_relationships d" "links d"
      "\<lambda>r. point_at d (from_entity_id r) (from_attribute_id r) @ '' -> '' @ point_at d (to_entity_id r) (to_attribute_id r)" c]
  by (auto simp: compare_relationships_def links_def)

lemma compare_self_quiet:
  assumes "holders_consistent d" and "with_positions \<longrightarrow> list_all layout_known (draft_entities d)"
  shows "quiet (compare d d with_positions)"
proof -
  obtain c1 where c1: "compare_entities (draft_entities d) (draft_entities d) comparison_default =
      (map (\<lambda>e. (e, e)) (draft_entities d), c1)" "quiet c1"
    using match_entities_self [of "draft_entities d" "[]" "draft_entities d" comparison_default]
    by (auto simp: compare_entities_def)
  have "quiet (fold (compare_entity with_positions) (map (\<lambda>e. (e, e)) (draft_entities d)) c1)"
    using assms(2) c1(2) by (intro quiet_fold) (auto simp: list_all_iff intro!: quiet_entity)
  then show ?thesis
    using assms(1) by (simp add: compare_def c1(1) quiet_foreign_keys quiet_relationships)
qed

section \<open>Accounting for tables\<close>

lemma counts_mut_counts: "cmp_counts (counts_mut cat f c) cat' = (if cat' = cat then f (cmp_counts c cat) else cmp_counts c cat')"
  by (simp add: counts_mut_def)

lemma record_counts:
  "cmp_counts (record_difference cat d c) cat' =
     (if cat' = cat then count_kind (diff_kind d) (cmp_counts c cat) else cmp_counts c cat')"
  by (simp add: record_difference_def Let_def counts_mut_counts)

lemma settle_counts:
  "cat' \<noteq> cat \<Longrightarrow> cmp_counts (settle cat fs c) cat' = cmp_counts c cat'"
  by (simp add: settle_def Let_def counts_mut_counts)

lemma fold_counts:
  "(\<And>x c. cmp_counts (f x c) cat = cmp_counts c cat) \<Longrightarrow> cmp_counts (fold f xs c) cat = cmp_counts c cat"
  by (induction xs arbitrary: c) simp_all

lemma compare_description_counts:
  "cat \<noteq> Descriptions \<Longrightarrow> cmp_counts (compare_description p e a c) cat = cmp_counts c cat"
  by (simp add: compare_description_def Let_def record_counts counts_mut_counts)

lemma compare_attribute_tables: "cmp_counts (compare_attribute p e a c) Tables = cmp_counts c Tables"
  by (simp add: compare_attribute_def Let_def compare_keys_def settle_counts record_counts
      compare_description_counts split: bool.split)

lemma match_attributes_tables: "cmp_counts (snd (match_attributes p ls as tk c)) Tables = cmp_counts c Tables"
  by (induction p ls as tk c rule: match_attributes.induct)
    (auto simp: record_counts compare_attribute_tables split: option.split)

lemma compare_entity_tables: "cmp_counts (compare_entity b x c) Tables = cmp_counts c Tables"
proof -
  obtain e a where x: "x = (e, a)" by (cases x)
  define c2 where "c2 = (let c1 = compare_description (table_path (ent_name e)) (ent_description e) (ent_description a) c
    in if b then compare_position (table_path (ent_name e)) e a c1 else c1)"
  have "cmp_counts c2 Tables = cmp_counts c Tables"
    by (simp add: c2_def Let_def compare_position_def record_counts counts_mut_counts compare_description_counts)
  then show ?thesis
    using match_attributes_tables [of "table_path (ent_name e)" "ent_attributes e" "ent_attributes a"
        "replicate (length (ent_attributes a)) False" c2]
    by (simp add: compare_entity_def x c2_def Let_def case_prod_beta record_counts fold_counts split: if_splits)
qed

lemma match_links_tables: "cmp_counts (snd (match_links ls rs es tk c)) Tables = cmp_counts c Tables"
  by (induction ls rs es tk c rule: match_links.induct)
    (auto simp: Let_def record_counts counts_mut_counts compare_description_counts split: option.split)

lemma compare_foreign_keys_tables: "cmp_counts (compare_foreign_keys d d' c) Tables = cmp_counts c Tables"
  unfolding compare_foreign_keys_def Let_def
  by (subst fold_counts, simp add: record_counts split: prod.split)
    (rule fold_counts, simp add: record_counts counts_mut_counts split: prod.split option.split)

lemma compare_relationships_tables: "cmp_counts (compare_relationships d d' c) Tables = cmp_counts c Tables"
  using match_links_tables
  by (simp add: compare_relationships_def Let_def case_prod_beta fold_counts record_counts)

lemma find_free_Some:
  "find_free p tk xs = Some i \<Longrightarrow> i < length tk \<and> i < length xs \<and> \<not> tk ! i \<and> p (xs ! i)"
  by (induction p tk xs arbitrary: i rule: find_free.induct) (auto split: if_splits simp: less_Suc_eq_0_disj)

lemma count_free_update:
  "i < length tk \<Longrightarrow> \<not> tk ! i \<Longrightarrow> length (filter Not tk) = Suc (length (filter Not (tk[i := True])))"
  by (induction tk arbitrary: i) (auto simp: less_Suc_eq_0_disj nth_Cons split: nat.splits)

lemma length_untaken: "length tk = length xs \<Longrightarrow> length (untaken tk xs) = length (filter Not tk)"
  by (induction tk xs rule: untaken.induct) auto

lemma match_entities_counts:
  assumes "match_entities ls as tk c = (pairs, tk', c')"
  shows "length tk' = length tk \<and> length (filter Not tk) = length (filter Not tk') + length pairs \<and>
    length pairs \<le> length ls \<and>
    cmp_counts c' Tables = (cmp_counts c Tables)
      \<lparr>n_matched := n_matched (cmp_counts c Tables) + of_nat (length pairs),
       n_missing := n_missing (cmp_counts c Tables) + of_nat (length ls - length pairs)\<rparr>"
  using assms
proof (induction ls arbitrary: tk c pairs)
  case (Cons l ls)
  show ?case
  proof (cases "find_free (\<lambda>r. same (ent_name r) (ent_name l)) tk as")
    case None
    then have "match_entities ls as tk (record_difference Tables (missing (table_path (ent_name l)) (ent_name l)) c)
        = (pairs, tk', c')" using Cons.prems by simp
    from Cons.IH [OF this] show ?thesis by (simp add: record_counts missing_def Suc_diff_le)
  next
    case (Some i)
    then obtain ps where ps: "pairs = (l, as ! i) # ps"
      "match_entities ls as (tk[i := True]) (counts_mut Tables count_match c) = (ps, tk', c')"
      using Cons.prems by (auto split: prod.splits)
    have "i < length tk" "\<not> tk ! i" using find_free_Some [OF Some] by auto
    then show ?thesis
      using Cons.IH [OF ps(2)] ps(1) count_free_update [of i tk]
      by (simp add: counts_mut_counts count_match_def)
  qed
qed simp

lemma fold_extra_counts:
  "cmp_counts (fold (\<lambda>r. record_difference Tables (extra (p r) (q r))) xs c) Tables =
     (cmp_counts c Tables)\<lparr>n_extra := n_extra (cmp_counts c Tables) + of_nat (length xs)\<rparr>"
  by (induction xs arbitrary: c) (simp_all add: record_counts extra_def)

lemma compare_tables:
  "\<exists>m. m \<le> length (draft_entities e) \<and> m \<le> length (draft_entities a) \<and>
     cmp_counts (compare e a b) Tables =
       \<lparr>n_matched = of_nat m, n_missing = of_nat (length (draft_entities e) - m),
        n_extra = of_nat (length (draft_entities a) - m), n_changed = 0\<rparr>"
proof -
  let ?e = "draft_entities e" and ?a = "draft_entities a"
  obtain pairs tk c1 where m: "match_entities ?e ?a (replicate (length ?a) False) comparison_default = (pairs, tk, c1)"
    by (metis prod_cases3)
  have len: "length tk = length ?a" "length ?a = length (filter Not tk) + length pairs" "length pairs \<le> length ?e"
    using match_entities_counts [OF m] by (simp_all add: filter_replicate)
  have "cmp_counts (compare e a b) Tables = cmp_counts (snd (compare_entities ?e ?a comparison_default)) Tables"
    by (simp add: compare_def case_prod_beta compare_relationships_tables compare_foreign_keys_tables
        fold_counts compare_entity_tables)
  also have "\<dots> = \<lparr>n_matched = of_nat (length pairs), n_missing = of_nat (length ?e - length pairs),
      n_extra = of_nat (length ?a - length pairs), n_changed = 0\<rparr>"
  proof -
    have c1: "cmp_counts c1 Tables = \<lparr>n_matched = of_nat (length pairs),
        n_missing = of_nat (length ?e - length pairs), n_extra = 0, n_changed = 0\<rparr>"
      using match_entities_counts [OF m] by (simp add: comparison_default_def counts_default_def)
    have "length (untaken tk ?a) = length ?a - length pairs" using len by (simp add: length_untaken)
    then show ?thesis by (simp only: compare_entities_def m fold_extra_counts c1) (simp add: fold_extra_counts c1)
  qed
  finally show ?thesis using len by (intro exI [of _ "length pairs"]) auto
qed

end
