(* ===== verification/Schema_Service.thy ===== *)
theory Schema_Service
  imports Repository Verifier Generator Exchange_Json Compare
begin

text \<open>
  The schema service, \<^verbatim>\<open>module/schema/core/service/schema.rs\<close>, over the ports of
  \<^verbatim>\<open>module/schema/core/ports.rs\<close>. A trait object is a record of its methods, so the service is
  written over any repository, verifier and generators, and \<open>services\<close> wires the ones
  \<^verbatim>\<open>module/schema/service.rs\<close> wires. A repository method takes the number of the repository call
  within the request, because each call meets its own database failures.
\<close>

section \<open>Ports\<close>

record 'st repository =
  repo_index :: "nat \<Rightarrow> uuid \<Rightarrow> list_request \<Rightarrow> 'st \<Rightarrow> domain_error + schema_summary list \<times> i64"
  repo_create :: "nat \<Rightarrow> uuid \<Rightarrow> schema_draft \<Rightarrow> 'st \<Rightarrow> (domain_error + schema) \<times> 'st"
  repo_find_by_id :: "nat \<Rightarrow> uuid \<Rightarrow> string \<Rightarrow> 'st \<Rightarrow> domain_error + schema option"
  repo_find_by_name :: "nat \<Rightarrow> uuid \<Rightarrow> string \<Rightarrow> 'st \<Rightarrow> domain_error + schema option"
  repo_replace :: "nat \<Rightarrow> uuid \<Rightarrow> string \<Rightarrow> schema_draft \<Rightarrow> 'st \<Rightarrow> (domain_error + schema) \<times> 'st"
  repo_delete :: "nat \<Rightarrow> uuid \<Rightarrow> string \<Rightarrow> 'st \<Rightarrow> (domain_error + unit) \<times> 'st"

record generator =
  gen_dialect :: dialect
  gen_generate :: "schema \<Rightarrow> generate_options \<Rightarrow> string"

definition generate_options_default :: generate_options where
  "generate_options_default = \<lparr>include_comments = True, include_positions = True\<rparr>"

datatype validation_target = Stored string | Draft schema

record generate_request =
  gr_target :: validation_target
  gr_dialect :: dialect
  gr_options :: generate_options

record export_request =
  er_target :: validation_target
  er_format :: exchange_format
  er_include_positions :: bool

record import_request =
  ir_content :: string
  ir_format :: exchange_format
  ir_include_positions :: bool

record compare_request =
  cr_expected :: validation_target
  cr_actual :: validation_target
  cr_include_positions :: bool

record imported =
  imp_draft :: schema
  imp_report :: report

record generated =
  gen_ddl :: string
  gen_report :: report

section \<open>The service\<close>

record 'st schema_service =
  svc_repository :: "'st repository"
  svc_verifier :: "schema \<Rightarrow> report"
  svc_generators :: "generator list"

definition MAX_NAME_LENGTH :: nat where "MAX_NAME_LENGTH = 120"

definition check_draft :: "schema_draft \<Rightarrow> sf_error + unit" where
  "check_draft d =
     (let e0 = validation ''failed payload validation'';
          e1 = (if trim (draft_name d) = '''' then push_violation ''name'' ''field is required and cannot be empty'' e0 else e0);
          e2 = (if MAX_NAME_LENGTH < length (draft_name d)
                then push_violation ''name'' (''field must be at most '' @ show_nat MAX_NAME_LENGTH @ '' characters'') e1
                else e1)
      in if has_violations e2 then Inl e2 else Inr ())"

fun domain_error_fmt :: "domain_error \<Rightarrow> string" where
  "domain_error_fmt SchemaNotFound = ''schema does not exist''"
| "domain_error_fmt (DuplicateSchemaName name) = ''a schema named `'' @ name @ ''` already exists''"
| "domain_error_fmt (Storage e) = ''storage failure: '' @ e"

fun to_error :: "domain_error \<Rightarrow> sf_error" where
  "to_error SchemaNotFound = not_found ''schema does not exist''"
| "to_error (DuplicateSchemaName name) = conflict (''a schema named `'' @ name @ ''` already exists'')"
| "to_error (Storage e) = unknown (domain_error_fmt (Storage e))"

definition map_err :: "('e \<Rightarrow> 'f) \<Rightarrow> 'e + 'a \<Rightarrow> 'f + 'a" where
  "map_err f r = (case r of Inl e \<Rightarrow> Inl (f e) | Inr x \<Rightarrow> Inr x)"

definition service_index ::
  "'st schema_service \<Rightarrow> uuid \<Rightarrow> list_request \<Rightarrow> 'st \<Rightarrow> sf_error + schema_summary paged_data" where
  "service_index svc caller request st =
     bind_ok (map_err to_error (repo_index (svc_repository svc) 0 caller request st)) (\<lambda>(summaries, total_rows).
       Inr (data_new summaries total_rows (lr_page request) (lr_per_page request)))"

definition service_create ::
  "'st schema_service \<Rightarrow> uuid \<Rightarrow> schema_draft \<Rightarrow> 'st \<Rightarrow> (sf_error + schema) \<times> 'st" where
  "service_create svc caller d st =
     (case check_draft d of
        Inl e \<Rightarrow> (Inl e, st)
      | Inr _ \<Rightarrow> apfst (map_err to_error) (repo_create (svc_repository svc) 0 caller d st))"

definition service_find_by_id ::
  "'st schema_service \<Rightarrow> nat \<Rightarrow> uuid \<Rightarrow> string \<Rightarrow> 'st \<Rightarrow> sf_error + schema" where
  "service_find_by_id svc call caller ident st =
     bind_ok (map_err to_error (repo_find_by_id (svc_repository svc) call caller ident st)) (\<lambda>found.
       case found of None \<Rightarrow> Inl (not_found ''schema does not exist'') | Some s \<Rightarrow> Inr s)"

definition service_replace ::
  "'st schema_service \<Rightarrow> uuid \<Rightarrow> string \<Rightarrow> schema_draft \<Rightarrow> 'st \<Rightarrow> (sf_error + schema) \<times> 'st" where
  "service_replace svc caller ident d st =
     (case check_draft d of
        Inl e \<Rightarrow> (Inl e, st)
      | Inr _ \<Rightarrow> apfst (map_err to_error) (repo_replace (svc_repository svc) 0 caller ident d st))"

definition service_delete :: "'st schema_service \<Rightarrow> uuid \<Rightarrow> string \<Rightarrow> 'st \<Rightarrow> (sf_error + unit) \<times> 'st" where
  "service_delete svc caller ident st =
     apfst (map_err to_error) (repo_delete (svc_repository svc) 0 caller ident st)"

definition resolve_target ::
  "'st schema_service \<Rightarrow> nat \<Rightarrow> uuid \<Rightarrow> validation_target \<Rightarrow> 'st \<Rightarrow> sf_error + schema" where
  "resolve_target svc call caller target st =
     (case target of
        Stored ident \<Rightarrow> service_find_by_id svc call caller ident st
      | Draft s \<Rightarrow> Inr s)"

definition generator_for :: "'st schema_service \<Rightarrow> dialect \<Rightarrow> sf_error + generator" where
  "generator_for svc d =
     (case List.find (\<lambda>g. gen_dialect g = d) (svc_generators svc) of
        None \<Rightarrow> Inl (unimplemented (''no generator targets '' @ dialect_as_str d @ '' yet''))
      | Some g \<Rightarrow> Inr g)"

definition service_validate :: "'st schema_service \<Rightarrow> uuid \<Rightarrow> validation_target \<Rightarrow> 'st \<Rightarrow> sf_error + report" where
  "service_validate svc caller target st =
     bind_ok (resolve_target svc 0 caller target st) (\<lambda>s. Inr (svc_verifier svc s))"

definition service_generate_ddl ::
  "'st schema_service \<Rightarrow> uuid \<Rightarrow> generate_request \<Rightarrow> 'st \<Rightarrow> sf_error + generated" where
  "service_generate_ddl svc caller request st =
     bind_ok (generator_for svc (gr_dialect request)) (\<lambda>g.
     bind_ok (resolve_target svc 0 caller (gr_target request) st) (\<lambda>s.
       let report = svc_verifier svc s in
       if \<not> is_valid report then Inr \<lparr>gen_ddl = '''', gen_report = report\<rparr>
       else Inr \<lparr>gen_ddl = gen_generate g s (gr_options request), gen_report = report\<rparr>))"

definition service_export ::
  "(json \<Rightarrow> string) \<Rightarrow> 'st schema_service \<Rightarrow> uuid \<Rightarrow> export_request \<Rightarrow> 'st \<Rightarrow> sf_error + exported" where
  "service_export print svc caller request st =
     bind_ok (resolve_target svc 0 caller (er_target request) st) (\<lambda>s.
       export print s (er_format request) (er_include_positions request))"

definition service_import ::
  "(string \<Rightarrow> string + json) \<Rightarrow> (nat \<Rightarrow> string) \<Rightarrow> timestamp \<Rightarrow> import_request \<Rightarrow> sf_error + imported" where
  "service_import parse ids now request =
     bind_ok (import parse ids (ir_content request) (ir_format request) (ir_include_positions request)) (\<lambda>(d, report).
       Inr \<lparr>imp_draft = schema_new '''' d now, imp_report = report\<rparr>)"

definition service_compare ::
  "'st schema_service \<Rightarrow> uuid \<Rightarrow> compare_request \<Rightarrow> 'st \<Rightarrow> sf_error + comparison" where
  "service_compare svc caller request st =
     bind_ok (resolve_target svc 0 caller (cr_expected request) st) (\<lambda>expected.
     bind_ok (resolve_target svc 1 caller (cr_actual request) st) (\<lambda>actual.
       Inr (compare (draft expected) (draft actual) (cr_include_positions request))))"

section \<open>Wiring\<close>

definition pg_repository :: "store_env \<Rightarrow> (nat \<Rightarrow> faults) \<Rightarrow> uuid \<Rightarrow> timestamp \<Rightarrow> store repository" where
  "pg_repository env outages new_id now =
     \<lparr>repo_index = \<lambda>call. pg_index env (outages call),
      repo_create = \<lambda>call. pg_create env (outages call) new_id now,
      repo_find_by_id = \<lambda>call. pg_find_by_id env (outages call),
      repo_find_by_name = \<lambda>call. pg_find_by_name env (outages call),
      repo_replace = \<lambda>call. pg_replace env (outages call) now,
      repo_delete = \<lambda>call. pg_delete env (outages call)\<rparr>"

definition services :: "store_env \<Rightarrow> (nat \<Rightarrow> faults) \<Rightarrow> uuid \<Rightarrow> timestamp \<Rightarrow> store schema_service" where
  "services env outages new_id now =
     \<lparr>svc_repository = pg_repository env outages new_id now,
      svc_verifier = verify,
      svc_generators = [\<lparr>gen_dialect = Postgres, gen_generate = generate\<rparr>]\<rparr>"

section \<open>What a request may do to the store\<close>

lemma map_err_simps [simp]:
  "map_err f r = Inr x \<longleftrightarrow> r = Inr x" "map_err f r = Inl e' \<longleftrightarrow> (\<exists>e. r = Inl e \<and> e' = f e)"
  by (auto simp: map_err_def split: sum.split)

lemma apfst_map_err [simp]:
  "apfst (map_err f) r = (Inr x, st') \<longleftrightarrow> r = (Inr x, st')"
  "apfst (map_err f) r = (Inl e', st') \<longleftrightarrow> (\<exists>e. r = (Inl e, st') \<and> e' = f e)"
  by (cases r; auto)+

datatype service_write =
    Create_schema uuid schema_draft
  | Replace_schema uuid string schema_draft
  | Delete_schema uuid string

fun writer :: "service_write \<Rightarrow> uuid" where
  "writer (Create_schema caller _) = caller"
| "writer (Replace_schema caller _ _) = caller"
| "writer (Delete_schema caller _) = caller"

fun apply_write :: "'st schema_service \<Rightarrow> service_write \<Rightarrow> 'st \<Rightarrow> 'st" where
  "apply_write svc (Create_schema caller d) st = snd (service_create svc caller d st)"
| "apply_write svc (Replace_schema caller ident d) st = snd (service_replace svc caller ident d st)"
| "apply_write svc (Delete_schema caller ident) st = snd (service_delete svc caller ident st)"

text \<open>
  A service over a repository that keeps the contract of the store, and whose lookups answer from
  the caller's own schemas.
\<close>

locale backed_service =
  schema_store view ok parse "repo_create (svc_repository svc) 0" "repo_replace (svc_repository svc) 0"
    "repo_delete (svc_repository svc) 0"
  for view :: "'st \<Rightarrow> uuid \<Rightarrow> 'k \<Rightarrow> schema option" and ok :: "'st \<Rightarrow> bool"
    and parse :: "string \<Rightarrow> 'k option" and svc :: "'st schema_service" +
  assumes find_some: "repo_find_by_id (svc_repository svc) call p i st = Inr (Some s) \<Longrightarrow>
      \<exists>k. parse i = Some k \<and> view st p k = Some s"
    and find_none: "repo_find_by_id (svc_repository svc) call p i st = Inr None \<Longrightarrow>
      parse i = Some k \<Longrightarrow> view st p k = None"
begin

lemma write_ok: "ok st \<Longrightarrow> ok (apply_write svc w st)"
  using create_keeps_ok replace_keeps_ok delete_keeps_ok
  by (cases w) (auto simp: service_create_def service_replace_def service_delete_def split: sum.split)

lemma write_isolated: "ok st \<Longrightarrow> p \<noteq> writer w \<Longrightarrow> view (apply_write svc w st) p = view st p"
  using create_isolated replace_isolated delete_isolated
  by (cases w) (auto simp: service_create_def service_replace_def service_delete_def split: sum.split)

lemma create_refused: "service_create svc caller d st = (Inl e, st') \<Longrightarrow> st' = st"
  by (auto simp: service_create_def split: sum.splits dest: create_error)

lemma replace_refused: "service_replace svc caller i d st = (Inl e, st') \<Longrightarrow> st' = st"
  by (auto simp: service_replace_def split: sum.splits dest: replace_error)

lemma delete_refused: "service_delete svc caller i st = (Inl e, st') \<Longrightarrow> st' = st"
  by (auto simp: service_delete_def dest: delete_error)

text \<open>What a target resolves to is the caller's own schema, or the draft the caller sent.\<close>

lemma find_own: "service_find_by_id svc call p i st = Inr s \<Longrightarrow> \<exists>k. parse i = Some k \<and> view st p k = Some s"
  by (auto simp: service_find_by_id_def bind_ok_def split: sum.splits option.splits dest: find_some)

lemma resolve_own:
  "resolve_target svc call p t st = Inr s \<Longrightarrow>
     t = Draft s \<or> (\<exists>i k. t = Stored i \<and> parse i = Some k \<and> view st p k = Some s)"
  by (cases t) (auto simp: resolve_target_def dest: find_own)

lemma find_stranger:
  assumes "parse i = Some k" and "view st p k = None"
  shows "\<exists>e. service_find_by_id svc call p i st = Inl e"
  using find_own [of call p i st] assms by (cases "service_find_by_id svc call p i st") auto

end

lemma pg_find_view:
  "pg_find_by_id env fault p i st = Inr (Some s) \<Longrightarrow> \<exists>u. parse_uuid env i = Some u \<and> pg_view env st p u = Some s"
  by (auto simp: pg_find_by_id_def pg_view_eq find_row_def find_owned split: option.splits sum.splits if_splits)

lemma pg_find_none:
  "pg_find_by_id env fault p i st = Inr None \<Longrightarrow> parse_uuid env i = Some u \<Longrightarrow> pg_view env st p u = None"
  by (auto simp: pg_find_by_id_def pg_view_eq find_row_def find_owned split: option.splits sum.splits if_splits)

lemma pg_find_calm:
  "parse_uuid env i = Some u \<Longrightarrow> pg_view env st p u = Some s \<Longrightarrow> fault 0 = None \<Longrightarrow>
     pg_find_by_id env fault p i st = Inr (Some s)"
  by (auto simp: pg_find_by_id_def pg_view_eq find_row_def find_owned split: option.splits sum.splits if_splits)

lemma services_simps [simp]:
  "repo_create (svc_repository (services env outages new_id now)) c = pg_create env (outages c) new_id now"
  "repo_replace (svc_repository (services env outages new_id now)) c = pg_replace env (outages c) now"
  "repo_delete (svc_repository (services env outages new_id now)) c = pg_delete env (outages c)"
  "repo_find_by_id (svc_repository (services env outages new_id now)) c = pg_find_by_id env (outages c)"
  "repo_index (svc_repository (services env outages new_id now)) c = pg_index env (outages c)"
  "svc_verifier (services env outages new_id now) = verify"
  "svc_generators (services env outages new_id now) = [\<lparr>gen_dialect = Postgres, gen_generate = generate\<rparr>]"
  by (simp_all add: services_def pg_repository_def)

interpretation live: backed_service "pg_view env" store_ok "parse_uuid env" "services env outages new_id now"
  for env outages new_id now
proof (intro backed_service.intro backed_service_axioms.intro)
  show "schema_store (pg_view env) store_ok (parse_uuid env)
      (repo_create (svc_repository (services env outages new_id now)) 0)
      (repo_replace (svc_repository (services env outages new_id now)) 0)
      (repo_delete (svc_repository (services env outages new_id now)) 0)"
    unfolding services_simps by (rule pg.schema_store_axioms)
qed (auto dest: pg_find_view pg_find_none)

section \<open>Every reachable store\<close>

definition empty_store :: store where
  "empty_store = \<lparr>schema_rows = [], owner_rows = []\<rparr>"

text \<open>
  A store is reachable when some sequence of requests leads to it, whoever sends them, whatever the
  clock and the id generator say and whichever statements fail.
\<close>

inductive reachable :: "store_env \<Rightarrow> store \<Rightarrow> bool" for env where
  reachable_init: "reachable env empty_store"
| reachable_write: "reachable env st \<Longrightarrow> reachable env (apply_write (services env outages new_id now) w st)"

lemma empty_store_ok: "store_ok empty_store"
  by (simp add: store_ok_def empty_store_def names_unique_def owned_rows_def)

lemma reachable_ok: "reachable env st \<Longrightarrow> store_ok st"
  by (induction rule: reachable.induct) (auto intro: empty_store_ok live.write_ok)

type_synonym served = "(nat \<Rightarrow> faults) \<times> uuid \<times> timestamp \<times> service_write"

fun serve_all :: "store_env \<Rightarrow> served list \<Rightarrow> store \<Rightarrow> store" where
  "serve_all env [] st = st"
| "serve_all env ((outages, new_id, now, w) # rest) st =
     serve_all env rest (apply_write (services env outages new_id now) w st)"

lemma serve_all_ok: "store_ok st \<Longrightarrow> store_ok (serve_all env ws st)"
  by (induction env ws st rule: serve_all.induct) (auto intro: live.write_ok)

lemma serve_all_reachable: "reachable env st \<Longrightarrow> reachable env (serve_all env ws st)"
  by (induction env ws st rule: serve_all.induct) (auto intro: reachable_write)

lemma serve_all_isolated:
  "store_ok st \<Longrightarrow> p \<notin> (\<lambda>(_, _, _, w). writer w) ` set ws \<Longrightarrow> pg_view env (serve_all env ws st) p = pg_view env st p"
  by (induction env ws st rule: serve_all.induct) (auto simp: live.write_ok live.write_isolated)

section \<open>What each request answers\<close>

lemma check_draft_iff:
  "check_draft d = Inr () \<longleftrightarrow> trim (draft_name d) \<noteq> '''' \<and> length (draft_name d) \<le> MAX_NAME_LENGTH"
  by (simp add: check_draft_def Let_def validation_def)

lemma check_draft_error:
  "check_draft d = Inl e \<Longrightarrow> app_code e = VALIDATION_FAILED \<and> has_violations e"
  by (auto simp: check_draft_def Let_def validation_def split: if_splits)

lemma create_answers:
  assumes "check_draft d = Inr ()" "\<not> name_taken st caller (draft_name d) None"
    and "new_id \<notin> row_id ` set (schema_rows st)" "layout_finite (draft_entities d)" "outages 0 = (\<lambda>_. None)"
  shows "fst (service_create (services env outages new_id now) caller d st) = Inr (schema_new (show_uuid env new_id) d now)"
proof -
  obtain es rs where dr: "drawing d = (es, rs)" by fastforce
  show ?thesis using assms
    by (auto simp: service_create_def pg_create_def dr reserve_name_def map_schema_drawing [OF dr]
        schema_new_def map_err_def)
qed

lemma create_find:
  assumes "store_ok st" and "service_create (services env outages new_id now) caller d st = (Inr s, st')"
    and "parse_uuid env (show_uuid env new_id) = Some new_id" and "outages' call 0 = None"
  shows "service_find_by_id (services env outages' new_id' now') call caller (sch_id s) st' = Inr s"
proof -
  have made: "pg_create env (outages 0) new_id now caller d st = (Inr s, st')"
    using assms(2) by (auto simp: service_create_def split: sum.splits)
  have "pg_view env st' caller new_id = Some s"
    using pg_view_create(1) [OF assms(1) made] by simp
  moreover have "parse_uuid env (sch_id s) = Some new_id"
    using made by (rule pg_createE) (simp add: schema_new_def assms(3))
  ultimately show ?thesis
    using pg_find_calm assms(4) by (simp add: service_find_by_id_def bind_ok_def map_err_def)
qed

lemma replace_find:
  assumes "store_ok st" and "service_replace (services env outages new_id now) caller i d st = (Inr s, st')"
    and "outages' call 0 = None"
  shows "service_find_by_id (services env outages' new_id' now') call caller i st' = Inr s"
proof -
  have made: "pg_replace env (outages 0) now caller i d st = (Inr s, st')"
    using assms(2) by (auto simp: service_replace_def split: sum.splits)
  obtain u where "parse_uuid env i = Some u" "pg_view env st' caller u = Some s"
    using pg_view_replace [OF assms(1) made] by auto
  then show ?thesis
    using pg_find_calm assms(3) by (simp add: service_find_by_id_def bind_ok_def map_err_def)
qed

lemma delete_find:
  assumes "store_ok st" and "service_delete (services env outages new_id now) caller i st = (Inr x, st')"
  shows "\<exists>e. service_find_by_id (services env outages' new_id' now') call caller i st' = Inl e"
proof -
  have gone: "pg_delete env (outages 0) caller i st = (Inr x, st')"
    using assms(2) by (auto simp: service_delete_def)
  obtain u where "parse_uuid env i = Some u" "pg_view env st' caller u = None"
    using pg_view_delete [OF assms(1) gone] by auto
  then show ?thesis by (rule live.find_stranger)
qed

lemma create_duplicate:
  assumes "check_draft d = Inr ()" "name_taken st caller (draft_name d) None" "outages 0 = (\<lambda>_. None)"
  shows "service_create (services env outages new_id now) caller d st =
    (Inl (conflict (''a schema named `'' @ draft_name d @ ''` already exists'')), st)"
  using assms by (simp add: service_create_def pg_create_def drawing_def reserve_name_def map_err_def)

lemma generate_ddl_answer:
  assumes "service_generate_ddl (services env outages new_id now) caller request st = Inr g"
  obtains s where "gr_dialect request = Postgres"
    "resolve_target (services env outages new_id now) 0 caller (gr_target request) st = Inr s"
    "gen_report g = verify s"
    "gen_ddl g = (if well_formed s then generate s (gr_options request) else '''')"
  using assms that
  by (auto simp: service_generate_ddl_def generator_for_def bind_ok_def Let_def verify_valid_iff
      split: sum.splits if_splits)

lemma generate_ddl_mysql:
  "gr_dialect request = MySql \<Longrightarrow> service_generate_ddl (services env outages new_id now) caller request st =
     Inl (unimplemented ''no generator targets mysql yet'')"
  by (simp add: service_generate_ddl_def generator_for_def bind_ok_def)

section \<open>Listings\<close>

text \<open>The rows a listing walks, in the order of the query.\<close>

definition listed_rows :: "store \<Rightarrow> uuid \<Rightarrow> schema_row list" where
  "listed_rows st owner = concat (map (\<lambda>w. filter (\<lambda>row. row_id row = own_schema w) (schema_rows st))
     (sort_key (\<lambda>w. (own_created_at w, own_schema w)) (filter (\<lambda>w. own_user w = owner) (owner_rows st))))"

lemma filter_key:
  assumes "distinct (map f xs)" and "u \<in> f ` set xs"
  shows "\<exists>x. filter (\<lambda>x. f x = u) xs = [x] \<and> x \<in> set xs \<and> f x = u"
  using assms
proof (induction xs)
  case (Cons a xs)
  show ?case
  proof (cases "f a = u")
    case True
    then have "filter (\<lambda>x. f x = u) xs = []" using Cons.prems(1)
      by (auto simp: filter_empty_conv) (metis imageI)
    then show ?thesis using True by simp
  qed (use Cons in auto)
qed simp

lemma listed_ids:
  assumes "distinct (map row_id rows)" and "own_schema ` set ws \<subseteq> row_id ` set rows"
  shows "map row_id (concat (map (\<lambda>w. filter (\<lambda>row. row_id row = own_schema w) rows) ws)) = map own_schema ws"
  using assms(2)
proof (induction ws)
  case (Cons w ws)
  then obtain x where "filter (\<lambda>row. row_id row = own_schema w) rows = [x]" "row_id x = own_schema w"
    using filter_key [OF assms(1), of "own_schema w"] by auto
  then show ?case using Cons by simp
qed simp

lemma listed_rows_ids:
  assumes "store_ok st"
  shows "map row_id (listed_rows st owner) = map own_schema
    (sort_key (\<lambda>w. (own_created_at w, own_schema w)) (filter (\<lambda>w. own_user w = owner) (owner_rows st)))"
  unfolding listed_rows_def using assms by (intro listed_ids) (auto simp: store_ok_def)

text \<open>A caller's own schemas, each of them once.\<close>

lemma listed_rows_own:
  assumes "store_ok st"
  shows "set (listed_rows st owner) = set (owned_rows st owner)" and "distinct (map row_id (listed_rows st owner))"
    and "length (listed_rows st owner) = length (filter (\<lambda>w. own_user w = owner) (owner_rows st))"
proof -
  show "set (listed_rows st owner) = set (owned_rows st owner)"
    by (auto simp: listed_rows_def owned_rows_def owns_def list_ex_iff)
  have "distinct (map own_schema (filter (\<lambda>w. own_user w = owner) (owner_rows st)))"
    using assms by (simp add: store_ok_def distinct_map inj_on_def)
  then show "distinct (map row_id (listed_rows st owner))"
    unfolding listed_rows_ids [OF assms] by (simp add: distinct_map)
  show "length (listed_rows st owner) = length (filter (\<lambda>w. own_user w = owner) (owner_rows st))"
    using arg_cong [OF listed_rows_ids [OF assms, of owner], of length] by simp
qed

lemma index_page:
  assumes "store_ok st" "request_ok r" "sint (lr_page r) \<le> 2 ^ 56" "outages 0 = (\<lambda>_. None)"
  shows "service_index (services env outages new_id now) caller r st =
    Inr (data_new (map (map_summary env) (take (nat (sint (lr_per_page r)))
        (drop (nat (sint (lr_page r) - 1) * nat (sint (lr_per_page r))) (listed_rows st caller))))
      (of_nat (length (listed_rows st caller))) (lr_page r) (lr_per_page r))"
proof -
  have "nat (sint (offset r)) = nat (sint (lr_page r) - 1) * nat (sint (lr_per_page r))"
    using offset_exact(1) [OF assms(2,3)] assms(2) by (simp add: request_ok_def nat_mult_distrib)
  moreover have "\<not> sint (offset r) < 0" using offset_exact(2) [OF assms(2,3)] by simp
  moreover have "\<not> sint (lr_per_page r) < 0" using assms(2) by (simp add: request_ok_def)
  ultimately show ?thesis
    using assms(4) listed_rows_own(3) [OF assms(1)]
    by (simp add: service_index_def bind_ok_def map_err_def pg_index_def Let_def listed_rows_def)
qed

lemma concat_pages: "concat (map (\<lambda>k. take p (drop (k * p) xs)) [0..<n]) = take (n * p) xs"
proof (induction n)
  case (Suc n)
  have "take (Suc n * p) xs = take (n * p) xs @ take p (drop (n * p) xs)"
    using take_add [of "n * p" p xs] by (simp add: add.commute)
  then show ?case using Suc by simp
qed simp

text \<open>Reading the pages one after the other gives the whole listing, nothing twice.\<close>

lemma pages_partition:
  assumes "length xs \<le> n * p"
  shows "concat (map (\<lambda>k. take p (drop (k * p) xs)) [0..<n]) = xs"
  using assms by (simp add: concat_pages)

lemma paged_fields:
  assumes "1 \<le> per" "per \<le> 100" "int k < 2 ^ 56"
  shows "sint (lr_page (paged (of_nat (k + 1)) (of_nat per))) = int k + 1"
    and "sint (lr_per_page (paged (of_nat (k + 1)) (of_nat per))) = int per"
    and "lr_page (paged (of_nat (k + 1)) (of_nat per)) = of_nat (k + 1)"
    and "lr_per_page (paged (of_nat (k + 1)) (of_nat per)) = of_nat per"
proof -
  have p: "sint (of_nat (k + 1) :: i64) = int k + 1"
    using assms(3) sint_of_int64 [of "int k + 1"] by (simp add: add.commute)
  have q: "sint (of_nat per :: i64) = int per"
    using assms(2) sint_of_int64 [of "int per"] by simp
  show r: "lr_page (paged (of_nat (k + 1)) (of_nat per)) = of_nat (k + 1)"
    "lr_per_page (paged (of_nat (k + 1)) (of_nat per)) = of_nat per"
    using p q assms by (simp_all add: paged_def normalize_def list_request_default_def MAX_PER_PAGE_def Let_def)
  show "sint (lr_page (paged (of_nat (k + 1)) (of_nat per))) = int k + 1"
    "sint (lr_per_page (paged (of_nat (k + 1)) (of_nat per))) = int per"
    unfolding r by (fact p, fact q)
qed

lemma index_paged:
  assumes "store_ok st" "1 \<le> per" "per \<le> 100" "int k < 2 ^ 56" "outages 0 = (\<lambda>_. None)"
  shows "service_index (services env outages new_id now) caller (paged (of_nat (k + 1)) (of_nat per)) st =
    Inr (data_new (map (map_summary env) (take per (drop (k * per) (listed_rows st caller))))
      (of_nat (length (listed_rows st caller))) (of_nat (k + 1)) (of_nat per))"
proof -
  note f = paged_fields [OF assms(2-4)]
  have "request_ok (paged (of_nat (k + 1)) (of_nat per))" unfolding paged_def by (rule normalize_ok)
  moreover have "sint (lr_page (paged (of_nat (k + 1)) (of_nat per))) \<le> 2 ^ 56" using f(1) assms(4) by simp
  ultimately have "service_index (services env outages new_id now) caller (paged (of_nat (k + 1)) (of_nat per)) st =
    Inr (data_new (map (map_summary env) (take (nat (sint (lr_per_page (paged (of_nat (k + 1)) (of_nat per)))))
        (drop (nat (sint (lr_page (paged (of_nat (k + 1)) (of_nat per))) - 1) *
           nat (sint (lr_per_page (paged (of_nat (k + 1)) (of_nat per))))) (listed_rows st caller))))
      (of_nat (length (listed_rows st caller))) (lr_page (paged (of_nat (k + 1)) (of_nat per)))
      (lr_per_page (paged (of_nat (k + 1)) (of_nat per))))"
    by (intro index_page assms)
  then show ?thesis unfolding f(1,2) unfolding f(3,4) by simp
qed

lemma listed_rows_length:
  assumes "store_ok st"
  shows "length (listed_rows st caller) = length (owned_rows st caller)"
proof -
  have "distinct (owned_rows st caller)" "distinct (listed_rows st caller)"
    using assms listed_rows_own(2) [OF assms, of caller]
    by (auto simp: owned_rows_def store_ok_def distinct_map)
  then show ?thesis using listed_rows_own(1) [OF assms, of caller] by (metis distinct_card)
qed

text \<open>The pages of a listing, together.\<close>

lemma index_complete:
  assumes "store_ok st" "1 \<le> per" "per \<le> 100" "int pages \<le> 2 ^ 56"
    and "length (owned_rows st caller) \<le> pages * per" "outages 0 = (\<lambda>_. None)"
  shows "\<exists>rows. set rows = set (owned_rows st caller) \<and> distinct (map row_id rows) \<and>
    (\<forall>k < pages. \<exists>page. service_index (services env outages new_id now) caller (paged (of_nat (k + 1)) (of_nat per)) st =
        Inr page \<and> total_count (pd_meta page) = of_nat (length rows) \<and>
        pd_data page = map (map_summary env) (take per (drop (k * per) rows))) \<and>
    concat (map (\<lambda>k. take per (drop (k * per) rows)) [0..<pages]) = rows"
proof (intro exI [of _ "listed_rows st caller"] conjI allI impI)
  show "concat (map (\<lambda>k. take per (drop (k * per) (listed_rows st caller))) [0..<pages]) = listed_rows st caller"
    using assms(5) by (intro pages_partition) (simp add: listed_rows_length [OF assms(1)])
  fix k
  assume "k < pages"
  then have "int k < 2 ^ 56" using assms(4) by simp
  then have "service_index (services env outages new_id now) caller (paged (of_nat (k + 1)) (of_nat per)) st =
      Inr (data_new (map (map_summary env) (take per (drop (k * per) (listed_rows st caller))))
        (of_nat (length (listed_rows st caller))) (of_nat (k + 1)) (of_nat per))"
    by (intro index_paged assms)
  then show "\<exists>page. service_index (services env outages new_id now) caller (paged (of_nat (k + 1)) (of_nat per)) st =
        Inr page \<and> total_count (pd_meta page) = of_nat (length (listed_rows st caller)) \<and>
        pd_data page = map (map_summary env) (take per (drop (k * per) (listed_rows st caller)))"
    by (auto simp: data_new_def Let_def)
qed (use listed_rows_own [OF assms(1)] in auto)

end
