(* ===== verification/Wire.thy ===== *)
theory Wire
  imports Schema_Service
begin

text \<open>
  The wire contract of the gRPC port: the messages of \<^verbatim>\<open>proto/schemaforge/v1/schema.proto\<close> as the
  build gives them to the code, an enumeration field being the number it carries, and the
  translation of \<^verbatim>\<open>module/schema/adapter/rpc/mapper.rs\<close>. Reading a message collects every
  violation, so a reader returns what it made and the violations so far. \<open>rfc\<close> stands for
  \<open>to_rfc3339\<close>.
\<close>

section \<open>Messages\<close>

record p_data_type =
  p_kind :: int
  p_length :: "u32 option"
  p_precision :: "u32 option"
  p_scale :: "u32 option"

record p_reference =
  p_ref_entity_id :: string
  p_ref_attribute_id :: string

record p_attribute =
  pa_id :: string
  pa_name :: string
  pa_description :: string
  pa_data_type :: "p_data_type option"
  pa_nullable :: bool
  pa_primary_key :: bool
  pa_unique :: bool
  pa_foreign_key :: "p_reference option"
  pa_default_value :: "string option"

record p_position =
  pp_x :: f64
  pp_y :: f64

record p_entity =
  pe_id :: string
  pe_name :: string
  pe_description :: string
  pe_attributes :: "p_attribute list"
  pe_position :: "p_position option"

record p_relationship =
  pl_id :: string
  pl_name :: string
  pl_description :: string
  pl_from_entity_id :: string
  pl_from_attribute_id :: string
  pl_to_entity_id :: string
  pl_to_attribute_id :: string
  pl_cardinality :: int

record p_schema =
  ps_id :: string
  ps_name :: string
  ps_description :: string
  ps_entities :: "p_entity list"
  ps_relationships :: "p_relationship list"
  ps_created_at :: string
  ps_updated_at :: string

record p_summary =
  pm_sum_id :: string
  pm_sum_name :: string
  pm_sum_description :: string
  pm_entity_count :: u32
  pm_relationship_count :: u32
  pm_created_at :: string
  pm_updated_at :: string

record p_diagnostic =
  pd_code :: string
  pd_severity :: int
  pd_message :: string
  pd_element_ids :: "string list"
  pd_location :: "p_position option"

record p_counts =
  pc_category :: int
  pc_matched :: u32
  pc_missing :: u32
  pc_extra :: u32
  pc_changed :: u32
  pc_precision :: f64
  pc_recall :: f64

record p_difference =
  pf_kind :: int
  pf_path :: string
  pf_expected :: string
  pf_actual :: string

section \<open>Violations\<close>

type_synonym violations_found = "sf_error option"

definition viol_add :: "string \<Rightarrow> string \<Rightarrow> violations_found \<Rightarrow> violations_found" where
  "viol_add path message v =
     Some (push_violation path message (case v of Some e \<Rightarrow> e | None \<Rightarrow> validation ''failed payload validation''))"

definition viol_into_result :: "violations_found \<Rightarrow> sf_error + unit" where
  "viol_into_result v = (case v of Some e \<Rightarrow> Inl e | None \<Rightarrow> Inr ())"

definition required_text_field :: "string \<Rightarrow> string \<Rightarrow> violations_found \<Rightarrow> violations_found" where
  "required_text_field path value v = (if trim value = '''' then viol_add path ''field is required and cannot be empty'' v else v)"

section \<open>Translation\<close>

definition rpc_position_from :: "p_position option \<Rightarrow> position" where
  "rpc_position_from p = (case p of None \<Rightarrow> position_default | Some q \<Rightarrow> position_new (pp_x q) (pp_y q))"

definition position_to :: "position \<Rightarrow> p_position" where
  "position_to p = \<lparr>pp_x = pos_x p, pp_y = pos_y p\<rparr>"

fun data_type_kind_to :: "data_type_kind \<Rightarrow> int" where
  "data_type_kind_to Text = 1"
| "data_type_kind_to Varchar = 2"
| "data_type_kind_to Char_kind = 3"
| "data_type_kind_to SmallInt = 4"
| "data_type_kind_to Integer = 5"
| "data_type_kind_to BigInt = 6"
| "data_type_kind_to Numeric = 7"
| "data_type_kind_to Real = 8"
| "data_type_kind_to DoublePrecision = 9"
| "data_type_kind_to Boolean = 10"
| "data_type_kind_to Date = 11"
| "data_type_kind_to Time = 12"
| "data_type_kind_to Timestamp = 13"
| "data_type_kind_to TimestampTz = 14"
| "data_type_kind_to Uuid = 15"
| "data_type_kind_to Json = 16"
| "data_type_kind_to Jsonb = 17"
| "data_type_kind_to Bytea = 18"

text \<open>\<open>try_from\<close> refuses a number the enumeration does not have, and zero is unspecified.\<close>

definition data_type_kind_from :: "int \<Rightarrow> data_type_kind option" where
  "data_type_kind_from n =
     (if n = 1 then Some Text else if n = 2 then Some Varchar else if n = 3 then Some Char_kind
      else if n = 4 then Some SmallInt else if n = 5 then Some Integer else if n = 6 then Some BigInt
      else if n = 7 then Some Numeric else if n = 8 then Some Real else if n = 9 then Some DoublePrecision
      else if n = 10 then Some Boolean else if n = 11 then Some Date else if n = 12 then Some Time
      else if n = 13 then Some Timestamp else if n = 14 then Some TimestampTz else if n = 15 then Some Uuid
      else if n = 16 then Some Json else if n = 17 then Some Jsonb else if n = 18 then Some Bytea else None)"

definition rpc_data_type_from :: "p_data_type option \<Rightarrow> string \<Rightarrow> violations_found \<Rightarrow> data_type option \<times> violations_found" where
  "rpc_data_type_from p path v =
     (case p of
        None \<Rightarrow> (None, viol_add path ''field is required'' v)
      | Some t \<Rightarrow>
         (case data_type_kind_from (p_kind t) of
            None \<Rightarrow> (None, viol_add path ''field must name a known data type'' v)
          | Some k \<Rightarrow>
              (Some \<lparr>dt_kind = k,
                 dt_length = (if takes_length k then p_length t else None),
                 dt_precision = (if takes_precision k then p_precision t else None),
                 dt_scale = (if takes_precision k then p_scale t else None)\<rparr>, v)))"

definition data_type_to :: "data_type \<Rightarrow> p_data_type" where
  "data_type_to t = \<lparr>p_kind = data_type_kind_to (dt_kind t), p_length = dt_length t, p_precision = dt_precision t, p_scale = dt_scale t\<rparr>"

fun cardinality_to :: "cardinality \<Rightarrow> int" where
  "cardinality_to OneToOne = 1"
| "cardinality_to OneToMany = 2"
| "cardinality_to ManyToMany = 3"

definition cardinality_from :: "int \<Rightarrow> string \<Rightarrow> violations_found \<Rightarrow> cardinality option \<times> violations_found" where
  "cardinality_from n path v =
     (if n = 1 then (Some OneToOne, v) else if n = 2 then (Some OneToMany, v) else if n = 3 then (Some ManyToMany, v)
      else (None, viol_add path ''field is required and must name a known cardinality'' v))"

definition dialect_from :: "int \<Rightarrow> dialect" where
  "dialect_from n = (if n = 2 then MySql else Postgres)"

definition exchange_format_from :: "int \<Rightarrow> exchange_format" where
  "exchange_format_from n = (if n = 2 then Sql_format else Json_format)"

definition import_format_from :: "int \<Rightarrow> exchange_format" where
  "import_format_from n = (if n = 2 then Sql_format else Json_format)"

fun category_to :: "category \<Rightarrow> int" where
  "category_to Tables = 1"
| "category_to Columns = 2"
| "category_to Keys = 3"
| "category_to ForeignKeys = 4"
| "category_to Relationships = 5"
| "category_to Descriptions = 6"
| "category_to Positions = 7"

fun difference_kind_to :: "difference_kind \<Rightarrow> int" where
  "difference_kind_to Missing = 1"
| "difference_kind_to Extra = 2"
| "difference_kind_to Changed = 3"

definition comparison_to :: "comparison \<Rightarrow> p_counts list \<times> p_difference list" where
  "comparison_to c =
     (map (\<lambda>cat. let n = cmp_counts c cat in
        \<lparr>pc_category = category_to cat, pc_matched = n_matched n, pc_missing = n_missing n, pc_extra = n_extra n,
         pc_changed = n_changed n, pc_precision = Compare.precision n, pc_recall = recall n\<rparr>) category_variants,
      map (\<lambda>d. \<lparr>pf_kind = difference_kind_to (diff_kind d), pf_path = diff_path d, pf_expected = diff_expected d,
        pf_actual = diff_actual d\<rparr>) (differences c))"

definition reference_from :: "p_reference option \<Rightarrow> string \<Rightarrow> violations_found \<Rightarrow> foreign_key_ref option \<times> violations_found" where
  "reference_from p path v =
     (case p of
        None \<Rightarrow> (None, v)
      | Some r \<Rightarrow>
         (if trim (p_ref_entity_id r) = '''' \<or> trim (p_ref_attribute_id r) = ''''
          then (None, viol_add (path @ ''.foreign_key'') ''a reference must name both an entity and an attribute'' v)
          else (Some (foreign_key_ref_new (p_ref_entity_id r) (p_ref_attribute_id r)), v)))"

definition rpc_attribute_from :: "p_attribute \<Rightarrow> string \<Rightarrow> violations_found \<Rightarrow> attribute option \<times> violations_found" where
  "rpc_attribute_from p path v =
     (let v1 = required_text_field (path @ ''.id'') (pa_id p) v;
          v2 = required_text_field (path @ ''.name'') (pa_name p) v1;
          (t, v3) = rpc_data_type_from (pa_data_type p) (path @ ''.data_type'') v2
      in case t of
           None \<Rightarrow> (None, v3)
         | Some dt \<Rightarrow>
            (let (fk, v4) = reference_from (pa_foreign_key p) path v3
             in (Some \<lparr>attr_id = pa_id p, attr_name = pa_name p, attr_description = pa_description p,
                   attr_data_type = dt, attr_nullable = (pa_nullable p \<and> \<not> pa_primary_key p),
                   attr_primary_key = pa_primary_key p, attr_unique = pa_unique p, attr_foreign_key = fk,
                   attr_default_value = pa_default_value p\<rparr>, v4)))"

definition attribute_to :: "attribute \<Rightarrow> p_attribute" where
  "attribute_to a =
     \<lparr>pa_id = attr_id a, pa_name = attr_name a, pa_description = attr_description a,
      pa_data_type = Some (data_type_to (attr_data_type a)), pa_nullable = attr_nullable a,
      pa_primary_key = attr_primary_key a, pa_unique = attr_unique a,
      pa_foreign_key = map_option (\<lambda>r. \<lparr>p_ref_entity_id = fk_entity_id r, p_ref_attribute_id = fk_attribute_id r\<rparr>) (attr_foreign_key a),
      pa_default_value = attr_default_value a\<rparr>"

text \<open>\<open>enumerate().filter_map(..)\<close>, the index in the path of each element.\<close>

fun read_each ::
  "('p \<Rightarrow> string \<Rightarrow> violations_found \<Rightarrow> 'a option \<times> violations_found) \<Rightarrow> string \<Rightarrow> nat \<Rightarrow> 'p list \<Rightarrow> violations_found \<Rightarrow>
   'a list \<times> violations_found" where
  "read_each f path i [] v = ([], v)"
| "read_each f path i (p # ps) v =
     (let (x, v1) = f p (path @ ''['' @ show_nat i @ '']'') v;
          (xs, v2) = read_each f path (Suc i) ps v1
      in (case x of None \<Rightarrow> xs | Some y \<Rightarrow> y # xs, v2))"

definition rpc_entity_from :: "p_entity \<Rightarrow> string \<Rightarrow> violations_found \<Rightarrow> entity option \<times> violations_found" where
  "rpc_entity_from p path v =
     (let v1 = required_text_field (path @ ''.id'') (pe_id p) v;
          v2 = required_text_field (path @ ''.name'') (pe_name p) v1;
          (as, v3) = read_each rpc_attribute_from (path @ ''.attributes'') 0 (pe_attributes p) v2
      in (Some \<lparr>ent_id = pe_id p, ent_name = pe_name p, ent_description = pe_description p, ent_attributes = as,
            ent_position = rpc_position_from (pe_position p)\<rparr>, v3))"

definition entity_to :: "entity \<Rightarrow> p_entity" where
  "entity_to e = \<lparr>pe_id = ent_id e, pe_name = ent_name e, pe_description = ent_description e,
     pe_attributes = map attribute_to (ent_attributes e), pe_position = Some (position_to (ent_position e))\<rparr>"

definition relationship_from :: "p_relationship \<Rightarrow> string \<Rightarrow> violations_found \<Rightarrow> relationship option \<times> violations_found" where
  "relationship_from p path v =
     (let v1 = required_text_field (path @ ''.id'') (pl_id p) v;
          v2 = fold (\<lambda>(name, value). required_text_field (path @ ''.'' @ name) value)
            [(''from_entity_id'', pl_from_entity_id p), (''from_attribute_id'', pl_from_attribute_id p),
             (''to_entity_id'', pl_to_entity_id p), (''to_attribute_id'', pl_to_attribute_id p)] v1;
          (c, v3) = cardinality_from (pl_cardinality p) (path @ ''.cardinality'') v2
      in case c of
           None \<Rightarrow> (None, v3)
         | Some k \<Rightarrow>
            (Some \<lparr>rel_id = pl_id p, rel_name = pl_name p, rel_description = pl_description p,
               from_entity_id = pl_from_entity_id p, from_attribute_id = pl_from_attribute_id p,
               to_entity_id = pl_to_entity_id p, to_attribute_id = pl_to_attribute_id p, rel_cardinality = k\<rparr>, v3))"

definition relationship_to :: "relationship \<Rightarrow> p_relationship" where
  "relationship_to r = \<lparr>pl_id = rel_id r, pl_name = rel_name r, pl_description = rel_description r,
     pl_from_entity_id = from_entity_id r, pl_from_attribute_id = from_attribute_id r,
     pl_to_entity_id = to_entity_id r, pl_to_attribute_id = to_attribute_id r,
     pl_cardinality = cardinality_to (rel_cardinality r)\<rparr>"

definition draft_from :: "string \<Rightarrow> string \<Rightarrow> p_entity list \<Rightarrow> p_relationship list \<Rightarrow> sf_error + schema_draft" where
  "draft_from name description es rs =
     (let (ents, v1) = read_each rpc_entity_from ''entities'' 0 es None;
          (rels, v2) = read_each relationship_from ''relationships'' 0 rs v1
      in bind_ok (viol_into_result v2) (\<lambda>_.
           Inr \<lparr>draft_name = name, draft_description = description, draft_entities = ents, draft_relationships = rels\<rparr>))"

definition draft_schema_from :: "timestamp \<Rightarrow> p_schema \<Rightarrow> sf_error + schema" where
  "draft_schema_from now p =
     bind_ok (draft_from (ps_name p) (ps_description p) (ps_entities p) (ps_relationships p)) (\<lambda>d.
       Inr (schema_new (ps_id p) d now))"

definition schema_to :: "(timestamp \<Rightarrow> string) \<Rightarrow> schema \<Rightarrow> p_schema" where
  "schema_to rfc s = \<lparr>ps_id = sch_id s, ps_name = sch_name s, ps_description = sch_description s,
     ps_entities = map entity_to (sch_entities s), ps_relationships = map relationship_to (sch_relationships s),
     ps_created_at = rfc (created_at s), ps_updated_at = rfc (updated_at s)\<rparr>"

definition summary_to :: "(timestamp \<Rightarrow> string) \<Rightarrow> schema_summary \<Rightarrow> p_summary" where
  "summary_to rfc s = \<lparr>pm_sum_id = sum_id s, pm_sum_name = sum_name s, pm_sum_description = sum_description s,
     pm_entity_count = entity_count s, pm_relationship_count = relationship_count s,
     pm_created_at = rfc (sum_created_at s), pm_updated_at = rfc (sum_updated_at s)\<rparr>"

fun severity_to :: "severity \<Rightarrow> int" where
  "severity_to Warning = 1"
| "severity_to Error = 2"

definition diagnostic_to :: "diagnostic \<Rightarrow> p_diagnostic" where
  "diagnostic_to d = \<lparr>pd_code = diag_code d, pd_severity = severity_to (diag_severity d), pd_message = diag_message d,
     pd_element_ids = element_ids d, pd_location = map_option position_to (diag_location d)\<rparr>"

definition report_to :: "report \<Rightarrow> p_diagnostic list" where
  "report_to r = map diagnostic_to (diagnostics r)"

section \<open>What is sent comes back\<close>

lemma kind_to_from [simp]: "data_type_kind_from (data_type_kind_to k) = Some k"
  by (cases k) (simp_all add: data_type_kind_from_def)

lemma cardinality_to_from [simp]: "cardinality_from (cardinality_to c) path v = (Some c, v)"
  by (cases c) (simp_all add: cardinality_from_def)

text \<open>What a message can carry: ids and names are there, a type has only its own parameters, a key is not nullable.\<close>

definition attribute_sendable :: "attribute \<Rightarrow> bool" where
  "attribute_sendable a \<longleftrightarrow> trim (attr_id a) \<noteq> '''' \<and> trim (attr_name a) \<noteq> '''' \<and>
     (let t = attr_data_type a in
      (dt_length t \<noteq> None \<longrightarrow> takes_length (dt_kind t)) \<and>
      (dt_precision t \<noteq> None \<or> dt_scale t \<noteq> None \<longrightarrow> takes_precision (dt_kind t))) \<and>
     \<not> (attr_nullable a \<and> attr_primary_key a) \<and>
     (case attr_foreign_key a of
        None \<Rightarrow> True
      | Some r \<Rightarrow> trim (fk_entity_id r) \<noteq> '''' \<and> trim (fk_attribute_id r) \<noteq> '''')"

definition relationship_sendable :: "relationship \<Rightarrow> bool" where
  "relationship_sendable r \<longleftrightarrow> trim (rel_id r) \<noteq> '''' \<and> trim (from_entity_id r) \<noteq> '''' \<and> trim (from_attribute_id r) \<noteq> '''' \<and>
     trim (to_entity_id r) \<noteq> '''' \<and> trim (to_attribute_id r) \<noteq> ''''"

definition sendable :: "schema_draft \<Rightarrow> bool" where
  "sendable d \<longleftrightarrow>
     list_all (\<lambda>e. trim (ent_id e) \<noteq> '''' \<and> trim (ent_name e) \<noteq> '''' \<and> list_all attribute_sendable (ent_attributes e)) (draft_entities d) \<and>
     list_all relationship_sendable (draft_relationships d)"

lemma required_text_present [simp]: "trim value \<noteq> '''' \<Longrightarrow> required_text_field path value v = v"
  by (simp add: required_text_field_def)

lemma data_type_to_from:
  assumes "dt_length t \<noteq> None \<longrightarrow> takes_length (dt_kind t)"
    and "dt_precision t \<noteq> None \<or> dt_scale t \<noteq> None \<longrightarrow> takes_precision (dt_kind t)"
  shows "rpc_data_type_from (Some (data_type_to t)) path v = (Some t, v)"
  using assms by (cases t) (auto simp: rpc_data_type_from_def data_type_to_def)

lemma attribute_to_from: "attribute_sendable a \<Longrightarrow> rpc_attribute_from (attribute_to a) path v = (Some a, v)"
  by (cases a) (auto simp: attribute_sendable_def rpc_attribute_from_def attribute_to_def reference_from_def data_type_to_from
      Let_def foreign_key_ref_new_def split: option.splits)

lemma read_each_map:
  "(\<And>x path v. x \<in> set xs \<Longrightarrow> f (g x) path v = (Some x, v)) \<Longrightarrow> read_each f path i (map g xs) v = (xs, v)"
  by (induction xs arbitrary: i v) simp_all

lemma entity_to_from:
  "trim (ent_id e) \<noteq> '''' \<Longrightarrow> trim (ent_name e) \<noteq> '''' \<Longrightarrow> list_all attribute_sendable (ent_attributes e) \<Longrightarrow>
     rpc_entity_from (entity_to e) path v = (Some e, v)"
  by (cases e) (simp add: rpc_entity_from_def entity_to_def read_each_map attribute_to_from list_all_iff rpc_position_from_def
      position_to_def position_new_def)

lemma relationship_to_from: "relationship_sendable r \<Longrightarrow> relationship_from (relationship_to r) path v = (Some r, v)"
  by (cases r) (simp add: relationship_sendable_def relationship_from_def relationship_to_def)

lemma draft_to_from:
  assumes "sendable d"
  shows "draft_from (draft_name d) (draft_description d) (map entity_to (draft_entities d)) (map relationship_to (draft_relationships d)) = Inr d"
proof -
  have "read_each rpc_entity_from ''entities'' 0 (map entity_to (draft_entities d)) None = (draft_entities d, None)"
    using assms by (intro read_each_map) (simp add: sendable_def list_all_iff entity_to_from)
  moreover have "read_each relationship_from ''relationships'' 0 (map relationship_to (draft_relationships d)) None = (draft_relationships d, None)"
    using assms by (intro read_each_map) (simp add: sendable_def list_all_iff relationship_to_from)
  ultimately show ?thesis by (simp add: draft_from_def viol_into_result_def)
qed

lemma schema_to_from: "sendable (draft s) \<Longrightarrow> draft_schema_from now (schema_to rfc s) = Inr (schema_new (sch_id s) (draft s) now)"
  using draft_to_from [of "draft s"] by (simp add: draft_schema_from_def schema_to_def draft_def)

text \<open>What is read is always sendable, so nothing a client can store is lost on the way back.\<close>

lemma required_text_None: "required_text_field path value v = None \<longleftrightarrow> v = None \<and> trim value \<noteq> ''''"
  by (simp add: required_text_field_def viol_add_def)

lemma data_type_from_None:
  "rpc_data_type_from p path v = (Some t, None) \<Longrightarrow> v = None \<and>
     (dt_length t \<noteq> None \<longrightarrow> takes_length (dt_kind t)) \<and> (dt_precision t \<noteq> None \<or> dt_scale t \<noteq> None \<longrightarrow> takes_precision (dt_kind t))"
  by (auto simp: rpc_data_type_from_def viol_add_def split: option.splits if_splits)

lemma reference_from_None:
  "reference_from p path v = (fk, None) \<Longrightarrow> v = None \<and>
     (case fk of None \<Rightarrow> True | Some r \<Rightarrow> trim (fk_entity_id r) \<noteq> '''' \<and> trim (fk_attribute_id r) \<noteq> '''')"
  by (auto simp: reference_from_def viol_add_def foreign_key_ref_new_def split: option.splits if_splits)

lemma attribute_from_None:
  assumes "rpc_attribute_from p path v = (x, None)"
  shows "v = None \<and> (\<exists>a. x = Some a \<and> attribute_sendable a)"
proof -
  obtain t v3 where t: "rpc_data_type_from (pa_data_type p) (path @ ''.data_type'')
      (required_text_field (path @ ''.name'') (pa_name p) (required_text_field (path @ ''.id'') (pa_id p) v)) = (t, v3)"
    by fastforce
  have "t \<noteq> None"
  proof
    assume "t = None"
    then have "v3 = None" using assms t by (simp add: rpc_attribute_from_def)
    with \<open>t = None\<close> t show False by (auto simp: rpc_data_type_from_def viol_add_def split: option.splits)
  qed
  then obtain dt where dt: "t = Some dt" by blast
  obtain fk where fk: "reference_from (pa_foreign_key p) path v3 = (fk, None)"
      and x: "x = Some \<lparr>attr_id = pa_id p, attr_name = pa_name p, attr_description = pa_description p,
        attr_data_type = dt, attr_nullable = (pa_nullable p \<and> \<not> pa_primary_key p),
        attr_primary_key = pa_primary_key p, attr_unique = pa_unique p, attr_foreign_key = fk,
        attr_default_value = pa_default_value p\<rparr>"
    using assms t dt by (auto simp: rpc_attribute_from_def Let_def split: prod.splits)
  have "v3 = None" using reference_from_None [OF fk] by simp
  with t dt data_type_from_None
  have "required_text_field (path @ ''.name'') (pa_name p) (required_text_field (path @ ''.id'') (pa_id p) v) = None"
    "(dt_length dt \<noteq> None \<longrightarrow> takes_length (dt_kind dt)) \<and> (dt_precision dt \<noteq> None \<or> dt_scale dt \<noteq> None \<longrightarrow> takes_precision (dt_kind dt))"
    by blast+
  then show ?thesis
    using x reference_from_None [OF fk] by (auto simp: required_text_None attribute_sendable_def Let_def)
qed

lemma read_each_None:
  assumes "\<And>p path v x. f p path v = (x, None) \<Longrightarrow> v = None \<and> (\<exists>a. x = Some a \<and> P a)"
  shows "read_each f path i ps v = (xs, None) \<Longrightarrow> v = None \<and> list_all P xs \<and> length xs = length ps"
proof (induction ps arbitrary: i v xs)
  case Nil
  then show ?case by simp
next
  case (Cons p ps)
  obtain x v1 where f: "f p (path @ ''['' @ show_nat i @ '']'') v = (x, v1)" by fastforce
  obtain ys where ys: "read_each f path (Suc i) ps v1 = (ys, None)" and xs: "xs = (case x of None \<Rightarrow> ys | Some y \<Rightarrow> y # ys)"
    using Cons.prems f by (auto split: prod.splits)
  from Cons.IH [OF ys] have "v1 = None" "list_all P ys" "length ys = length ps" by simp_all
  with assms [of p "path @ ''['' @ show_nat i @ '']''" v x] f xs show ?case by auto
qed

lemma read_attributes_None:
  "read_each rpc_attribute_from path i ps v = (xs, None) \<Longrightarrow> v = None \<and> list_all attribute_sendable xs"
  using read_each_None [of rpc_attribute_from attribute_sendable path i ps v xs] attribute_from_None by blast

lemma entity_from_None:
  assumes "rpc_entity_from p path v = (x, None)"
  shows "v = None \<and> (\<exists>e. x = Some e \<and> trim (ent_id e) \<noteq> '''' \<and> trim (ent_name e) \<noteq> '''' \<and> list_all attribute_sendable (ent_attributes e))"
  using assms
  by (auto simp: rpc_entity_from_def Let_def required_text_None split: prod.splits dest!: read_attributes_None)

lemma relationship_from_None:
  assumes "relationship_from p path v = (x, None)"
  shows "v = None \<and> (\<exists>r. x = Some r \<and> relationship_sendable r)"
  using assms
  by (auto simp: relationship_from_def Let_def cardinality_from_def viol_add_def required_text_None relationship_sendable_def
      split: if_splits option.splits prod.splits)

lemma draft_from_sendable:
  assumes "draft_from name description es rs = Inr d"
  shows "sendable d" and "length (draft_entities d) = length es" and "length (draft_relationships d) = length rs"
proof -
  obtain ents rels v1 where e: "read_each rpc_entity_from ''entities'' 0 es None = (ents, v1)"
      and r: "read_each relationship_from ''relationships'' 0 rs v1 = (rels, None)"
      and d: "d = \<lparr>draft_name = name, draft_description = description, draft_entities = ents, draft_relationships = rels\<rparr>"
    using assms by (auto simp: draft_from_def viol_into_result_def bind_ok_def split: prod.splits option.splits)
  have rs: "v1 = None" "list_all relationship_sendable rels" "length rels = length rs"
    using read_each_None [of relationship_from relationship_sendable, OF relationship_from_None r] by simp_all
  have es: "list_all (\<lambda>e. trim (ent_id e) \<noteq> '''' \<and> trim (ent_name e) \<noteq> '''' \<and> list_all attribute_sendable (ent_attributes e)) ents"
      "length ents = length es"
    using read_each_None [of rpc_entity_from "\<lambda>e. trim (ent_id e) \<noteq> '''' \<and> trim (ent_name e) \<noteq> '''' \<and> list_all attribute_sendable (ent_attributes e)",
        OF entity_from_None e [unfolded rs(1)]] by simp_all
  show "sendable d" "length (draft_entities d) = length es" "length (draft_relationships d) = length rs"
    using rs es d by (simp_all add: sendable_def)
qed

end
