(* ===== verification/Payload.thy ===== *)
theory Payload
  imports Wire
begin

text \<open>
  The JSON contract of the HTTP port, \<^verbatim>\<open>module/schema/adapter/handler/mapper.rs\<close>: payloads as serde
  gives them to the code (absent texts are empty), the readers, which collect every violation under
  the path of its element, and the translations outward. Where the gRPC messages number the types,
  cardinalities and categories, the payloads spell them.
\<close>

section \<open>Payloads\<close>

record h_position =
  hp_x :: f64
  hp_y :: f64

record h_data_type =
  h_kind :: string
  h_length :: "u32 option"
  h_precision :: "u32 option"
  h_scale :: "u32 option"

record h_reference =
  h_ref_entity_id :: string
  h_ref_attribute_id :: string

record h_attribute =
  ha_id :: string
  ha_name :: string
  ha_description :: string
  ha_data_type :: "h_data_type option"
  ha_nullable :: bool
  ha_primary_key :: bool
  ha_unique :: bool
  ha_foreign_key :: "h_reference option"
  ha_default_value :: "string option"

definition nullable_unless_told_otherwise :: bool where "nullable_unless_told_otherwise = True"

record h_entity =
  he_id :: string
  he_name :: string
  he_description :: string
  he_attributes :: "h_attribute list"
  he_position :: "h_position option"

record h_relationship =
  hl_id :: string
  hl_name :: string
  hl_description :: string
  hl_from_entity_id :: string
  hl_from_attribute_id :: string
  hl_to_entity_id :: string
  hl_to_attribute_id :: string
  hl_cardinality :: string

record schema_payload =
  hs_id :: string
  hs_name :: string
  hs_description :: string
  hs_entities :: "h_entity list"
  hs_relationships :: "h_relationship list"

record h_schema =
  ho_id :: string
  ho_name :: string
  ho_description :: string
  ho_entities :: "h_entity list"
  ho_relationships :: "h_relationship list"
  ho_created_at :: string
  ho_updated_at :: string

record h_summary =
  hu_id :: string
  hu_name :: string
  hu_description :: string
  hu_entity_count :: u32
  hu_relationship_count :: u32
  hu_created_at :: string
  hu_updated_at :: string

record h_diagnostic =
  hd_code :: string
  hd_severity :: string
  hd_message :: string
  hd_element_ids :: "string list"
  hd_location :: "h_position option"

record h_counts =
  hc_category :: string
  hc_matched :: u32
  hc_missing :: u32
  hc_extra :: u32
  hc_changed :: u32
  hc_precision :: f64
  hc_recall :: f64

record h_difference =
  hf_kind :: string
  hf_path :: string
  hf_expected :: string
  hf_actual :: string

section \<open>Outward\<close>

definition h_position_from :: "position \<Rightarrow> h_position" where
  "h_position_from p = \<lparr>hp_x = pos_x p, hp_y = pos_y p\<rparr>"

definition h_data_type_from :: "data_type \<Rightarrow> h_data_type" where
  "h_data_type_from t = \<lparr>h_kind = kind_as_str (dt_kind t), h_length = dt_length t, h_precision = dt_precision t, h_scale = dt_scale t\<rparr>"

definition h_reference_from :: "foreign_key_ref \<Rightarrow> h_reference" where
  "h_reference_from r = \<lparr>h_ref_entity_id = fk_entity_id r, h_ref_attribute_id = fk_attribute_id r\<rparr>"

definition h_attribute_from :: "attribute \<Rightarrow> h_attribute" where
  "h_attribute_from a =
     \<lparr>ha_id = attr_id a, ha_name = attr_name a, ha_description = attr_description a,
      ha_data_type = Some (h_data_type_from (attr_data_type a)), ha_nullable = attr_nullable a,
      ha_primary_key = attr_primary_key a, ha_unique = attr_unique a,
      ha_foreign_key = map_option h_reference_from (attr_foreign_key a), ha_default_value = attr_default_value a\<rparr>"

definition h_entity_from :: "entity \<Rightarrow> h_entity" where
  "h_entity_from e = \<lparr>he_id = ent_id e, he_name = ent_name e, he_description = ent_description e,
     he_attributes = map h_attribute_from (ent_attributes e), he_position = Some (h_position_from (ent_position e))\<rparr>"

definition h_relationship_from :: "relationship \<Rightarrow> h_relationship" where
  "h_relationship_from r = \<lparr>hl_id = rel_id r, hl_name = rel_name r, hl_description = rel_description r,
     hl_from_entity_id = from_entity_id r, hl_from_attribute_id = from_attribute_id r,
     hl_to_entity_id = to_entity_id r, hl_to_attribute_id = to_attribute_id r,
     hl_cardinality = cardinality_as_str (rel_cardinality r)\<rparr>"

definition h_schema_from :: "(timestamp \<Rightarrow> string) \<Rightarrow> schema \<Rightarrow> h_schema" where
  "h_schema_from rfc s = \<lparr>ho_id = sch_id s, ho_name = sch_name s, ho_description = sch_description s,
     ho_entities = map h_entity_from (sch_entities s), ho_relationships = map h_relationship_from (sch_relationships s),
     ho_created_at = rfc (created_at s), ho_updated_at = rfc (updated_at s)\<rparr>"

definition h_summary_from :: "(timestamp \<Rightarrow> string) \<Rightarrow> schema_summary \<Rightarrow> h_summary" where
  "h_summary_from rfc s = \<lparr>hu_id = sum_id s, hu_name = sum_name s, hu_description = sum_description s,
     hu_entity_count = entity_count s, hu_relationship_count = relationship_count s,
     hu_created_at = rfc (sum_created_at s), hu_updated_at = rfc (sum_updated_at s)\<rparr>"

definition h_diagnostic_from :: "diagnostic \<Rightarrow> h_diagnostic" where
  "h_diagnostic_from d = \<lparr>hd_code = diag_code d, hd_severity = severity_as_str (diag_severity d), hd_message = diag_message d,
     hd_element_ids = element_ids d, hd_location = map_option h_position_from (diag_location d)\<rparr>"

definition h_comparison_to :: "comparison \<Rightarrow> h_counts list \<times> h_difference list" where
  "h_comparison_to c =
     (map (\<lambda>cat. let n = cmp_counts c cat in
        \<lparr>hc_category = category_as_str cat, hc_matched = n_matched n, hc_missing = n_missing n, hc_extra = n_extra n,
         hc_changed = n_changed n, hc_precision = Compare.precision n, hc_recall = recall n\<rparr>) category_variants,
      map (\<lambda>d. \<lparr>hf_kind = difference_kind_as_str (diff_kind d), hf_path = diff_path d, hf_expected = diff_expected d,
        hf_actual = diff_actual d\<rparr>) (differences c))"

definition h_report_to :: "report \<Rightarrow> h_diagnostic list" where
  "h_report_to r = map h_diagnostic_from (diagnostics r)"

section \<open>Inward\<close>

definition h_position_read :: "h_position option \<Rightarrow> position" where
  "h_position_read p = (case p of None \<Rightarrow> position_default | Some q \<Rightarrow> position_new (hp_x q) (hp_y q))"

definition h_data_type_read :: "h_data_type option \<Rightarrow> string \<Rightarrow> violations_found \<Rightarrow> data_type option \<times> violations_found" where
  "h_data_type_read p path v =
     (case p of
        None \<Rightarrow> (None, viol_add path ''field is required'' v)
      | Some t \<Rightarrow>
         (case kind_from_str (h_kind t) of
            None \<Rightarrow> (None, viol_add path ''field must name a known data type'' v)
          | Some k \<Rightarrow>
              (Some \<lparr>dt_kind = k,
                 dt_length = (if takes_length k then h_length t else None),
                 dt_precision = (if takes_precision k then h_precision t else None),
                 dt_scale = (if takes_precision k then h_scale t else None)\<rparr>, v)))"

definition h_cardinality_read :: "string \<Rightarrow> string \<Rightarrow> violations_found \<Rightarrow> cardinality option \<times> violations_found" where
  "h_cardinality_read value path v =
     (case cardinality_from_str value of
        Some c \<Rightarrow> (Some c, v)
      | None \<Rightarrow> (None, viol_add path ''field is required and must name a known cardinality'' v))"

definition h_dialect_from :: "string option \<Rightarrow> string \<Rightarrow> violations_found \<Rightarrow> dialect option \<times> violations_found" where
  "h_dialect_from value path v =
     (case value of
        None \<Rightarrow> (Some dialect_default, v)
      | Some s \<Rightarrow>
         (case dialect_from_str s of
            Some d \<Rightarrow> (Some d, v)
          | None \<Rightarrow> (None, viol_add path ''field must name a known dialect'' v)))"

definition h_exchange_format_from :: "string option \<Rightarrow> string \<Rightarrow> violations_found \<Rightarrow> exchange_format option \<times> violations_found" where
  "h_exchange_format_from value path v =
     (case value of
        None \<Rightarrow> (Some exchange_format_default, v)
      | Some s \<Rightarrow>
         (case exchange_format_from_str s of
            Some f \<Rightarrow> (Some f, v)
          | None \<Rightarrow> (None, viol_add path ''field must name a known format'' v)))"

definition h_attribute_read :: "h_attribute \<Rightarrow> string \<Rightarrow> violations_found \<Rightarrow> attribute option \<times> violations_found" where
  "h_attribute_read p path v =
     (let v1 = (if trim (ha_id p) = '''' then viol_add (path @ ''.id'') ''field is required and cannot be empty'' v else v);
          v2 = (if trim (ha_name p) = '''' then viol_add (path @ ''.name'') ''field is required and cannot be empty'' v1 else v1);
          (t, v3) = h_data_type_read (ha_data_type p) (path @ ''.data_type'') v2
      in case t of
           None \<Rightarrow> (None, v3)
         | Some dt \<Rightarrow>
            (let (fk, v4) =
               (case ha_foreign_key p of
                  None \<Rightarrow> (None, v3)
                | Some r \<Rightarrow>
                   (if trim (h_ref_entity_id r) = '''' \<or> trim (h_ref_attribute_id r) = ''''
                    then (None, viol_add (path @ ''.foreign_key'') ''a reference must name both an entity and an attribute'' v3)
                    else (Some (foreign_key_ref_new (h_ref_entity_id r) (h_ref_attribute_id r)), v3)))
             in (Some \<lparr>attr_id = ha_id p, attr_name = ha_name p, attr_description = ha_description p,
                   attr_data_type = dt, attr_nullable = (ha_nullable p \<and> \<not> ha_primary_key p),
                   attr_primary_key = ha_primary_key p, attr_unique = ha_unique p, attr_foreign_key = fk,
                   attr_default_value = ha_default_value p\<rparr>, v4)))"

definition h_entity_read :: "h_entity \<Rightarrow> string \<Rightarrow> violations_found \<Rightarrow> entity option \<times> violations_found" where
  "h_entity_read p path v =
     (let v1 = (if trim (he_id p) = '''' then viol_add (path @ ''.id'') ''field is required and cannot be empty'' v else v);
          v2 = (if trim (he_name p) = '''' then viol_add (path @ ''.name'') ''field is required and cannot be empty'' v1 else v1);
          (as, v3) = read_each h_attribute_read (path @ ''.attributes'') 0 (he_attributes p) v2
      in (Some \<lparr>ent_id = he_id p, ent_name = he_name p, ent_description = he_description p, ent_attributes = as,
            ent_position = h_position_read (he_position p)\<rparr>, v3))"

definition h_relationship_read :: "h_relationship \<Rightarrow> string \<Rightarrow> violations_found \<Rightarrow> relationship option \<times> violations_found" where
  "h_relationship_read p path v =
     (let v1 = (if trim (hl_id p) = '''' then viol_add (path @ ''.id'') ''field is required and cannot be empty'' v else v);
          v2 = fold (\<lambda>(name, value) v.
              if trim value = '''' then viol_add (path @ ''.'' @ name) ''field is required and cannot be empty'' v else v)
            [(''from_entity_id'', hl_from_entity_id p), (''from_attribute_id'', hl_from_attribute_id p),
             (''to_entity_id'', hl_to_entity_id p), (''to_attribute_id'', hl_to_attribute_id p)] v1;
          (c, v3) = h_cardinality_read (hl_cardinality p) (path @ ''.cardinality'') v2
      in case c of
           None \<Rightarrow> (None, v3)
         | Some k \<Rightarrow>
            (Some \<lparr>rel_id = hl_id p, rel_name = hl_name p, rel_description = hl_description p,
               from_entity_id = hl_from_entity_id p, from_attribute_id = hl_from_attribute_id p,
               to_entity_id = hl_to_entity_id p, to_attribute_id = hl_to_attribute_id p, rel_cardinality = k\<rparr>, v3))"

definition h_draft_with :: "schema_payload \<Rightarrow> violations_found \<Rightarrow> schema_draft \<times> violations_found" where
  "h_draft_with p v =
     (let (ents, v1) = read_each h_entity_read ''entities'' 0 (hs_entities p) v;
          (rels, v2) = read_each h_relationship_read ''relationships'' 0 (hs_relationships p) v1
      in (\<lparr>draft_name = hs_name p, draft_description = hs_description p, draft_entities = ents, draft_relationships = rels\<rparr>, v2))"

definition h_draft_from :: "schema_payload \<Rightarrow> sf_error + schema_draft" where
  "h_draft_from p =
     (let (d, v) = h_draft_with p None in bind_ok (viol_into_result v) (\<lambda>_. Inr d))"

definition h_draft_schema_from :: "timestamp \<Rightarrow> schema_payload \<Rightarrow> sf_error + schema" where
  "h_draft_schema_from now p = bind_ok (h_draft_from p) (\<lambda>d. Inr (schema_new (hs_id p) d now))"

section \<open>Both ports read a schema alike\<close>

text \<open>The message that carries what a payload does; a name nothing answers to is the unspecified number.\<close>

definition message_type :: "h_data_type \<Rightarrow> p_data_type" where
  "message_type t = \<lparr>p_kind = (case kind_from_str (h_kind t) of Some k \<Rightarrow> data_type_kind_to k | None \<Rightarrow> 0),
     p_length = h_length t, p_precision = h_precision t, p_scale = h_scale t\<rparr>"

definition message_attribute :: "h_attribute \<Rightarrow> p_attribute" where
  "message_attribute p =
     \<lparr>pa_id = ha_id p, pa_name = ha_name p, pa_description = ha_description p, pa_data_type = map_option message_type (ha_data_type p),
      pa_nullable = ha_nullable p, pa_primary_key = ha_primary_key p, pa_unique = ha_unique p,
      pa_foreign_key = map_option (\<lambda>r. \<lparr>p_ref_entity_id = h_ref_entity_id r, p_ref_attribute_id = h_ref_attribute_id r\<rparr>) (ha_foreign_key p),
      pa_default_value = ha_default_value p\<rparr>"

definition message_entity :: "h_entity \<Rightarrow> p_entity" where
  "message_entity p = \<lparr>pe_id = he_id p, pe_name = he_name p, pe_description = he_description p,
     pe_attributes = map message_attribute (he_attributes p),
     pe_position = map_option (\<lambda>q. \<lparr>pp_x = hp_x q, pp_y = hp_y q\<rparr>) (he_position p)\<rparr>"

definition message_relationship :: "h_relationship \<Rightarrow> p_relationship" where
  "message_relationship p = \<lparr>pl_id = hl_id p, pl_name = hl_name p, pl_description = hl_description p,
     pl_from_entity_id = hl_from_entity_id p, pl_from_attribute_id = hl_from_attribute_id p,
     pl_to_entity_id = hl_to_entity_id p, pl_to_attribute_id = hl_to_attribute_id p,
     pl_cardinality = (case cardinality_from_str (hl_cardinality p) of Some c \<Rightarrow> cardinality_to c | None \<Rightarrow> 0)\<rparr>"

lemma data_type_read_alike: "h_data_type_read p = rpc_data_type_from (map_option message_type p)"
proof -
  have "data_type_kind_from 0 = None" by (simp add: data_type_kind_from_def)
  then show ?thesis
    by (intro ext) (simp add: h_data_type_read_def rpc_data_type_from_def message_type_def split: option.split)
qed

lemma reference_read_alike:
  "reference_from (map_option (\<lambda>r. \<lparr>p_ref_entity_id = h_ref_entity_id r, p_ref_attribute_id = h_ref_attribute_id r\<rparr>) q) path v =
     (case q of
        None \<Rightarrow> (None, v)
      | Some r \<Rightarrow>
         (if trim (h_ref_entity_id r) = '''' \<or> trim (h_ref_attribute_id r) = ''''
          then (None, viol_add (path @ ''.foreign_key'') ''a reference must name both an entity and an attribute'' v)
          else (Some (foreign_key_ref_new (h_ref_entity_id r) (h_ref_attribute_id r)), v)))"
  by (simp add: reference_from_def split: option.split)

lemma attribute_read_alike: "h_attribute_read p = rpc_attribute_from (message_attribute p)"
  unfolding h_attribute_read_def rpc_attribute_from_def message_attribute_def p_attribute.simps reference_read_alike
    required_text_field_def data_type_read_alike by (rule refl)

lemma read_each_alike: "(\<And>p. f p = g (h p)) \<Longrightarrow> read_each f path i ps v = read_each g path i (map h ps) v"
  by (induction ps arbitrary: i v) (simp_all add: Let_def)

lemma entity_read_alike: "h_entity_read p = rpc_entity_from (message_entity p)"
  by (intro ext)
    (simp add: h_entity_read_def rpc_entity_from_def message_entity_def required_text_field_def h_position_read_def
      rpc_position_from_def read_each_alike [of h_attribute_read rpc_attribute_from message_attribute, OF attribute_read_alike] Let_def
      split: option.split)

lemma relationship_read_alike: "h_relationship_read p = relationship_from (message_relationship p)"
proof -
  have "h_cardinality_read s = cardinality_from (case cardinality_from_str s of Some c \<Rightarrow> cardinality_to c | None \<Rightarrow> 0)" for s
  proof (intro ext)
    have "cardinality_from 0 path v = (None, viol_add path ''field is required and must name a known cardinality'' v)" for path v
      by (simp add: cardinality_from_def)
    then show "h_cardinality_read s path v =
        cardinality_from (case cardinality_from_str s of Some c \<Rightarrow> cardinality_to c | None \<Rightarrow> 0) path v" for path v
      by (simp add: h_cardinality_read_def split: option.split)
  qed
  then show ?thesis
    unfolding h_relationship_read_def relationship_from_def message_relationship_def p_relationship.simps required_text_field_def
    by simp
qed

lemma draft_read_alike:
  "h_draft_from p = draft_from (hs_name p) (hs_description p) (map message_entity (hs_entities p)) (map message_relationship (hs_relationships p))"
  by (simp add: h_draft_from_def h_draft_with_def draft_from_def
      read_each_alike [of h_entity_read rpc_entity_from message_entity, OF entity_read_alike]
      read_each_alike [of h_relationship_read relationship_from message_relationship, OF relationship_read_alike] split_beta Let_def)

text \<open>What the ports send carries the same schema, and is read back.\<close>

lemma message_of_sent:
  "message_attribute (h_attribute_from a) = attribute_to a" "message_entity (h_entity_from e) = entity_to e"
  "message_relationship (h_relationship_from r) = relationship_to r"
proof -
  show a: "message_attribute (h_attribute_from a) = attribute_to a" for a
    by (simp add: message_attribute_def h_attribute_from_def attribute_to_def message_type_def h_data_type_from_def data_type_to_def
        kind_round_trip h_reference_from_def option.map_comp comp_def)
  show "message_entity (h_entity_from e) = entity_to e"
    by (simp add: message_entity_def h_entity_from_def entity_to_def a h_position_from_def position_to_def comp_def)
  show "message_relationship (h_relationship_from r) = relationship_to r"
    by (simp add: message_relationship_def h_relationship_from_def relationship_to_def cardinality_round_trip)
qed

definition payload_of :: "schema_draft \<Rightarrow> schema_payload" where
  "payload_of d = \<lparr>hs_id = '''', hs_name = draft_name d, hs_description = draft_description d,
     hs_entities = map h_entity_from (draft_entities d), hs_relationships = map h_relationship_from (draft_relationships d)\<rparr>"

lemma payload_read_back: "sendable d \<Longrightarrow> h_draft_from (payload_of d) = Inr d"
  by (simp add: draft_read_alike payload_of_def comp_def message_of_sent draft_to_from)

lemma payload_sendable: "h_draft_from p = Inr d \<Longrightarrow> sendable d"
  by (simp add: draft_read_alike draft_from_sendable(1))

end
