(* ===== verification/Credentials.thy ===== *)
theory Credentials
  imports Schema_Service
begin

text \<open>
  What signing in is built from: \<^verbatim>\<open>package/crypto.rs\<close>, \<^verbatim>\<open>package/jwt/mod.rs\<close>,
  \<^verbatim>\<open>package/auth/google.rs\<close> and the password rules of \<^verbatim>\<open>package/validation.rs\<close>. The libraries
  below them are parameters: bcrypt, SHA-256 with its hexadecimal text, the signing of a JWT,
  base64, \<open>serde_urlencoded\<close>, the email syntax of \<open>validator\<close> and Google's answer. What is relied
  on of them is stated in \<open>bcrypt_sound\<close> and \<open>jwt_sound\<close>.
\<close>

section \<open>Passwords and reset tokens (crypto.rs)\<close>

record crypto_lib =
  bcrypt_hash :: "string \<Rightarrow> string \<Rightarrow> string + string"
  bcrypt_verify :: "string \<Rightarrow> string \<Rightarrow> string + bool"
  sha256_hex :: "string \<Rightarrow> string"
  hex_encode :: "8 word list \<Rightarrow> string"

text \<open>The first argument is the salt bcrypt draws.\<close>

definition hash_password :: "crypto_lib \<Rightarrow> string \<Rightarrow> string \<Rightarrow> sf_error + string" where
  "hash_password lib salt password = map_err unknown (bcrypt_hash lib salt password)"

definition compare_hash_and_password :: "crypto_lib \<Rightarrow> string \<Rightarrow> string \<Rightarrow> sf_error + unit" where
  "compare_hash_and_password lib hashed password =
     (case bcrypt_verify lib password hashed of
        Inr True \<Rightarrow> Inr ()
      | Inr False \<Rightarrow> Inl (unauthorized ''password mismatch'')
      | Inl e \<Rightarrow> Inl (with_cause e (unauthorized ''password mismatch'')))"

text \<open>The argument is what the generator filled the 32 bytes with.\<close>

definition random_token :: "crypto_lib \<Rightarrow> 8 word list \<Rightarrow> string" where
  "random_token lib bytes = hex_encode lib bytes"

definition hash_token :: "crypto_lib \<Rightarrow> string \<Rightarrow> string" where
  "hash_token lib raw_token = sha256_hex lib raw_token"

text \<open>A hash verifies against the password it was made from, and an empty text is no hash.\<close>

definition bcrypt_sound :: "crypto_lib \<Rightarrow> bool" where
  "bcrypt_sound lib \<longleftrightarrow> (\<forall>salt password h. bcrypt_hash lib salt password = Inr h \<longrightarrow>
     bcrypt_verify lib password h = Inr True \<and> h \<noteq> '''' \<and> length h \<le> 60)"

section \<open>Tokens (jwt/mod.rs)\<close>

type_synonym claims = "string \<rightharpoonup> json"

datatype jwt_error = Sign string | Parse string

fun jwt_error_fmt :: "jwt_error \<Rightarrow> string" where
  "jwt_error_fmt (Sign e) = ''error encountered when signing jwt token: '' @ e"
| "jwt_error_fmt (Parse e) = ''error parsing jwt token: '' @ e"

text \<open>
  The library signs with the secret it was given, and decodes against the clock, in seconds, with
  \<open>exp\<close> required and no leeway.
\<close>

record jwt_lib =
  jwt_encode :: "claims \<Rightarrow> string + string"
  jwt_decode :: "int \<Rightarrow> string \<Rightarrow> string + claims"

definition json_i64 :: "int \<Rightarrow> json" where
  "json_i64 n = (if n < 0 then JNegative n else JUnsigned (nat n))"

definition generate_jwt :: "jwt_lib \<Rightarrow> claims \<Rightarrow> int \<Rightarrow> jwt_error + string" where
  "generate_jwt jwt claims expires_at =
     map_err Sign (jwt_encode jwt (claims(''exp'' \<mapsto> json_i64 expires_at)))"

definition validate_jwt :: "jwt_lib \<Rightarrow> int \<Rightarrow> string \<Rightarrow> jwt_error + claims" where
  "validate_jwt jwt now token =
     (case jwt_decode jwt now token of
        Inl e \<Rightarrow> Inl (Parse e)
      | Inr claims \<Rightarrow> Inr (claims(''exp'' := None)))"

text \<open>A token decodes to the claims it was signed over until its expiry has passed, and not after.\<close>

definition jwt_sound :: "jwt_lib \<Rightarrow> bool" where
  "jwt_sound jwt \<longleftrightarrow>
     (\<forall>claims expires_at token now. claims ''exp'' = Some (json_i64 expires_at) \<longrightarrow> jwt_encode jwt claims = Inr token \<longrightarrow>
        (if expires_at < now then \<exists>e. jwt_decode jwt now token = Inl e else jwt_decode jwt now token = Inr claims))"

lemma jwt_round_trip:
  assumes "jwt_sound jwt" and "generate_jwt jwt claims expires_at = Inr token" and "now \<le> expires_at"
  shows "validate_jwt jwt now token = Inr (claims(''exp'' := None))"
proof -
  have "jwt_encode jwt (claims(''exp'' \<mapsto> json_i64 expires_at)) = Inr token"
    using assms(2) by (simp add: generate_jwt_def)
  then have "jwt_decode jwt now token = Inr (claims(''exp'' \<mapsto> json_i64 expires_at))"
    using assms(1,3) unfolding jwt_sound_def by (metis fun_upd_same not_less)
  then show ?thesis by (simp add: validate_jwt_def)
qed

lemma jwt_expired:
  assumes "jwt_sound jwt" and "generate_jwt jwt claims expires_at = Inr token" and "expires_at < now"
  shows "\<exists>e. validate_jwt jwt now token = Inl e"
proof -
  have "jwt_encode jwt (claims(''exp'' \<mapsto> json_i64 expires_at)) = Inr token"
    using assms(2) by (simp add: generate_jwt_def)
  then obtain e where "jwt_decode jwt now token = Inl e"
    using assms(1,3) unfolding jwt_sound_def by (metis fun_upd_same)
  then show ?thesis by (simp add: validate_jwt_def)
qed

section \<open>Google (auth/google.rs)\<close>

record google_account =
  ga_email :: string
  ga_email_verified :: bool
  ga_name :: string
  ga_picture :: "string option"

record google_credentials =
  gc_client_id :: string
  gc_client_secret :: string
  gc_redirect_uri :: string

record http_response =
  http_status :: nat
  http_body :: "string + string"

text \<open>The form posted to the token endpoint, sent by the HTTP client to Google.\<close>

record google_lib =
  gl_post :: "(string \<times> string) list \<Rightarrow> string + http_response"
  gl_urlencode :: "(string \<times> string) list \<Rightarrow> string option"
  gl_parse :: "string \<Rightarrow> string + json"
  gl_base64 :: "string \<Rightarrow> string + string"

definition consent_url :: "google_lib \<Rightarrow> google_credentials \<Rightarrow> string \<Rightarrow> string" where
  "consent_url g cred state =
     ''https://accounts.google.com/o/oauth2/v2/auth?'' @
     (case gl_urlencode g
         [(''client_id'', gc_client_id cred), (''redirect_uri'', gc_redirect_uri cred),
          (''response_type'', ''code''), (''scope'', ''openid email profile''),
          (''access_type'', ''online''), (''prompt'', ''select_account''), (''state'', state)] of
        Some query \<Rightarrow> query | None \<Rightarrow> '''')"

text \<open>\<open>split('.').nth(1)\<close>.\<close>

definition second_part :: "string \<Rightarrow> string option" where
  "second_part s = (case split_once (CHR ''.'') s of
     None \<Rightarrow> None
   | Some (_, rest) \<Rightarrow> (case split_once (CHR ''.'') rest of None \<Rightarrow> Some rest | Some (part, _) \<Rightarrow> Some part))"

text \<open>
  The \<open>Deserialize\<close> derive of \<open>IdToken\<close>, on an object that repeats no key: a missing field with a
  default takes it, a field of another type is an error.
\<close>

definition read_id_token :: "json \<Rightarrow> string + google_account" where
  "read_id_token v =
     (case v of
        JObject m \<Rightarrow>
         (case (get m ''email'',
                (case get m ''email_verified'' of None \<Rightarrow> Some False | Some (JBool b) \<Rightarrow> Some b | _ \<Rightarrow> None),
                (case get m ''name'' of None \<Rightarrow> Some '''' | Some (JString s) \<Rightarrow> Some s | _ \<Rightarrow> None),
                (case get m ''picture'' of None \<Rightarrow> Some None | Some JNull \<Rightarrow> Some None | Some (JString s) \<Rightarrow> Some (Some s) | _ \<Rightarrow> None)) of
            (Some (JString email), Some verified, Some name, Some picture) \<Rightarrow>
              Inr \<lparr>ga_email = email, ga_email_verified = verified, ga_name = name, ga_picture = picture\<rparr>
          | _ \<Rightarrow> Inl ''invalid id token'')
      | _ \<Rightarrow> Inl ''invalid id token'')"

definition account_from :: "google_lib \<Rightarrow> string \<Rightarrow> sf_error + google_account" where
  "account_from g id_token =
     (case second_part id_token of
        None \<Rightarrow> Inl (unknown ''the google id token has no payload'')
      | Some payload \<Rightarrow>
         bind_ok (map_err unknown (gl_base64 g payload)) (\<lambda>decoded.
         bind_ok (map_err unknown (gl_parse g decoded)) (\<lambda>v. map_err unknown (read_id_token v))))"

definition read_exchange :: "json \<Rightarrow> string + string" where
  "read_exchange v =
     (case v of
        JObject m \<Rightarrow> (case get m ''id_token'' of Some (JString s) \<Rightarrow> Inr s | _ \<Rightarrow> Inl ''missing field `id_token`'')
      | _ \<Rightarrow> Inl ''missing field `id_token`'')"

definition account_for :: "google_lib \<Rightarrow> google_credentials \<Rightarrow> string \<Rightarrow> sf_error + google_account" where
  "account_for g cred code =
     (let unreachable = unavailable ''google could not be reached'' in
      bind_ok (map_err (\<lambda>e. with_cause e unreachable)
        (gl_post g [(''code'', code), (''client_id'', gc_client_id cred), (''client_secret'', gc_client_secret cred),
           (''redirect_uri'', gc_redirect_uri cred), (''grant_type'', ''authorization_code'')])) (\<lambda>response.
      bind_ok (map_err (\<lambda>e. with_cause e unreachable) (http_body response)) (\<lambda>body.
        if 500 \<le> http_status response \<and> http_status response < 600 then Inl (with_cause body unreachable)
        else if \<not> (200 \<le> http_status response \<and> http_status response < 300)
        then Inl (with_cause body (unauthorized ''google rejected the sign in code''))
        else
          bind_ok (map_err unknown (gl_parse g body)) (\<lambda>v.
          bind_ok (map_err unknown (read_exchange v)) (account_from g)))))"

section \<open>Password rules (validation.rs)\<close>

definition strong_password :: "string \<Rightarrow> bool" where
  "strong_password password =
     (let has_min_len = length password \<ge> 8;
          has_upper = list_ex is_uppercase password;
          has_lower = list_ex is_lowercase password;
          has_number = list_ex is_ascii_digit password;
          has_special = list_ex (\<lambda>c. \<not> is_alphanumeric c \<and> \<not> is_whitespace c) password
      in has_min_len \<and> has_upper \<and> has_lower \<and> has_number \<and> has_special)"

definition password_checker :: "string \<Rightarrow> string + unit" where
  "password_checker password =
     (if length password < 8 then Inl ''password is too short. It should be at least 8 characters long''
      else if \<not> list_ex is_uppercase password then Inl ''password should contain at least one uppercase letter''
      else if \<not> list_ex is_lowercase password then Inl ''password should contain at least one lowercase letter''
      else if \<not> list_ex is_ascii_digit password then Inl ''password should contain at least one digit''
      else if \<not> list_ex (\<lambda>c. \<not> is_alphanumeric c \<and> \<not> is_whitespace c) password
      then Inl ''password should contain at least one special character''
      else Inr ())"

lemma password_checker_iff: "password_checker p = Inr () \<longleftrightarrow> strong_password p"
  by (auto simp: password_checker_def strong_password_def)

end
