(* ===== verification/Iam_Store.thy ===== *)
theory Iam_Store
  imports Repository Errdef
begin

text \<open>
  The account tables of \<^verbatim>\<open>migrations/iam\<close> and the two stores over them that signing in and
  authorising use: \<^verbatim>\<open>package/auth/store.rs\<close> and \<^verbatim>\<open>package/rbac/store.rs\<close>. A table is the list of its
  rows, a statement is a function on the tables with the constraints the migrations declare, and
  \<open>fault i\<close> is the database's own failure on the \<open>i\<close>-th statement of a call, \<open>None\<close> when there is
  none. A transaction that fails leaves the tables as they were.
\<close>

section \<open>Database errors (database/mod.rs)\<close>

record db_error =
  db_code :: "string option"
  db_text :: string

type_synonym db_faults = "nat \<Rightarrow> db_error option"

definition UNIQUE_VIOLATION :: string where "UNIQUE_VIOLATION = ''23505''"
definition NOT_NULL_VIOLATION :: string where "NOT_NULL_VIOLATION = ''23502''"
definition FOREIGN_KEY_VIOLATION :: string where "FOREIGN_KEY_VIOLATION = ''23503''"
definition STRING_DATA_TRUNCATION :: string where "STRING_DATA_TRUNCATION = ''22001''"

definition pg_error_is :: "db_error \<Rightarrow> string \<Rightarrow> bool" where
  "pg_error_is e code = (db_code e = Some code)"

definition violation :: "string \<Rightarrow> string \<Rightarrow> db_error" where
  "violation code text = \<lparr>db_code = Some code, db_text = text\<rparr>"

lemmas pg_codes = UNIQUE_VIOLATION_def NOT_NULL_VIOLATION_def FOREIGN_KEY_VIOLATION_def STRING_DATA_TRUNCATION_def

section \<open>Tables\<close>

record user_row =
  us_id :: uuid
  us_user_name :: string
  us_avatar_id :: string
  us_avatar_url :: "string option"
  us_email :: string
  us_password :: string
  us_first_name :: string
  us_last_name :: string
  us_status_id :: int
  us_department_id :: int

record permission_row =
  pm_id :: int
  pm_name :: string
  pm_resource :: string
  pm_module_id :: "int option"

record password_reset =
  rst_email :: string
  rst_token :: string
  rst_created_at :: timestamp

record department_row =
  dp_id :: int
  dp_name :: string
  dp_company_id :: int

record iam_db =
  db_statuses :: "(int \<times> string) list"
  db_companies :: "(int \<times> string) list"
  db_departments :: "department_row list"
  db_users :: "user_row list"
  db_modules :: "(int \<times> string) list"
  db_permissions :: "permission_row list"
  db_roles :: "(int \<times> string) list"
  db_role_permissions :: "(int \<times> int) list"
  db_user_roles :: "(uuid \<times> int) list"
  db_resets :: "password_reset list"

text \<open>The unique and foreign keys of \<open>iam.users\<close>, checked when a row is written.\<close>

text \<open>The lengths of the columns of \<open>iam.users\<close>.\<close>

definition user_row_too_long :: "user_row \<Rightarrow> bool" where
  "user_row_too_long row =
     (100 < length (us_user_name row) \<or> 255 < length (us_avatar_id row) \<or> 100 < length (us_email row) \<or>
      255 < length (us_password row) \<or> 100 < length (us_first_name row) \<or> 100 < length (us_last_name row))"

definition user_row_violation :: "iam_db \<Rightarrow> user_row \<Rightarrow> db_error option" where
  "user_row_violation db row =
     (if user_row_too_long row
      then Some (violation STRING_DATA_TRUNCATION ''value too long for type character varying'')
      else if list_ex (\<lambda>u. us_id u \<noteq> us_id row \<and> (us_user_name u = us_user_name row \<or> us_email u = us_email row)) (db_users db)
      then Some (violation UNIQUE_VIOLATION ''duplicate key value violates unique constraint'')
      else if us_status_id row \<notin> fst ` set (db_statuses db) \<or> us_department_id row \<notin> dp_id ` set (db_departments db)
      then Some (violation FOREIGN_KEY_VIOLATION ''insert or update violates foreign key constraint'')
      else None)"

text \<open>An update of the row with an id, and of the row with an address: each is unique.\<close>

definition update_users :: "(user_row \<Rightarrow> bool) \<Rightarrow> (user_row \<Rightarrow> user_row) \<Rightarrow> iam_db \<Rightarrow> db_error + iam_db" where
  "update_users p f db =
     (case List.find (\<lambda>r. p r \<and> user_row_violation db (f r) \<noteq> None) (db_users db) of
        Some r \<Rightarrow> Inl (the (user_row_violation db (f r)))
      | None \<Rightarrow> Inr (db\<lparr>db_users := map (\<lambda>r. if p r then f r else r) (db_users db)\<rparr>))"

definition insert_user :: "user_row \<Rightarrow> iam_db \<Rightarrow> db_error + iam_db" where
  "insert_user row db =
     (if us_id row \<in> us_id ` set (db_users db)
      then Inl (violation UNIQUE_VIOLATION ''duplicate key value violates unique constraint'')
      else case user_row_violation db row of
        Some e \<Rightarrow> Inl e
      | None \<Rightarrow> Inr (db\<lparr>db_users := db_users db @ [row]\<rparr>))"

text \<open>\<open>SELECT $1, r.id FROM iam.roles r WHERE r.name = ANY($2)\<close>.\<close>

definition role_pairs :: "iam_db \<Rightarrow> uuid \<Rightarrow> string list \<Rightarrow> (uuid \<times> int) list" where
  "role_pairs db u names = map (\<lambda>(i, _). (u, i)) (filter (\<lambda>(_, name). name \<in> set names) (db_roles db))"

definition role_names :: "iam_db \<Rightarrow> uuid \<Rightarrow> string list" where
  "role_names db u = map snd (filter (\<lambda>(i, _). (u, i) \<in> set (db_user_roles db)) (db_roles db))"

section \<open>The store of the auth service (package/auth/store.rs)\<close>

record user_identity =
  idn_id :: uuid
  idn_email :: string
  idn_user_name :: string
  idn_first_name :: string
  idn_last_name :: string
  idn_avatar_url :: "string option"
  idn_password :: string
  idn_roles :: "string list"

record new_user =
  nu_email :: string
  nu_user_name :: string
  nu_first_name :: string
  nu_last_name :: string
  nu_avatar_url :: "string option"
  nu_password :: string
  nu_roles :: "string list"

definition identity_of :: "iam_db \<Rightarrow> user_row \<Rightarrow> user_identity" where
  "identity_of db u =
     \<lparr>idn_id = us_id u, idn_email = us_email u, idn_user_name = us_user_name u,
      idn_first_name = us_first_name u, idn_last_name = us_last_name u,
      idn_avatar_url = us_avatar_url u, idn_password = us_password u,
      idn_roles = role_names db (us_id u)\<rparr>"

definition enrich :: "db_faults \<Rightarrow> iam_db \<Rightarrow> user_row option \<Rightarrow> db_error + user_identity option" where
  "enrich fault db row =
     (case row of
        None \<Rightarrow> Inr None
      | Some u \<Rightarrow> (case fault 1 of Some e \<Rightarrow> Inl e | None \<Rightarrow> Inr (Some (identity_of db u))))"

definition find_user :: "db_faults \<Rightarrow> (user_row \<Rightarrow> bool) \<Rightarrow> iam_db \<Rightarrow> db_error + user_identity option" where
  "find_user fault p db =
     (case fault 0 of Some e \<Rightarrow> Inl e | None \<Rightarrow> enrich fault db (List.find p (db_users db)))"

definition find_user_by_id :: "db_faults \<Rightarrow> uuid \<Rightarrow> iam_db \<Rightarrow> db_error + user_identity option" where
  "find_user_by_id fault u db = find_user fault (\<lambda>r. us_id r = u) db"

definition find_user_by_email :: "db_faults \<Rightarrow> string \<Rightarrow> iam_db \<Rightarrow> db_error + user_identity option" where
  "find_user_by_email fault email db = find_user fault (\<lambda>r. us_email r = email) db"

text \<open>
  The sub-selects of the insert: the status named \<open>Active\<close>, which must be one row, and the least
  department. A missing one is null, which the columns refuse.
\<close>

definition active_status :: "iam_db \<Rightarrow> int list" where
  "active_status db = map fst (filter (\<lambda>(_, name). name = ''Active'') (db_statuses db))"

definition create_user :: "db_faults \<Rightarrow> uuid \<Rightarrow> new_user \<Rightarrow> iam_db \<Rightarrow> (db_error + uuid) \<times> iam_db" where
  "create_user fault new_id user db =
     (case fault 0 of
        Some e \<Rightarrow> (Inl e, db)
      | None \<Rightarrow>
         (case fault 1 of
            Some e \<Rightarrow> (Inl e, db)
          | None \<Rightarrow>
             (case (active_status db, db_departments db) of
                ([status], _ # _) \<Rightarrow>
                  (case insert_user \<lparr>us_id = new_id, us_user_name = nu_user_name user, us_avatar_id = '''',
                      us_avatar_url = nu_avatar_url user, us_email = nu_email user,
                      us_password = nu_password user, us_first_name = nu_first_name user,
                      us_last_name = nu_last_name user, us_status_id = status,
                      us_department_id = Min (set (map dp_id (db_departments db)))\<rparr> db of
                     Inl e \<Rightarrow> (Inl e, db)
                   | Inr db1 \<Rightarrow>
                      (case fault 2 of
                         Some e \<Rightarrow> (Inl e, db)
                       | None \<Rightarrow>
                          (case fault 3 of
                             Some e \<Rightarrow> (Inl e, db)
                           | None \<Rightarrow> (Inr new_id, db1\<lparr>db_user_roles := db_user_roles db1 @ role_pairs db1 new_id (nu_roles user)\<rparr>))))
              | (_ # _ # _, _) \<Rightarrow> (Inl \<lparr>db_code = Some ''21000'', db_text = ''more than one row returned by a subquery''\<rparr>, db)
              | _ \<Rightarrow> (Inl (violation NOT_NULL_VIOLATION ''null value violates not-null constraint''), db))))"

definition update_profile ::
  "db_faults \<Rightarrow> uuid \<Rightarrow> string \<Rightarrow> string \<Rightarrow> string option \<Rightarrow> iam_db \<Rightarrow> (db_error + unit) \<times> iam_db" where
  "update_profile fault u first_name last_name avatar_url db =
     (case fault 0 of
        Some e \<Rightarrow> (Inl e, db)
      | None \<Rightarrow>
         (case update_users (\<lambda>r. us_id r = u)
             (\<lambda>r. r\<lparr>us_first_name := first_name, us_last_name := last_name, us_avatar_url := avatar_url\<rparr>) db of
            Inl e \<Rightarrow> (Inl e, db)
          | Inr db' \<Rightarrow> (Inr (), db')))"

definition create_password_reset :: "db_faults \<Rightarrow> timestamp \<Rightarrow> string \<Rightarrow> string \<Rightarrow> iam_db \<Rightarrow> (db_error + unit) \<times> iam_db" where
  "create_password_reset fault now email token db =
     (case fault 0 of
        Some e \<Rightarrow> (Inl e, db)
      | None \<Rightarrow>
         (if 255 < length email \<or> 255 < length token
          then (Inl (violation STRING_DATA_TRUNCATION ''value too long for type character varying''), db)
          else (Inr (), db\<lparr>db_resets := db_resets db @ [\<lparr>rst_email = email, rst_token = token, rst_created_at = now\<rparr>]\<rparr>)))"

definition store_reset_password :: "db_faults \<Rightarrow> string \<Rightarrow> string \<Rightarrow> iam_db \<Rightarrow> (db_error + unit) \<times> iam_db" where
  "store_reset_password fault email password db =
     (case fault 0 of
        Some e \<Rightarrow> (Inl e, db)
      | None \<Rightarrow>
         (case update_users (\<lambda>r. us_email r = email) (\<lambda>r. r\<lparr>us_password := password\<rparr>) db of
            Inl e \<Rightarrow> (Inl e, db)
          | Inr db' \<Rightarrow> (Inr (), db')))"

definition find_password_by_token :: "db_faults \<Rightarrow> string \<Rightarrow> iam_db \<Rightarrow> db_error + password_reset option" where
  "find_password_by_token fault token db =
     (case fault 0 of
        Some e \<Rightarrow> Inl e
      | None \<Rightarrow> Inr (List.find (\<lambda>r. rst_token r = token) (db_resets db)))"

definition delete_password_reset :: "db_faults \<Rightarrow> string \<Rightarrow> iam_db \<Rightarrow> (db_error + unit) \<times> iam_db" where
  "delete_password_reset fault email db =
     (case fault 0 of
        Some e \<Rightarrow> (Inl e, db)
      | None \<Rightarrow> (Inr (), db\<lparr>db_resets := filter (\<lambda>r. rst_email r \<noteq> email) (db_resets db)\<rparr>))"

section \<open>The store of the rbac engine (package/rbac/store.rs)\<close>

record permission =
  pr_module :: string
  pr_resource :: string
  pr_name :: string

definition get_roles :: "db_faults \<Rightarrow> uuid \<Rightarrow> iam_db \<Rightarrow> db_error + string list" where
  "get_roles fault u db = (case fault 0 of Some e \<Rightarrow> Inl e | None \<Rightarrow> Inr (role_names db u))"

text \<open>Whether some role of the user grants the permission.\<close>

definition granted_to :: "iam_db \<Rightarrow> uuid \<Rightarrow> permission_row \<Rightarrow> bool" where
  "granted_to db u p = list_ex (\<lambda>(r, q). q = pm_id p \<and> (u, r) \<in> set (db_user_roles db)) (db_role_permissions db)"

definition permissions_of_user :: "iam_db \<Rightarrow> uuid \<Rightarrow> permission list" where
  "permissions_of_user db u = concat (map (\<lambda>p. map (\<lambda>(_, m). \<lparr>pr_module = m, pr_resource = pm_resource p, pr_name = pm_name p\<rparr>)
       (filter (\<lambda>(i, _). Some i = pm_module_id p) (db_modules db)))
     (filter (granted_to db u) (db_permissions db)))"

text \<open>\<open>SELECT DISTINCT ... ORDER BY module, p.name\<close>, with the order of the code points for the collation.\<close>

definition get_permissions :: "db_faults \<Rightarrow> uuid \<Rightarrow> iam_db \<Rightarrow> db_error + permission list" where
  "get_permissions fault u db =
     (case fault 0 of
        Some e \<Rightarrow> Inl e
      | None \<Rightarrow> Inr (sort_key (\<lambda>p. (pr_module p, pr_name p)) (remdups (permissions_of_user db u))))"

definition has_permission :: "db_faults \<Rightarrow> uuid \<Rightarrow> string \<Rightarrow> string \<Rightarrow> iam_db \<Rightarrow> db_error + bool" where
  "has_permission fault u resource name db =
     (case fault 0 of
        Some e \<Rightarrow> Inl e
      | None \<Rightarrow> Inr (list_ex (\<lambda>p. granted_to db u p \<and> pm_resource p = resource \<and> pm_name p = name) (db_permissions db)))"

section \<open>The tables stay consistent\<close>

definition users_distinct :: "user_row list \<Rightarrow> bool" where
  "users_distinct us = (distinct (map us_id us) \<and> distinct (map us_user_name us) \<and> distinct (map us_email us))"

definition users_linked :: "iam_db \<Rightarrow> bool" where
  "users_linked db = list_all (\<lambda>r. \<not> user_row_too_long r \<and> us_status_id r \<in> fst ` set (db_statuses db) \<and>
     us_department_id r \<in> dp_id ` set (db_departments db)) (db_users db)"

definition roles_linked :: "iam_db \<Rightarrow> bool" where
  "roles_linked db = list_all (\<lambda>(u, r). u \<in> us_id ` set (db_users db) \<and> r \<in> fst ` set (db_roles db)) (db_user_roles db)"

text \<open>The keys of the tables hold: this is what the migrations declare.\<close>

definition iam_ok :: "iam_db \<Rightarrow> bool" where
  "iam_ok db = (users_distinct (db_users db) \<and> users_linked db \<and> roles_linked db \<and>
     distinct (map fst (db_roles db)) \<and> distinct (map snd (db_roles db)) \<and> distinct (db_user_roles db))"

lemmas iam_ok_parts = iam_ok_def users_distinct_def users_linked_def roles_linked_def list_all_iff

lemma insert_userD:
  assumes "insert_user row db = Inr db'"
  shows "db' = db\<lparr>db_users := db_users db @ [row]\<rparr>" and "us_id row \<notin> us_id ` set (db_users db)"
    and "us_email row \<notin> us_email ` set (db_users db)" and "us_user_name row \<notin> us_user_name ` set (db_users db)"
    and "us_status_id row \<in> fst ` set (db_statuses db)" and "us_department_id row \<in> dp_id ` set (db_departments db)"
    and "\<not> user_row_too_long row"
proof -
  have new: "us_id row \<notin> us_id ` set (db_users db)" and none: "user_row_violation db row = None"
    and db': "db' = db\<lparr>db_users := db_users db @ [row]\<rparr>"
    using assms by (auto simp: insert_user_def split: if_splits option.splits)
  show "db' = db\<lparr>db_users := db_users db @ [row]\<rparr>" and "us_id row \<notin> us_id ` set (db_users db)"
    using new db' by simp_all
  have "us_user_name u \<noteq> us_user_name row \<and> us_email u \<noteq> us_email row" if "u \<in> set (db_users db)" for u
  proof -
    have "us_id u \<noteq> us_id row" using new that by (metis image_eqI)
    then show ?thesis using none that by (auto simp: user_row_violation_def list_ex_iff split: if_splits)
  qed
  then show "us_email row \<notin> us_email ` set (db_users db)" and "us_user_name row \<notin> us_user_name ` set (db_users db)"
    by fastforce+
  show "us_status_id row \<in> fst ` set (db_statuses db)" and "us_department_id row \<in> dp_id ` set (db_departments db)"
    and "\<not> user_row_too_long row"
    using none by (simp_all add: user_row_violation_def split: if_splits)
qed

lemma insert_user_ok: "insert_user row db = Inr db' \<Longrightarrow> iam_ok db \<Longrightarrow> iam_ok db'"
  using insert_userD [of row db db'] by (auto simp: iam_ok_parts)

text \<open>An update that keeps the id and the two unique columns.\<close>

lemma update_usersE:
  assumes "update_users p f db = Inr db'"
  shows "db' = db\<lparr>db_users := map (\<lambda>r. if p r then f r else r) (db_users db)\<rparr>"
    and "\<And>r. r \<in> set (db_users db) \<Longrightarrow> p r \<Longrightarrow> user_row_violation db (f r) = None"
  using assms by (auto simp: update_users_def find_None_iff split: option.splits)

lemma row_linked:
  "user_row_violation db r = None \<Longrightarrow> \<not> user_row_too_long r \<and> us_status_id r \<in> fst ` set (db_statuses db) \<and> us_department_id r \<in> dp_id ` set (db_departments db)"
  by (auto simp: user_row_violation_def split: if_splits)

lemma update_users_linked:
  assumes "update_users p f db = Inr db'" and "users_linked db"
  shows "users_linked db'"
  using assms(2) row_linked [OF update_usersE(2) [OF assms(1)]]
  by (fastforce simp: update_usersE(1) [OF assms(1)] users_linked_def list_all_iff)

lemma roles_linked_map:
  "(\<And>r. us_id (f r) = us_id r) \<Longrightarrow> roles_linked (db\<lparr>db_users := map f (db_users db)\<rparr>) = roles_linked db"
  by (simp add: roles_linked_def image_image)

lemma update_users_ok:
  assumes up: "update_users p f db = Inr db'" and ok: "iam_ok db"
    and keeps: "\<And>r. us_id (f r) = us_id r" "\<And>r. us_user_name (f r) = us_user_name r" "\<And>r. us_email (f r) = us_email r"
  shows "iam_ok db'"
proof -
  let ?g = "\<lambda>r. if p r then f r else r"
  have g: "us_id (?g r) = us_id r" "us_user_name (?g r) = us_user_name r" "us_email (?g r) = us_email r" for r
    using keeps by simp_all
  have "users_distinct (map ?g (db_users db))"
    using ok g by (simp add: iam_ok_def users_distinct_def comp_def)
  then show ?thesis
    using ok roles_linked_map [of ?g db, OF g(1)] update_users_linked [OF up]
    by (simp add: iam_ok_def update_usersE(1) [OF up])
qed

text \<open>A row rewritten in place, its keys kept, breaks no constraint if it still fits.\<close>

lemma rewrite_row:
  assumes "iam_ok db" and "r \<in> set (db_users db)" and "us_id r' = us_id r" "us_user_name r' = us_user_name r"
    and "us_email r' = us_email r" "us_status_id r' = us_status_id r" "us_department_id r' = us_department_id r"
    and "\<not> user_row_too_long r'"
  shows "user_row_violation db r' = None"
proof -
  have "u = r" if "u \<in> set (db_users db)" "us_user_name u = us_user_name r \<or> us_email u = us_email r" for u
    using assms(1,2) that by (auto simp: iam_ok_def users_distinct_def distinct_map inj_on_def)
  then have "\<not> list_ex (\<lambda>u. us_id u \<noteq> us_id r' \<and> (us_user_name u = us_user_name r' \<or> us_email u = us_email r')) (db_users db)"
    using assms(3-5) by (auto simp: list_ex_iff)
  moreover have "us_status_id r \<in> fst ` set (db_statuses db)" "us_department_id r \<in> dp_id ` set (db_departments db)"
    using assms(1,2) by (simp_all add: iam_ok_def users_linked_def list_all_iff)
  ultimately show ?thesis using assms(6-8) by (simp add: user_row_violation_def)
qed

lemma update_users_fits:
  assumes "iam_ok db"
    and "\<And>r. us_id (f r) = us_id r" "\<And>r. us_user_name (f r) = us_user_name r" "\<And>r. us_email (f r) = us_email r"
    and "\<And>r. us_status_id (f r) = us_status_id r" "\<And>r. us_department_id (f r) = us_department_id r"
    and "\<And>r. r \<in> set (db_users db) \<Longrightarrow> p r \<Longrightarrow> \<not> user_row_too_long (f r)"
  shows "update_users p f db = Inr (db\<lparr>db_users := map (\<lambda>r. if p r then f r else r) (db_users db)\<rparr>)"
proof -
  have "user_row_violation db (f r) = None" if "r \<in> set (db_users db)" "p r" for r
    using that assms by (intro rewrite_row [of db r]) auto
  then have "List.find (\<lambda>r. p r \<and> user_row_violation db (f r) \<noteq> None) (db_users db) = None"
    by (auto simp: find_None_iff)
  then show ?thesis unfolding update_users_def by simp
qed

lemma create_userE:
  assumes "create_user fault new_id user db = (Inr u, db')"
  obtains row db1 where "u = new_id" "us_id row = new_id" "us_email row = nu_email user" "us_user_name row = nu_user_name user"
    "us_password row = nu_password user" "us_first_name row = nu_first_name user" "us_last_name row = nu_last_name user"
    "us_avatar_url row = nu_avatar_url user" "insert_user row db = Inr db1"
    "db' = db1\<lparr>db_user_roles := db_user_roles db1 @ role_pairs db1 new_id (nu_roles user)\<rparr>"
proof -
  obtain status d ds where st: "active_status db = [status]" "db_departments db = d # ds"
    using assms by (auto simp: create_user_def split: option.splits list.splits)
  define row where "row = \<lparr>us_id = new_id, us_user_name = nu_user_name user, us_avatar_id = '''',
     us_avatar_url = nu_avatar_url user, us_email = nu_email user,
     us_password = nu_password user, us_first_name = nu_first_name user,
     us_last_name = nu_last_name user, us_status_id = status,
     us_department_id = Min (set (map dp_id (db_departments db)))\<rparr>"
  obtain db1 where "insert_user row db = Inr db1" "u = new_id"
    "db' = db1\<lparr>db_user_roles := db_user_roles db1 @ role_pairs db1 new_id (nu_roles user)\<rparr>"
    using assms by (auto simp: create_user_def st row_def split: option.splits sum.splits)
  then show thesis by (intro that [of row db1]) (simp_all add: row_def)
qed

lemma create_user_error: "create_user fault new_id user db = (Inl e, db') \<Longrightarrow> db' = db"
  by (auto simp: create_user_def split: option.splits list.splits sum.splits)

lemma add_roles_ok:
  assumes "iam_ok db" and "u \<in> us_id ` set (db_users db)" and "u \<notin> fst ` set (db_user_roles db)"
  shows "iam_ok (db\<lparr>db_user_roles := db_user_roles db @ role_pairs db u names\<rparr>)"
proof -
  have "distinct (map fst (filter (\<lambda>(_, name). name \<in> set names) (db_roles db)))"
    using assms(1) by (auto simp: iam_ok_def distinct_map_filter)
  then have "distinct (role_pairs db u names)"
    by (auto simp: role_pairs_def distinct_map inj_on_def)
  moreover have "set (db_user_roles db) \<inter> set (role_pairs db u names) = {}"
    using assms(3) by (force simp: role_pairs_def)
  moreover have "list_all (\<lambda>(v, r). v \<in> us_id ` set (db_users db) \<and> r \<in> fst ` set (db_roles db)) (role_pairs db u names)"
    using assms(2) by (force simp: role_pairs_def list_all_iff)
  ultimately show ?thesis
    using assms(1) by (simp add: iam_ok_def users_linked_def roles_linked_def)
qed

lemma create_user_ok:
  assumes "create_user fault new_id user db = (r, db')" and "iam_ok db"
  shows "iam_ok db'"
proof (cases r)
  case (Inl e)
  then show ?thesis using create_user_error assms by blast
next
  case (Inr u)
  obtain row db1 where "us_id row = new_id" "insert_user row db = Inr db1"
    "db' = db1\<lparr>db_user_roles := db_user_roles db1 @ role_pairs db1 new_id (nu_roles user)\<rparr>"
    using assms(1) unfolding Inr by (rule create_userE)
  then have "iam_ok db1" "new_id \<in> us_id ` set (db_users db1)" "new_id \<notin> fst ` set (db_user_roles db1)"
    using insert_user_ok [of row db db1] insert_userD(1,2) [of row db db1] assms(2)
    by (auto simp: iam_ok_def roles_linked_def list_all_iff)
  with \<open>db' = _\<close> show ?thesis by (simp add: add_roles_ok)
qed

lemma update_profile_ok: "iam_ok db \<Longrightarrow> iam_ok (snd (update_profile fault u f l a db))"
  by (auto simp: update_profile_def split: option.split sum.split elim!: update_users_ok)

lemma store_reset_password_ok: "iam_ok db \<Longrightarrow> iam_ok (snd (store_reset_password fault e p db))"
  by (auto simp: store_reset_password_def split: option.split sum.split elim!: update_users_ok)

lemma resets_ok [simp]: "iam_ok (db\<lparr>db_resets := rs\<rparr>) = iam_ok db"
  by (simp add: iam_ok_def users_linked_def roles_linked_def)

lemma delete_password_reset_ok: "iam_ok db \<Longrightarrow> iam_ok (snd (delete_password_reset fault e db))"
  by (simp add: delete_password_reset_def split: option.split)

lemma create_password_reset_ok: "iam_ok db \<Longrightarrow> iam_ok (snd (create_password_reset fault now e t db))"
  by (simp add: create_password_reset_def split: option.split)

section \<open>What is found\<close>

lemma find_user_Inr: "find_user f p db = Inr x \<Longrightarrow> map_option (identity_of db) (List.find p (db_users db)) = x"
  by (auto simp: find_user_def enrich_def split: option.splits)

text \<open>No statement of a call fails.\<close>

definition db_calm :: "db_faults \<Rightarrow> bool" where "db_calm f = (\<forall>i. f i = None)"

lemma db_calmD [simp]: "db_calm f \<Longrightarrow> f i = None"
  by (simp add: db_calm_def)

lemma find_user_calm:
  "db_calm f \<Longrightarrow> find_user f p db = Inr (map_option (identity_of db) (List.find p (db_users db)))"
  by (simp add: find_user_def enrich_def split: option.split)

lemma find_email: "iam_ok db \<Longrightarrow> u \<in> set (db_users db) \<Longrightarrow> List.find (\<lambda>r. us_email r = us_email u) (db_users db) = Some u"
  by (rule find_key) (simp_all add: iam_ok_def users_distinct_def)

lemma find_id: "iam_ok db \<Longrightarrow> u \<in> set (db_users db) \<Longrightarrow> List.find (\<lambda>r. us_id r = us_id u) (db_users db) = Some u"
  by (rule find_key) (simp_all add: iam_ok_def users_distinct_def)

text \<open>A new account: one row more, the roles it asked for, nothing of the others touched.\<close>

lemma created_account:
  assumes create: "create_user f new_id nu db = (Inr u, db')" and ok: "iam_ok db"
  obtains row where "u = new_id" and "us_id row = new_id" and "us_email row = nu_email nu"
    and "us_password row = nu_password nu" and "db_users db' = db_users db @ [row]"
    and "role_names db' new_id = map snd (filter (\<lambda>(_, name). name \<in> set (nu_roles nu)) (db_roles db))"
    and "\<And>p. p \<noteq> new_id \<Longrightarrow> role_names db' p = role_names db p"
    and "new_id \<notin> us_id ` set (db_users db)"
proof -
  obtain row db1 where r: "u = new_id" "us_id row = new_id" "us_email row = nu_email nu" "us_password row = nu_password nu"
      and ins: "insert_user row db = Inr db1"
      and db': "db' = db1\<lparr>db_user_roles := db_user_roles db1 @ role_pairs db1 new_id (nu_roles nu)\<rparr>"
    using create by (rule create_userE)
  have db1: "db1 = db\<lparr>db_users := db_users db @ [row]\<rparr>" and new: "new_id \<notin> us_id ` set (db_users db)"
    using insert_userD(1,2) [OF ins] r by simp_all
  have same: "db_roles db1 = db_roles db" "db_user_roles db1 = db_user_roles db" by (simp_all add: db1)
  have unowned: "(new_id, i) \<notin> set (db_user_roles db)" for i
    using ok new by (auto simp: iam_ok_def roles_linked_def list_all_iff)
  have pairs: "(p, i) \<in> set (role_pairs db1 new_id names) \<longleftrightarrow> p = new_id \<and> (\<exists>n \<in> set names. (i, n) \<in> set (db_roles db))" for p i names
    by (auto simp: role_pairs_def db1)
  have key: "n = n'" if "(i, n) \<in> set (db_roles db)" "(i, n') \<in> set (db_roles db)" for i n n'
    using ok that by (auto simp: iam_ok_def dest: eq_key_imp_eq_value)
  have "role_names db' new_id = map snd (filter (\<lambda>(_, name). name \<in> set (nu_roles nu)) (db_roles db))"
    unfolding role_names_def db'
    using unowned key by (auto simp: pairs same intro!: arg_cong [of _ _ "map snd"] filter_cong)
  moreover have "role_names db' p = role_names db p" if "p \<noteq> new_id" for p
    unfolding role_names_def db' using that by (simp add: pairs same)
  ultimately show thesis using that [of row] r new db' db1 by simp
qed

end
