(* ===== verification/Sample.thy ===== *)
theory Sample
  imports Verifier Float64
begin

text \<open>
  \<^verbatim>\<open>module/schema/core/sample.rs\<close>: the schema every new account starts with. It passes the
  verifier, whatever id and time it is stored under.
\<close>

definition SAMPLE_SCHEMA_NAME :: string where "SAMPLE_SCHEMA_NAME = ''Sample blog''"

definition sample_key :: "string \<Rightarrow> attribute" where
  "sample_key ident = unique (as_primary_key (attribute_new ident ''id'' (simple Uuid)))"

definition sample_reference :: "string \<Rightarrow> string \<Rightarrow> string \<Rightarrow> attribute" where
  "sample_reference ident name e =
     referencing (foreign_key_ref_new e (e @ ''.id'')) (required (attribute_new ident name (simple Uuid)))"

definition sample_varchar :: "string \<Rightarrow> string \<Rightarrow> attribute" where
  "sample_varchar ident name = required (attribute_new ident name (simple Varchar))"

definition sample_text :: "string \<Rightarrow> string \<Rightarrow> attribute" where
  "sample_text ident name = attribute_new ident name (simple Text)"

definition sample_timestamp :: "string \<Rightarrow> attribute" where
  "sample_timestamp ident = required (attribute_new ident ''created_at'' (simple Timestamp))"

definition sample_users :: entity where
  "sample_users = with_attributes
     [sample_key ''users.id'', unique (sample_varchar ''users.email'' ''email''),
      sample_varchar ''users.name'' ''name'', sample_timestamp ''users.created_at'']
     (with_position (position_new (f64_of_nat 100) (f64_of_nat 100)) (entity_new ''users'' ''users''))"

definition sample_posts :: entity where
  "sample_posts = with_attributes
     [sample_key ''posts.id'', sample_reference ''posts.user_id'' ''user_id'' ''users'',
      sample_varchar ''posts.title'' ''title'', sample_text ''posts.content'' ''content'',
      sample_timestamp ''posts.created_at'']
     (with_position (position_new (f64_of_nat 500) (f64_of_nat 100)) (entity_new ''posts'' ''posts''))"

definition sample_comments :: entity where
  "sample_comments = with_attributes
     [sample_key ''comments.id'', sample_reference ''comments.post_id'' ''post_id'' ''posts'',
      sample_reference ''comments.user_id'' ''user_id'' ''users'',
      required (sample_text ''comments.content'' ''content''), sample_timestamp ''comments.created_at'']
     (with_position (position_new (f64_of_nat 300) (f64_of_nat 400)) (entity_new ''comments'' ''comments''))"

definition sample_schema :: schema_draft where
  "sample_schema =
     \<lparr>draft_name = SAMPLE_SCHEMA_NAME, draft_description = '''',
      draft_entities = [sample_users, sample_posts, sample_comments],
      draft_relationships =
        [relationship_new ''rel-users-posts'' (''users'', ''users.id'') (''posts'', ''posts.user_id'') OneToMany,
         relationship_new ''rel-posts-comments'' (''posts'', ''posts.id'') (''comments'', ''comments.post_id'') OneToMany,
         relationship_new ''rel-users-comments'' (''users'', ''users.id'') (''comments'', ''comments.user_id'') OneToMany]\<rparr>"

lemmas builder_defs = sample_key_def sample_reference_def sample_varchar_def sample_text_def
  sample_timestamp_def attribute_new_def as_primary_key_def required_def unique_def referencing_def
  foreign_key_ref_new_def simple_def with_attributes_def with_position_def entity_new_def

lemmas sample_defs = sample_users_def sample_posts_def sample_comments_def builder_defs


abbreviation sample_stored :: "string \<Rightarrow> timestamp \<Rightarrow> schema" where
  "sample_stored ident now \<equiv> schema_new ident sample_schema now"

lemma sample_fields:
  "sch_entities (sample_stored i now) = [sample_users, sample_posts, sample_comments]"
  "sch_relationships (sample_stored i now) = draft_relationships sample_schema"
  by (simp_all add: schema_new_def sample_schema_def)

lemma sample_relationships:
  "draft_relationships sample_schema =
     [relationship_new ''rel-users-posts'' (''users'', ''users.id'') (''posts'', ''posts.user_id'') OneToMany,
      relationship_new ''rel-posts-comments'' (''posts'', ''posts.id'') (''comments'', ''comments.post_id'') OneToMany,
      relationship_new ''rel-users-comments'' (''users'', ''users.id'') (''comments'', ''comments.user_id'') OneToMany]"
  by (simp add: sample_schema_def)

lemma sample_entity:
  "schema_entity (sample_stored i now) ''users'' = Some sample_users"
  "schema_entity (sample_stored i now) ''posts'' = Some sample_posts"
  "schema_entity (sample_stored i now) ''comments'' = Some sample_comments"
  by (simp_all add: schema_entity_def sample_fields sample_defs)

lemma sample_required_edges: "required_edges (sample_stored i now) = [(1, 0), (2, 1), (2, 0)]"
  by (simp add: required_edges_def reference_edges_def edges_of_def entity_index_def sample_fields
      sample_defs upt_rec [of 0 3])

lemma trancl_less: "(a, b) \<in> {(a, b :: nat). b < a}\<^sup>+ \<Longrightarrow> b < a"
  by (induction rule: trancl_induct) auto

lemma sample_valid: "is_valid (verify (sample_stored i now))"
  unfolding verify_valid_iff well_formed_def
proof (intro conjI)
  show "names_present (sample_stored i now)"
    by (simp add: names_present_def sample_fields sample_defs text_simps)
  show "types_in_range (sample_stored i now)"
    by (simp add: types_in_range_def sample_fields sample_defs parameters_in_range_def)
  show "ends_resolve (sample_stored i now)"
    by (simp add: ends_resolve_def resolve_def sample_entity sample_fields sample_relationships
        relationship_new_def) (simp add: entity_attribute_def sample_defs)
  show "all_names_distinct (sample_stored i now)"
    unfolding all_names_distinct_def same_name_groups_Nil [symmetric]
    by (simp add: sample_fields sample_defs same_name_groups_def fold_name_def text_simps)
  show "keys_present (sample_stored i now)"
    by (simp add: keys_present_def sample_fields sample_defs)
  show "references_sound (sample_stored i now)"
    by (simp add: references_sound_def reference_sound_def sample_fields sample_defs resolve_def
        schema_entity_def entity_attribute_def is_unique_key_def is_compatible_with_def)
  show "relationships_backed (sample_stored i now)"
    by (simp add: relationships_backed_def relationship_backed_def resolve_def sample_entity
        sample_fields sample_relationships relationship_new_def)
      (simp add: entity_attribute_def sample_defs points_at_def)
  show "no_required_cycle (sample_stored i now)"
    unfolding no_required_cycle_def sample_required_edges
    by (rule acyclic_subset [of "{(a, b). b < a}"])
      (auto simp: acyclic_def dest!: trancl_less)
qed

end
