(* ===== verification/Auth.thy ===== *)
theory Auth
  imports Credentials Iam_Store Sample
begin

text \<open>
  The auth service, \<^verbatim>\<open>package/auth/service.rs\<close>: signing up, signing in with a password or with
  Google, tokens, and the reset of a forgotten password. Its state is the account tables, the
  schema store a new account is seeded into, and the mail it has sent. An operation is a function
  of what the service is built from, of what one request meets (its clock, the ids and salts drawn
  for it, the failures of the stores, numbered by call, and of the mailer), and of the state. A
  timestamp counts microseconds, the resolution of \<open>TIMESTAMPTZ\<close>.
\<close>

section \<open>State and effects\<close>

record mail =
  mail_to :: string
  mail_subject :: string
  mail_template :: string
  mail_data :: "(string \<times> string) list"

record world =
  w_iam :: iam_db
  w_schemas :: store
  w_outbox :: "mail list"

type_synonym 'a act = "world \<Rightarrow> (sf_error + 'a) \<times> world"

definition ok_act :: "'a \<Rightarrow> 'a act" where "ok_act x w = (Inr x, w)"

definition fail_act :: "sf_error \<Rightarrow> 'a act" where "fail_act e w = (Inl e, w)"

text \<open>The \<open>?\<close> operator: an error returns at once and keeps what was already done.\<close>

definition and_then :: "'a act \<Rightarrow> ('a \<Rightarrow> 'b act) \<Rightarrow> 'b act" where
  "and_then m f w = (case m w of (Inl e, w') \<Rightarrow> (Inl e, w') | (Inr x, w') \<Rightarrow> f x w')"

definition lift_result :: "sf_error + 'a \<Rightarrow> 'a act" where "lift_result r w = (r, w)"

text \<open>A call of the store, with its error as a value.\<close>

definition store_read :: "(iam_db \<Rightarrow> 'r) \<Rightarrow> 'r act" where
  "store_read f w = (Inr (f (w_iam w)), w)"

definition store_write :: "(iam_db \<Rightarrow> 'r \<times> iam_db) \<Rightarrow> 'r act" where
  "store_write f w = (let (r, db) = f (w_iam w) in (Inr r, w\<lparr>w_iam := db\<rparr>))"

definition db_unknown :: "db_error \<Rightarrow> sf_error" where "db_unknown e = unknown (db_text e)"

text \<open>\<open>map_err(Error::unknown)?\<close>.\<close>

definition or_unknown :: "(db_error + 'a) act \<Rightarrow> 'a act" where
  "or_unknown m = and_then m (\<lambda>r. lift_result (map_err db_unknown r))"

lemmas act_defs = ok_act_def fail_act_def and_then_def lift_result_def store_read_def store_write_def or_unknown_def

section \<open>The service\<close>

record auth_service =
  as_jwt :: jwt_lib
  as_crypto :: crypto_lib
  as_google :: google_lib
  as_credentials :: google_credentials
  as_env :: store_env
  as_valid_email :: "string \<Rightarrow> bool"
  as_token_ttl :: int
  as_refresh_token_ttl :: int

record auth_request =
  rq_now :: timestamp
  rq_user_id :: uuid
  rq_schema_id :: uuid
  rq_salt :: string
  rq_bytes :: "8 word list"
  rq_faults :: "nat \<Rightarrow> db_faults"
  rq_outages :: "nat \<Rightarrow> faults"
  rq_mail_fault :: "string option"

record tokens =
  tk_token :: string
  tk_refresh_token :: string

record registration =
  reg_name :: string
  reg_email :: string
  reg_password :: string

definition PASSWORD_RESET_TTL_MINUTES :: int where "PASSWORD_RESET_TTL_MINUTES = 15"
definition MIN_PASSWORD_LENGTH :: nat where "MIN_PASSWORD_LENGTH = 8"
definition INVALID_CREDENTIALS :: string where "INVALID_CREDENTIALS = ''invalid username or password''"
definition INVALID_REFRESH_TOKEN :: string where "INVALID_REFRESH_TOKEN = ''invalid or malformed refresh token''"
definition UNVERIFIED_GOOGLE_EMAIL :: string where
  "UNVERIFIED_GOOGLE_EMAIL = ''the google account has no verified email address''"
definition EMAIL_TAKEN :: string where "EMAIL_TAKEN = ''an account with this email already exists''"

definition seconds :: "timestamp \<Rightarrow> int" where "seconds t = t div 1000000"
definition minutes :: "int \<Rightarrow> timestamp" where "minutes n = n * 60000000"

definition sign_up_roles :: "string list" where "sign_up_roles = [''Developer'']"

definition clean_email :: "string \<Rightarrow> string" where "clean_email email = to_lowercase (trim email)"

definition split_name :: "string \<Rightarrow> string \<times> string" where
  "split_name name =
     (case split_once (CHR '' '') (trim name) of
        Some (head, rest) \<Rightarrow> (head, trim rest)
      | None \<Rightarrow> (trim name, ''''))"

definition seed :: "auth_service \<Rightarrow> auth_request \<Rightarrow> uuid \<Rightarrow> unit act" where
  "seed svc rq user_id w =
     (let (r, st) = service_create (services (as_env svc) (rq_outages rq) (rq_schema_id rq) (rq_now rq))
            user_id sample_schema (w_schemas w)
      in (map_sum id (\<lambda>_. ()) r, w\<lparr>w_schemas := st\<rparr>))"

definition access_claims :: "auth_service \<Rightarrow> user_identity \<Rightarrow> claims" where
  "access_claims svc user = [''user_id'' \<mapsto> JString (show_uuid (as_env svc) (idn_id user)),
     ''roles'' \<mapsto> JArray (map JString (idn_roles user))]"

definition refresh_claims :: "auth_service \<Rightarrow> user_identity \<Rightarrow> claims" where
  "refresh_claims svc user = [''user_id'' \<mapsto> JString (show_uuid (as_env svc) (idn_id user))]"

definition generate_tokens :: "auth_service \<Rightarrow> auth_request \<Rightarrow> user_identity \<Rightarrow> sf_error + tokens" where
  "generate_tokens svc rq user =
     bind_ok (map_err (unknown \<circ> jwt_error_fmt)
       (generate_jwt (as_jwt svc) (access_claims svc user) (seconds (rq_now rq + as_token_ttl svc * 1000000)))) (\<lambda>token.
     bind_ok (map_err (unknown \<circ> jwt_error_fmt)
       (generate_jwt (as_jwt svc) (refresh_claims svc user) (seconds (rq_now rq + as_refresh_token_ttl svc * 1000000)))) (\<lambda>refresh.
       Inr \<lparr>tk_token = token, tk_refresh_token = refresh\<rparr>))"

definition user_id_from :: "auth_service \<Rightarrow> auth_request \<Rightarrow> string \<Rightarrow> sf_error + uuid" where
  "user_id_from svc rq token =
     bind_ok (map_err (\<lambda>e. with_cause (jwt_error_fmt e) (unauthorized INVALID_REFRESH_TOKEN))
       (validate_jwt (as_jwt svc) (seconds (rq_now rq)) token)) (\<lambda>claims.
       case claims ''user_id'' of
         Some (JString raw) \<Rightarrow>
           (case parse_uuid (as_env svc) raw of
              Some u \<Rightarrow> Inr u
            | None \<Rightarrow> Inl (unauthorized INVALID_REFRESH_TOKEN))
       | _ \<Rightarrow> Inl (unauthorized INVALID_REFRESH_TOKEN))"

definition follow_google_profile :: "db_faults \<Rightarrow> user_identity \<Rightarrow> google_account \<Rightarrow> unit act" where
  "follow_google_profile fault user account =
     (let (first_name, last_name) = split_name (ga_name account);
          avatar_url = ga_picture account
      in if idn_first_name user = first_name \<and> idn_last_name user = last_name \<and> idn_avatar_url user = avatar_url
         then ok_act ()
         else or_unknown (store_write (update_profile fault (idn_id user) first_name last_name avatar_url)))"

definition require_user_by_id :: "db_faults \<Rightarrow> uuid \<Rightarrow> user_identity act" where
  "require_user_by_id fault user_id =
     and_then (or_unknown (store_read (find_user_by_id fault user_id))) (\<lambda>found.
       case found of None \<Rightarrow> fail_act (unauthorized INVALID_REFRESH_TOKEN) | Some user \<Rightarrow> ok_act user)"

definition create_google_user :: "auth_service \<Rightarrow> auth_request \<Rightarrow> string \<Rightarrow> google_account \<Rightarrow> user_identity act" where
  "create_google_user svc rq email account =
     (let (first_name, last_name) = split_name (ga_name account) in
      and_then (store_write (create_user (rq_faults rq 1) (rq_user_id rq)
        \<lparr>nu_email = email, nu_user_name = email, nu_first_name = first_name, nu_last_name = last_name,
         nu_avatar_url = ga_picture account, nu_password = '''', nu_roles = sign_up_roles\<rparr>)) (\<lambda>created.
        case created of
          Inr user_id \<Rightarrow>
            and_then (seed svc rq user_id) (\<lambda>_. require_user_by_id (rq_faults rq 2) user_id)
        | Inl err \<Rightarrow>
            (if pg_error_is err UNIQUE_VIOLATION
             then and_then (or_unknown (store_read (find_user_by_email (rq_faults rq 2) email))) (\<lambda>found.
               case found of
                 None \<Rightarrow> fail_act (db_unknown err)
               | Some user \<Rightarrow>
                   and_then (follow_google_profile (rq_faults rq 3) user account) (\<lambda>_. ok_act user))
             else fail_act (db_unknown err))))"

definition check_registration :: "auth_service \<Rightarrow> registration \<Rightarrow> sf_error + unit" where
  "check_registration svc r =
     (if trim (reg_name r) = ''''
      then Inl (add_violation ''name'' ''field is required and cannot be empty'' (validation ''name is required''))
      else if \<not> as_valid_email svc (reg_email r)
      then Inl (add_violation ''email'' ''field must be of email format'' (validation ''email is not a valid address''))
      else if length (reg_password r) < MIN_PASSWORD_LENGTH
      then Inl (add_violation ''password'' (''field must be a minimum length of '' @ show_nat MIN_PASSWORD_LENGTH)
        (validation (''password must be at least '' @ show_nat MIN_PASSWORD_LENGTH @ '' characters'')))
      else Inr ())"

definition creation_error :: "db_error \<Rightarrow> sf_error" where
  "creation_error err = (if pg_error_is err UNIQUE_VIOLATION then conflict EMAIL_TAKEN else db_unknown err)"

section \<open>The operations of the Auth port\<close>

definition generate_token :: "auth_service \<Rightarrow> auth_request \<Rightarrow> string \<Rightarrow> string \<Rightarrow> tokens act" where
  "generate_token svc rq email password =
     and_then (or_unknown (store_read (find_user_by_email (rq_faults rq 0) email))) (\<lambda>found.
       case found of
         None \<Rightarrow> fail_act (unauthorized INVALID_CREDENTIALS)
       | Some user \<Rightarrow>
           (if idn_password user = '''' \<or> isl (compare_hash_and_password (as_crypto svc) (idn_password user) password)
            then fail_act (unauthorized INVALID_CREDENTIALS)
            else lift_result (generate_tokens svc rq user)))"

definition register :: "auth_service \<Rightarrow> auth_request \<Rightarrow> registration \<Rightarrow> tokens act" where
  "register svc rq raw =
     (let r = \<lparr>reg_name = trim (reg_name raw), reg_email = clean_email (reg_email raw), reg_password = reg_password raw\<rparr> in
      and_then (lift_result (check_registration svc r)) (\<lambda>_.
      and_then (or_unknown (store_read (find_user_by_email (rq_faults rq 0) (reg_email r)))) (\<lambda>found.
      if found \<noteq> None then fail_act (conflict EMAIL_TAKEN)
      else
        (let (first_name, last_name) = split_name (reg_name r) in
         and_then (lift_result (hash_password (as_crypto svc) (rq_salt rq) (reg_password r))) (\<lambda>hashed.
         and_then (store_write (create_user (rq_faults rq 1) (rq_user_id rq)
           \<lparr>nu_email = reg_email r, nu_user_name = reg_email r, nu_first_name = first_name, nu_last_name = last_name,
            nu_avatar_url = None, nu_password = hashed, nu_roles = sign_up_roles\<rparr>)) (\<lambda>created.
         and_then (lift_result (map_err creation_error created)) (\<lambda>user_id.
         and_then (seed svc rq user_id) (\<lambda>_.
         and_then (require_user_by_id (rq_faults rq 2) user_id) (\<lambda>user.
           lift_result (generate_tokens svc rq user))))))))))"

definition refresh_token :: "auth_service \<Rightarrow> auth_request \<Rightarrow> string \<Rightarrow> tokens act" where
  "refresh_token svc rq token =
     and_then (lift_result (user_id_from svc rq token)) (\<lambda>user_id.
     and_then (require_user_by_id (rq_faults rq 0) user_id) (\<lambda>user.
       lift_result (generate_tokens svc rq user)))"

definition google_login_url :: "auth_service \<Rightarrow> string \<Rightarrow> string" where
  "google_login_url svc state = consent_url (as_google svc) (as_credentials svc) state"

definition login_with_google :: "auth_service \<Rightarrow> auth_request \<Rightarrow> string \<Rightarrow> tokens act" where
  "login_with_google svc rq code =
     and_then (lift_result (account_for (as_google svc) (as_credentials svc) code)) (\<lambda>account.
     if \<not> ga_email_verified account then fail_act (unauthorized UNVERIFIED_GOOGLE_EMAIL)
     else
       (let email = clean_email (ga_email account) in
        and_then (or_unknown (store_read (find_user_by_email (rq_faults rq 0) email))) (\<lambda>found.
        and_then (case found of
            Some user \<Rightarrow> and_then (follow_google_profile (rq_faults rq 1) user account) (\<lambda>_. ok_act user)
          | None \<Rightarrow> create_google_user svc rq email account) (\<lambda>user.
          lift_result (generate_tokens svc rq user)))))"

definition get_identity :: "auth_service \<Rightarrow> auth_request \<Rightarrow> string \<Rightarrow> user_identity act" where
  "get_identity svc rq access_token =
     and_then (lift_result (user_id_from svc rq access_token)) (require_user_by_id (rq_faults rq 0))"

text \<open>The mailer either sends the message or fails.\<close>

definition send_html :: "string option \<Rightarrow> mail \<Rightarrow> unit act" where
  "send_html fault m w = (case fault of Some e \<Rightarrow> (Inl (unknown e), w) | None \<Rightarrow> (Inr (), w\<lparr>w_outbox := w_outbox w @ [m]\<rparr>))"

definition password_recovery :: "auth_service \<Rightarrow> auth_request \<Rightarrow> string \<Rightarrow> string \<Rightarrow> unit act" where
  "password_recovery svc rq email callback_uri =
     and_then (or_unknown (store_read (find_user_by_email (rq_faults rq 0) email))) (\<lambda>found.
       case found of
         None \<Rightarrow> fail_act (not_found ''invalid email address'')
       | Some user \<Rightarrow>
           and_then (or_unknown (store_write (delete_password_reset (rq_faults rq 1) email))) (\<lambda>_.
           let token = random_token (as_crypto svc) (rq_bytes rq) in
           and_then (or_unknown (store_write (create_password_reset (rq_faults rq 2) (rq_now rq) email
             (hash_token (as_crypto svc) token)))) (\<lambda>_.
             send_html (rq_mail_fault rq)
               \<lparr>mail_to = idn_email user, mail_subject = ''Password Recovery'', mail_template = ''password-reset'',
                mail_data = [(''username'', idn_user_name user), (''callbackURI'', callback_uri @ token)]\<rparr>)))"

definition reset_password :: "auth_service \<Rightarrow> auth_request \<Rightarrow> string \<Rightarrow> string \<Rightarrow> unit act" where
  "reset_password svc rq token new_password =
     and_then (or_unknown (store_read (find_password_by_token (rq_faults rq 0) (hash_token (as_crypto svc) token)))) (\<lambda>found.
       case found of
         None \<Rightarrow> fail_act (bad_request ''invalid or expired token'')
       | Some reset \<Rightarrow>
           (if rst_created_at reset + minutes PASSWORD_RESET_TTL_MINUTES < rq_now rq
            then fail_act (bad_request ''invalid or expired token'')
            else
              and_then (lift_result (hash_password (as_crypto svc) (rq_salt rq) new_password)) (\<lambda>hashed.
              and_then (or_unknown (store_write (store_reset_password (rq_faults rq 1) (rst_email reset) hashed))) (\<lambda>_.
                or_unknown (store_write (delete_password_reset (rq_faults rq 2) (rst_email reset)))))))"

end
