(* ===== verification/Auth_Correct.thy ===== *)
theory Auth_Correct
  imports Auth
begin

text \<open>
  What the auth service guarantees. The first part is the invariant of the tables, carried through
  the operations by rules on their combinators; the second what each operation needs and leaves.
\<close>

section \<open>Effects\<close>

lemma and_then_Inr:
  "and_then m f w = (Inr y, w'') \<longleftrightarrow> (\<exists>x w'. m w = (Inr x, w') \<and> f x w' = (Inr y, w''))"
  by (auto simp: and_then_def split: prod.splits sum.splits)

lemma act_Inr:
  "ok_act x w = (Inr y, w') \<longleftrightarrow> y = x \<and> w' = w"
  "fail_act e w \<noteq> (Inr y, w')"
  "lift_result r w = (Inr y, w') \<longleftrightarrow> r = Inr y \<and> w' = w"
  "store_read g w = (Inr q, w') \<longleftrightarrow> q = g (w_iam w) \<and> w' = w"
  "store_write h w = (Inr q, w') \<longleftrightarrow> (\<exists>db. h (w_iam w) = (q, db) \<and> w' = w\<lparr>w_iam := db\<rparr>)"
  "or_unknown m w = (Inr y, w') \<longleftrightarrow> m w = (Inr (Inr y), w')"
  by (auto simp: act_defs split: prod.splits sum.splits)

lemmas act_inv = and_then_Inr act_Inr

lemma act_run [simp]:
  "ok_act x w = (Inr x, w)" "fail_act e w = (Inl e, w)" "lift_result r w = (r, w)"
  "store_read g w = (Inr (g (w_iam w)), w)"
  "or_unknown (store_read q) w = (map_err db_unknown (q (w_iam w)), w)"
  "m w = (Inr y, w') \<Longrightarrow> and_then m f w = f y w'"
  "m w = (Inl e, w') \<Longrightarrow> and_then m f w = (Inl e, w')"
  by (simp_all add: act_defs)

definition keeps :: "(world \<Rightarrow> bool) \<Rightarrow> 'a act \<Rightarrow> bool" where
  "keeps P m \<longleftrightarrow> (\<forall>w. P w \<longrightarrow> P (snd (m w)))"

named_theorems keeps_intros \<open>how the combinators keep an invariant of the state\<close>

lemma keepsD: "keeps P m \<Longrightarrow> P w \<Longrightarrow> P (snd (m w))"
  by (simp add: keeps_def)

lemma keeps_and_then [keeps_intros]: "keeps P m \<Longrightarrow> (\<And>x. keeps P (f x)) \<Longrightarrow> keeps P (and_then m f)"
  by (fastforce simp: keeps_def and_then_def split: prod.split sum.split dest: spec)

lemma keeps_pure [keeps_intros]:
  "keeps P (ok_act x)" "keeps P (fail_act e)" "keeps P (lift_result r)" "keeps P (store_read g)"
  by (simp_all add: keeps_def)

lemma keeps_or_unknown [keeps_intros]: "keeps P m \<Longrightarrow> keeps P (or_unknown m)"
  unfolding or_unknown_def by (intro keeps_intros)

lemma keeps_cases [keeps_intros]:
  "keeps P a \<Longrightarrow> (\<And>x. keeps P (f x)) \<Longrightarrow> keeps P (case_option a f opt)"
  "(\<And>x. keeps P (g x)) \<Longrightarrow> (\<And>x. keeps P (h x)) \<Longrightarrow> keeps P (case_sum g h s)"
  "(\<And>x y. keeps P (k x y)) \<Longrightarrow> keeps P (case_prod k pr)"
  "(b \<Longrightarrow> keeps P a) \<Longrightarrow> (\<not> b \<Longrightarrow> keeps P c) \<Longrightarrow> keeps P (if b then a else c)"
  by (auto split: option.split sum.split prod.split)

lemma keeps_store_write: "(\<And>w. P w \<Longrightarrow> P (w\<lparr>w_iam := snd (h (w_iam w))\<rparr>)) \<Longrightarrow> keeps P (store_write h)"
  by (simp add: keeps_def store_write_def Let_def split: prod.split) (metis snd_conv)

section \<open>The invariant\<close>

text \<open>The keys of the tables hold, the schema store is consistent and an address has one pending reset at most.\<close>

definition world_ok :: "world \<Rightarrow> bool" where
  "world_ok w \<longleftrightarrow> iam_ok (w_iam w) \<and> store_ok (w_schemas w) \<and> distinct (map rst_email (db_resets (w_iam w)))"

lemma seed_keeps [keeps_intros]: "keeps world_ok (seed svc rq u)"
proof -
  have "store_ok (snd (service_create (services env out sid now) u sample_schema st))" if "store_ok st" for env out sid now st
    using live.write_ok [of st env out sid now "Create_schema u sample_schema"] that by simp
  then show ?thesis
    by (simp add: keeps_def seed_def world_ok_def Let_def split: prod.split) (metis snd_conv)
qed

lemma db_resets_create_user [simp]: "db_resets (snd (create_user f i u db)) = db_resets db"
  by (auto simp: create_user_def insert_user_def split: option.split list.split sum.split)

lemma db_resets_update [simp]:
  "db_resets (snd (update_profile f i g l a db)) = db_resets db"
  "db_resets (snd (store_reset_password f e p db)) = db_resets db"
  by (auto simp: update_profile_def store_reset_password_def dest: update_usersE(1) split: option.split sum.split)

lemma create_user_keeps [keeps_intros]: "keeps world_ok (store_write (create_user f i u))"
  by (rule keeps_store_write) (auto simp: world_ok_def intro: create_user_ok [OF prod.collapse [symmetric]])

lemma update_profile_keeps [keeps_intros]: "keeps world_ok (store_write (update_profile f i g l a))"
  by (rule keeps_store_write) (simp add: world_ok_def update_profile_ok)

lemma store_reset_password_keeps [keeps_intros]: "keeps world_ok (store_write (store_reset_password f e p))"
  by (rule keeps_store_write) (simp add: world_ok_def store_reset_password_ok)

lemma delete_password_reset_keeps [keeps_intros]: "keeps world_ok (store_write (delete_password_reset f e))"
  by (rule keeps_store_write)
    (auto simp: world_ok_def delete_password_reset_ok delete_password_reset_def distinct_map_filter split: option.split)

lemma send_html_keeps [keeps_intros]: "keeps world_ok (send_html f m)"
  by (simp add: keeps_def send_html_def world_ok_def split: option.split)

text \<open>The new reset comes after the deletion of the address's own ones.\<close>

lemma replace_reset_keeps:
  "keeps world_ok (and_then (or_unknown (store_write (delete_password_reset f email))) (\<lambda>_.
     and_then (or_unknown (store_write (create_password_reset g now email t))) k))"
  if "\<And>x. keeps world_ok (k x)"
  unfolding keeps_def
proof (intro allI impI)
  fix w assume ok: "world_ok w"
  let ?db = "snd (delete_password_reset f email (w_iam w))"
  have del: "or_unknown (store_write (delete_password_reset f email)) w =
      (map_err db_unknown (fst (delete_password_reset f email (w_iam w))), w\<lparr>w_iam := ?db\<rparr>)"
    by (simp add: act_defs split: prod.split)
  have "world_ok (w\<lparr>w_iam := ?db\<rparr>)"
    using keepsD [OF delete_password_reset_keeps ok, of f email] by (simp add: store_write_def split_beta)
  moreover have "email \<notin> rst_email ` set (db_resets ?db)" if "fst (delete_password_reset f email (w_iam w)) = Inr ()"
    using that by (auto simp: delete_password_reset_def split: option.splits)
  ultimately have "world_ok (snd (or_unknown (store_write (create_password_reset g now email t)) (w\<lparr>w_iam := ?db\<rparr>)))"
    if "fst (delete_password_reset f email (w_iam w)) = Inr ()"
    using that create_password_reset_ok [of ?db g now email t]
    by (auto simp: act_defs world_ok_def create_password_reset_def split: option.split prod.split)
  with del \<open>world_ok (w\<lparr>w_iam := ?db\<rparr>)\<close>
  show "world_ok (snd (and_then (or_unknown (store_write (delete_password_reset f email))) (\<lambda>_.
     and_then (or_unknown (store_write (create_password_reset g now email t))) k) w))"
    using that unfolding and_then_def keeps_def
    by (cases "fst (delete_password_reset f email (w_iam w))") (auto split: sum.splits prod.splits)
qed

lemma profile_keeps [keeps_intros]: "keeps world_ok (follow_google_profile f u a)"
  unfolding follow_google_profile_def Let_def by (intro keeps_intros)

lemma require_keeps [keeps_intros]: "keeps world_ok (require_user_by_id f u)"
  unfolding require_user_by_id_def by (intro keeps_intros)

lemma google_user_keeps [keeps_intros]: "keeps world_ok (create_google_user svc rq e a)"
  unfolding create_google_user_def Let_def by (intro keeps_intros)

lemma auth_keeps:
  "keeps world_ok (generate_token svc rq e p)" "keeps world_ok (register svc rq reg)"
  "keeps world_ok (refresh_token svc rq t)" "keeps world_ok (login_with_google svc rq c)"
  "keeps world_ok (get_identity svc rq t)" "keeps world_ok (password_recovery svc rq e uri)"
  "keeps world_ok (reset_password svc rq t p)"
  unfolding generate_token_def register_def refresh_token_def login_with_google_def get_identity_def
    password_recovery_def reset_password_def Let_def
  by (intro keeps_intros replace_reset_keeps)+

section \<open>Signing in with a password\<close>

lemma compare_ok: "compare_hash_and_password lib h p = Inr x \<longleftrightarrow> bcrypt_verify lib p h = Inr True"
  by (auto simp: compare_hash_and_password_def split: sum.split bool.split)

lemma compare_isl: "isl (compare_hash_and_password lib h p) \<longleftrightarrow> bcrypt_verify lib p h \<noteq> Inr True"
  by (auto simp: compare_hash_and_password_def isl_def split: sum.split bool.split)

text \<open>The accounts an address and a password open.\<close>

definition opens :: "auth_service \<Rightarrow> string \<Rightarrow> string \<Rightarrow> user_row \<Rightarrow> bool" where
  "opens svc email password r \<longleftrightarrow>
     us_email r = email \<and> us_password r \<noteq> '''' \<and> bcrypt_verify (as_crypto svc) password (us_password r) = Inr True"

lemma login_sound:
  assumes "generate_token svc rq email password w = (Inr t, w')"
  shows "w' = w \<and> (\<exists>r \<in> set (db_users (w_iam w)). opens svc email password r \<and>
    generate_tokens svc rq (identity_of (w_iam w) r) = Inr t)"
proof -
  obtain found where found: "find_user_by_email (rq_faults rq 0) email (w_iam w) = Inr found"
      and rest: "(case found of None \<Rightarrow> fail_act (unauthorized INVALID_CREDENTIALS)
        | Some user \<Rightarrow> if idn_password user = '''' \<or> isl (compare_hash_and_password (as_crypto svc) (idn_password user) password)
            then fail_act (unauthorized INVALID_CREDENTIALS) else lift_result (generate_tokens svc rq user)) w = (Inr t, w')"
    using assms by (auto simp: generate_token_def act_inv)
  then obtain r where "List.find (\<lambda>r. us_email r = email) (db_users (w_iam w)) = Some r" "found = Some (identity_of (w_iam w) r)"
    using find_user_Inr [OF found [unfolded find_user_by_email_def]] by (cases found) auto
  with rest show ?thesis
    by (auto simp: opens_def compare_isl identity_of_def dest!: find_Some split: if_splits)
qed

lemma opens_found:
  assumes "iam_ok db" and "row \<in> set (db_users db)" and "opens svc email password row"
  shows "List.find (opens svc email password) (db_users db) = Some row"
proof (cases "List.find (opens svc email password) (db_users db)")
  case None
  then show ?thesis using assms(2,3) by (auto simp: find_None_iff)
next
  case (Some v)
  then have "v \<in> set (db_users db)" "us_email v = us_email row" using assms(3) by (auto simp: opens_def dest!: find_Some)
  then have "v = row" by (metis find_email [OF assms(1)] assms(2) option.inject)
  then show ?thesis using Some by simp
qed

lemma login_decides:
  assumes "iam_ok (w_iam w)" and "db_calm (rq_faults rq 0)"
  shows "generate_token svc rq email password w =
    ((case List.find (opens svc email password) (db_users (w_iam w)) of
        Some r \<Rightarrow> generate_tokens svc rq (identity_of (w_iam w) r)
      | None \<Rightarrow> Inl (unauthorized INVALID_CREDENTIALS)), w)"
proof (cases "List.find (\<lambda>r. us_email r = email) (db_users (w_iam w))")
  case None
  then have "List.find (opens svc email password) (db_users (w_iam w)) = None"
    by (auto simp: find_None_iff opens_def)
  with None show ?thesis
    by (simp add: generate_token_def find_user_by_email_def find_user_calm assms and_then_def map_err_def)
next
  case (Some r)
  then have r: "r \<in> set (db_users (w_iam w))" "us_email r = email" by (auto dest: find_Some)
  have only: "v = r" if "v \<in> set (db_users (w_iam w))" "us_email v = email" for v
    using find_email [OF assms(1) that(1)] Some that(2) by simp
  have "List.find (opens svc email password) (db_users (w_iam w)) = (if opens svc email password r then Some r else None)"
  proof (cases "List.find (opens svc email password) (db_users (w_iam w))")
    case None
    then show ?thesis using r(1) by (auto simp: find_None_iff)
  next
    case (Some v)
    then have "v \<in> set (db_users (w_iam w))" "opens svc email password v" by (auto dest: find_Some)
    then show ?thesis using Some only [of v] by (auto simp: opens_def)
  qed
  with Some r show ?thesis
    by (simp add: generate_token_def find_user_by_email_def find_user_calm assms and_then_def map_err_def
        compare_isl opens_def) (auto simp: identity_of_def)
qed

section \<open>Tokens name the account\<close>

lemma user_id_from_jwt:
  assumes "jwt_sound (as_jwt svc)" and "generate_jwt (as_jwt svc) claims expires_at = Inr t"
    and "claims ''user_id'' = Some (JString (show_uuid (as_env svc) u))"
    and "parse_uuid (as_env svc) (show_uuid (as_env svc) u) = Some u"
  shows "seconds (rq_now rq) \<le> expires_at \<Longrightarrow> user_id_from svc rq t = Inr u"
    and "expires_at < seconds (rq_now rq) \<Longrightarrow> \<exists>e. user_id_from svc rq t = Inl e \<and> app_code e = UNAUTHORIZED"
  using jwt_round_trip [OF assms(1,2), of "seconds (rq_now rq)"] jwt_expired [OF assms(1,2), of "seconds (rq_now rq)"] assms(3,4)
  by (auto simp: user_id_from_def map_err_def unauthorized_def error_new_def)

lemma generate_tokens_Inr:
  "generate_tokens svc rq user = Inr t \<longleftrightarrow>
     generate_jwt (as_jwt svc) (access_claims svc user) (seconds (rq_now rq + as_token_ttl svc * 1000000)) = Inr (tk_token t) \<and>
     generate_jwt (as_jwt svc) (refresh_claims svc user) (seconds (rq_now rq + as_refresh_token_ttl svc * 1000000)) = Inr (tk_refresh_token t)"
  by (cases t) (auto simp: generate_tokens_def bind_ok_def split: sum.splits)

lemma require_user_calm:
  assumes "iam_ok (w_iam w)" and "db_calm f" and "r \<in> set (db_users (w_iam w))"
  shows "require_user_by_id f (us_id r) w = (Inr (identity_of (w_iam w) r), w)"
  using assms
  by (simp add: require_user_by_id_def and_then_def find_user_by_id_def find_user_calm find_id map_err_def)

text \<open>The claims of both kinds of token carry the id, which is all a reader looks at.\<close>

lemma token_identity:
  assumes "jwt_sound (as_jwt svc)" and "parse_uuid (as_env svc) (show_uuid (as_env svc) (us_id r)) = Some (us_id r)"
    and "generate_tokens svc rq (identity_of db0 r0) = Inr t" and "us_id r0 = us_id r"
    and "iam_ok (w_iam w)" and "r \<in> set (db_users (w_iam w))" and "db_calm (rq_faults rq2 0)"
  shows "seconds (rq_now rq2) \<le> seconds (rq_now rq + as_token_ttl svc * 1000000) \<Longrightarrow>
      get_identity svc rq2 (tk_token t) w = (Inr (identity_of (w_iam w) r), w)"
    and "seconds (rq_now rq2) \<le> seconds (rq_now rq + as_refresh_token_ttl svc * 1000000) \<Longrightarrow>
      get_identity svc rq2 (tk_refresh_token t) w = (Inr (identity_of (w_iam w) r), w)"
    and "seconds (rq_now rq + as_token_ttl svc * 1000000) < seconds (rq_now rq2) \<Longrightarrow>
      \<exists>e. get_identity svc rq2 (tk_token t) w = (Inl e, w) \<and> app_code e = UNAUTHORIZED"
proof -
  have gen: "generate_jwt (as_jwt svc) (access_claims svc (identity_of db0 r0)) (seconds (rq_now rq + as_token_ttl svc * 1000000)) = Inr (tk_token t)"
    "generate_jwt (as_jwt svc) (refresh_claims svc (identity_of db0 r0)) (seconds (rq_now rq + as_refresh_token_ttl svc * 1000000)) = Inr (tk_refresh_token t)"
    using assms(3) by (simp_all add: generate_tokens_Inr)
  have ids: "access_claims svc (identity_of db0 r0) ''user_id'' = Some (JString (show_uuid (as_env svc) (us_id r)))"
    "refresh_claims svc (identity_of db0 r0) ''user_id'' = Some (JString (show_uuid (as_env svc) (us_id r)))"
    using assms(4) by (simp_all add: access_claims_def refresh_claims_def identity_of_def)
  note access = user_id_from_jwt [OF assms(1) gen(1) ids(1) assms(2), of rq2]
  note refresh = user_id_from_jwt [OF assms(1) gen(2) ids(2) assms(2), of rq2]
  show "get_identity svc rq2 (tk_token t) w = (Inr (identity_of (w_iam w) r), w)"
    if "seconds (rq_now rq2) \<le> seconds (rq_now rq + as_token_ttl svc * 1000000)"
    using access(1) [OF that] require_user_calm [OF assms(5,7,6)] by (simp add: get_identity_def and_then_def)
  show "get_identity svc rq2 (tk_refresh_token t) w = (Inr (identity_of (w_iam w) r), w)"
    if "seconds (rq_now rq2) \<le> seconds (rq_now rq + as_refresh_token_ttl svc * 1000000)"
    using refresh(1) [OF that] require_user_calm [OF assms(5,7,6)] by (simp add: get_identity_def and_then_def)
  show "\<exists>e. get_identity svc rq2 (tk_token t) w = (Inl e, w) \<and> app_code e = UNAUTHORIZED"
    if "seconds (rq_now rq + as_token_ttl svc * 1000000) < seconds (rq_now rq2)"
    using access(2) [OF that] by (auto simp: get_identity_def and_then_def)
qed

section \<open>Signing up\<close>

lemma seed_Inr:
  "seed svc rq u w = (Inr x, w') \<longleftrightarrow>
     (\<exists>s st. service_create (services (as_env svc) (rq_outages rq) (rq_schema_id rq) (rq_now rq)) u sample_schema (w_schemas w) = (Inr s, st) \<and>
       w' = w\<lparr>w_schemas := st\<rparr>)"
  by (auto simp: seed_def map_sum_def split: prod.splits sum.splits)

lemma require_user_Inr:
  assumes "require_user_by_id f u w = (Inr user, w')"
  obtains r where "w' = w" "r \<in> set (db_users (w_iam w))" "us_id r = u" "user = identity_of (w_iam w) r"
proof -
  obtain found where "find_user_by_id f u (w_iam w) = Inr found" and
    "(case found of None \<Rightarrow> fail_act (unauthorized INVALID_REFRESH_TOKEN) | Some user \<Rightarrow> ok_act user) w = (Inr user, w')"
    using assms by (auto simp: require_user_by_id_def act_inv)
  then show thesis using that
    by (auto simp: find_user_by_id_def dest!: find_user_Inr find_Some split: option.splits)
qed

lemma register_effects:
  assumes reg: "register svc rq raw w = (Inr t, w')" and ok: "world_ok w"
  obtains row s where "us_id row = rq_user_id rq" and "us_email row = clean_email (reg_email raw)"
    and "bcrypt_hash (as_crypto svc) (rq_salt rq) (reg_password raw) = Inr (us_password row)"
    and "db_users (w_iam w') = db_users (w_iam w) @ [row]"
    and "role_names (w_iam w') (us_id row) = map snd (filter (\<lambda>(_, name). name = ''Developer'') (db_roles (w_iam w)))"
    and "\<And>p. p \<noteq> us_id row \<Longrightarrow> role_names (w_iam w') p = role_names (w_iam w) p"
    and "us_id row \<notin> us_id ` set (db_users (w_iam w))"
    and "service_create (services (as_env svc) (rq_outages rq) (rq_schema_id rq) (rq_now rq)) (us_id row) sample_schema (w_schemas w) =
      (Inr s, w_schemas w')"
    and "generate_tokens svc rq (identity_of (w_iam w') row) = Inr t"
proof -
  obtain hashed user_id db s st user g l where
      hash: "bcrypt_hash (as_crypto svc) (rq_salt rq) (reg_password raw) = Inr hashed"
    and create: "create_user (rq_faults rq 1) (rq_user_id rq)
        \<lparr>nu_email = clean_email (reg_email raw), nu_user_name = clean_email (reg_email raw), nu_first_name = g, nu_last_name = l,
         nu_avatar_url = None, nu_password = hashed, nu_roles = sign_up_roles\<rparr> (w_iam w) = (Inr user_id, db)"
    and sd: "service_create (services (as_env svc) (rq_outages rq) (rq_schema_id rq) (rq_now rq)) user_id sample_schema (w_schemas w) = (Inr s, st)"
    and req: "require_user_by_id (rq_faults rq 2) user_id (w\<lparr>w_iam := db, w_schemas := st\<rparr>) = (Inr user, w')"
    and tok: "generate_tokens svc rq user = Inr t"
    using reg
    by (auto simp: register_def Let_def act_inv seed_Inr hash_password_def split: if_splits prod.splits)
  have iam: "iam_ok (w_iam w)" using ok by (simp add: world_ok_def)
  obtain row where row: "user_id = rq_user_id rq" "us_id row = rq_user_id rq" "db_users db = db_users (w_iam w) @ [row]"
      "rq_user_id rq \<notin> us_id ` set (db_users (w_iam w))" "us_email row = clean_email (reg_email raw)" "us_password row = hashed"
    and roles: "role_names db (rq_user_id rq) = map snd (filter (\<lambda>(_, name). name = ''Developer'') (db_roles (w_iam w)))"
      "\<And>p. p \<noteq> rq_user_id rq \<Longrightarrow> role_names db p = role_names (w_iam w) p"
    by (rule created_account [OF create iam], rule that) (simp_all add: sign_up_roles_def)
  obtain r where r: "w' = w\<lparr>w_iam := db, w_schemas := st\<rparr>" "r \<in> set (db_users db)" "us_id r = user_id" "user = identity_of db r"
    using require_user_Inr [OF req] by auto
  have "r = row" using r row by force
  with r row roles hash sd tok show thesis by (intro that [of row s]) simp_all
qed

text \<open>Seeding is not part of the transaction that makes the account.\<close>

lemma register_seed_fails:
  assumes "check_registration svc \<lparr>reg_name = trim (reg_name raw), reg_email = clean_email (reg_email raw), reg_password = reg_password raw\<rparr> = Inr ()"
    and "find_user_by_email (rq_faults rq 0) (clean_email (reg_email raw)) (w_iam w) = Inr None"
    and "bcrypt_hash (as_crypto svc) (rq_salt rq) (reg_password raw) = Inr h"
    and "create_user (rq_faults rq 1) (rq_user_id rq)
      \<lparr>nu_email = clean_email (reg_email raw), nu_user_name = clean_email (reg_email raw),
       nu_first_name = fst (split_name (trim (reg_name raw))), nu_last_name = snd (split_name (trim (reg_name raw))),
       nu_avatar_url = None, nu_password = h, nu_roles = sign_up_roles\<rparr> (w_iam w) = (Inr u, db)"
    and "service_create (services (as_env svc) (rq_outages rq) (rq_schema_id rq) (rq_now rq)) u sample_schema (w_schemas w) = (Inl e, st)"
  shows "register svc rq raw w = (Inl e, w\<lparr>w_iam := db, w_schemas := st\<rparr>)"
  using assms
  by (simp add: register_def Let_def and_then_def or_unknown_def store_write_def map_err_def hash_password_def
      seed_def map_sum_def split_beta)

lemma register_taken:
  assumes "check_registration svc \<lparr>reg_name = trim (reg_name raw), reg_email = clean_email (reg_email raw), reg_password = reg_password raw\<rparr> = Inr ()"
    and "find_user_by_email (rq_faults rq 0) (clean_email (reg_email raw)) (w_iam w) = Inr (Some i)"
  shows "register svc rq raw w = (Inl (conflict EMAIL_TAKEN), w)"
  using assms by (simp add: register_def Let_def and_then_def or_unknown_def map_err_def)

section \<open>Forgotten passwords\<close>

lemma update_users_Inr: "update_users p f db = Inr db' \<Longrightarrow> db' = db\<lparr>db_users := map (\<lambda>r. if p r then f r else r) (db_users db)\<rparr>"
  by (rule update_usersE(1))

lemma recovery_effects:
  assumes "password_recovery svc rq email uri w = (Inr x, w')"
  obtains r where "r \<in> set (db_users (w_iam w))" and "us_email r = email"
    and "db_users (w_iam w') = db_users (w_iam w)"
    and "db_resets (w_iam w') = filter (\<lambda>p. rst_email p \<noteq> email) (db_resets (w_iam w)) @
      [\<lparr>rst_email = email, rst_token = hash_token (as_crypto svc) (random_token (as_crypto svc) (rq_bytes rq)),
        rst_created_at = rq_now rq\<rparr>]"
    and "w_outbox w' = w_outbox w @ [\<lparr>mail_to = email, mail_subject = ''Password Recovery'', mail_template = ''password-reset'',
      mail_data = [(''username'', us_user_name r), (''callbackURI'', uri @ random_token (as_crypto svc) (rq_bytes rq))]\<rparr>]"
proof -
  obtain r where r: "List.find (\<lambda>r. us_email r = email) (db_users (w_iam w)) = Some r"
      and found: "find_user_by_email (rq_faults rq 0) email (w_iam w) = Inr (Some (identity_of (w_iam w) r))"
    using assms
    by (auto simp: password_recovery_def act_inv find_user_by_email_def split: option.splits)
      (metis (no_types, lifting) find_user_Inr map_option_eq_Some)
  have "r \<in> set (db_users (w_iam w))" "us_email r = email" using r by (auto dest: find_Some)
  with assms found show thesis
    by (intro that [of r])
      (auto simp: password_recovery_def act_inv Let_def delete_password_reset_def create_password_reset_def send_html_def
        identity_of_def split: option.splits if_splits)
qed

lemma reset_effects:
  assumes "reset_password svc rq token new_password w = (Inr x, w')"
  obtains p h where "p \<in> set (db_resets (w_iam w))" and "rst_token p = hash_token (as_crypto svc) token"
    and "rq_now rq \<le> rst_created_at p + minutes PASSWORD_RESET_TTL_MINUTES"
    and "bcrypt_hash (as_crypto svc) (rq_salt rq) new_password = Inr h"
    and "db_users (w_iam w') = map (\<lambda>r. if us_email r = rst_email p then r\<lparr>us_password := h\<rparr> else r) (db_users (w_iam w))"
    and "db_resets (w_iam w') = filter (\<lambda>q. rst_email q \<noteq> rst_email p) (db_resets (w_iam w))"
proof -
  obtain p h db where p: "List.find (\<lambda>q. rst_token q = hash_token (as_crypto svc) token) (db_resets (w_iam w)) = Some p"
      and time: "\<not> rst_created_at p + minutes PASSWORD_RESET_TTL_MINUTES < rq_now rq"
      and h: "bcrypt_hash (as_crypto svc) (rq_salt rq) new_password = Inr h"
      and up: "update_users (\<lambda>r. us_email r = rst_email p) (\<lambda>r. r\<lparr>us_password := h\<rparr>) (w_iam w) = Inr db"
      and w': "w' = w\<lparr>w_iam := db\<lparr>db_resets := filter (\<lambda>q. rst_email q \<noteq> rst_email p) (db_resets db)\<rparr>\<rparr>"
    using assms
    by (auto simp: reset_password_def act_inv hash_password_def find_password_by_token_def store_reset_password_def
        delete_password_reset_def split: option.splits if_splits sum.splits)
  show thesis
    using find_Some [OF p] time h w' update_users_Inr [OF up] by (intro that [of p h]) auto
qed

text \<open>The link that was mailed works once, for fifteen minutes, and the new password then opens the account.\<close>

lemma recovery_flow:
  assumes ok: "world_ok w" and sound: "bcrypt_sound (as_crypto svc)"
    and rec: "password_recovery svc rq email uri w = (Inr x, w1)"
    and fresh: "hash_token (as_crypto svc) (random_token (as_crypto svc) (rq_bytes rq)) \<notin> rst_token ` set (db_resets (w_iam w))"
    and time: "rq_now rq2 \<le> rq_now rq + minutes PASSWORD_RESET_TTL_MINUTES"
    and calm: "\<And>i. db_calm (rq_faults rq2 i)"
    and hash: "bcrypt_hash (as_crypto svc) (rq_salt rq2) new_password = Inr h"
  obtains w2 r where "reset_password svc rq2 (random_token (as_crypto svc) (rq_bytes rq)) new_password w1 = (Inr (), w2)"
    and "r \<in> set (db_users (w_iam w2))" and "opens svc email new_password r"
    and "\<And>rq3 p. db_calm (rq_faults rq3 0) \<Longrightarrow>
      reset_password svc rq3 (random_token (as_crypto svc) (rq_bytes rq)) p w2 = (Inl (bad_request ''invalid or expired token''), w2)"
proof -
  let ?token = "random_token (as_crypto svc) (rq_bytes rq)"
  let ?digest = "hash_token (as_crypto svc) ?token"
  let ?p = "\<lparr>rst_email = email, rst_token = ?digest, rst_created_at = rq_now rq\<rparr>"
  obtain r where r: "r \<in> set (db_users (w_iam w))" "us_email r = email" and us: "db_users (w_iam w1) = db_users (w_iam w)"
      and rs: "db_resets (w_iam w1) = filter (\<lambda>p. rst_email p \<noteq> email) (db_resets (w_iam w)) @ [?p]"
    using rec by (rule recovery_effects)
  have ok1: "world_ok w1" using keepsD [OF auth_keeps(6) ok, of svc rq email uri] rec by simp
  have iam1: "iam_ok (w_iam w1)" using ok1 by (simp add: world_ok_def)
  have none: "List.find (\<lambda>q. rst_token q = ?digest) (filter (\<lambda>p. rst_email p \<noteq> email) (db_resets (w_iam w))) = None"
    using fresh by (fastforce simp: find_None_iff image_iff)
  have find: "find_password_by_token (rq_faults rq2 0) ?digest (w_iam w1) = Inr (Some ?p)"
    using calm by (simp add: find_password_by_token_def rs find_append none)
  have h: "bcrypt_verify (as_crypto svc) new_password h = Inr True" "h \<noteq> ''''" "length h \<le> 60"
    using sound hash by (auto simp: bcrypt_sound_def)
  let ?f = "\<lambda>r. r\<lparr>us_password := h\<rparr>"
  let ?users = "map (\<lambda>r. if us_email r = email then ?f r else r) (db_users (w_iam w1))"
  have up: "update_users (\<lambda>r. us_email r = email) ?f (w_iam w1) = Inr ((w_iam w1)\<lparr>db_users := ?users\<rparr>)"
    using iam1 h(3) by (intro update_users_fits) (auto simp: iam_ok_def users_linked_def list_all_iff user_row_too_long_def)
  let ?w2 = "w1\<lparr>w_iam := (w_iam w1)\<lparr>db_users := ?users, db_resets := filter (\<lambda>p. rst_email p \<noteq> email) (db_resets (w_iam w1))\<rparr>\<rparr>"
  have "reset_password svc rq2 ?token new_password w1 = (Inr (), ?w2)"
    using time calm hash find up
    by (simp add: reset_password_def and_then_def or_unknown_def store_write_def map_err_def hash_password_def
        store_reset_password_def delete_password_reset_def)
  moreover have "?f r \<in> set (db_users (w_iam ?w2))" using r us by (auto simp: image_iff)
  moreover have "opens svc email new_password (?f r)" using r h by (simp add: opens_def)
  moreover have "reset_password svc rq3 ?token p ?w2 = (Inl (bad_request ''invalid or expired token''), ?w2)"
    if "db_calm (rq_faults rq3 0)" for rq3 p
    using that none
    by (simp add: reset_password_def and_then_def or_unknown_def map_err_def find_password_by_token_def rs)
  ultimately show thesis by (rule that)
qed

section \<open>Signing in with Google\<close>

text \<open>Every account keeps its address, its password and its roles.\<close>

definition same_access :: "iam_db \<Rightarrow> iam_db \<Rightarrow> bool" where
  "same_access db db' \<longleftrightarrow> (\<forall>r \<in> set (db_users db). role_names db' (us_id r) = role_names db (us_id r) \<and>
     (\<exists>r' \<in> set (db_users db'). us_id r' = us_id r \<and> us_email r' = us_email r \<and> us_password r' = us_password r))"

lemma map_same_access:
  assumes "\<And>r. us_id (f r) = us_id r" "\<And>r. us_email (f r) = us_email r" "\<And>r. us_password (f r) = us_password r"
  shows "same_access db (db\<lparr>db_users := map f (db_users db)\<rparr>)"
  using assms by (auto simp: same_access_def role_names_def)

lemma profile_effects:
  assumes "follow_google_profile f user account w = (Inr x, w')"
  shows "same_access (w_iam w) (w_iam w')" and "w_schemas w' = w_schemas w"
proof -
  obtain g l where sp: "split_name (ga_name account) = (g, l)" by fastforce
  consider "w' = w" | db' where "w' = w\<lparr>w_iam := db'\<rparr>" and
      "update_users (\<lambda>r. us_id r = idn_id user) (\<lambda>r. r\<lparr>us_first_name := g, us_last_name := l, us_avatar_url := ga_picture account\<rparr>) (w_iam w) = Inr db'"
    using assms by (auto simp: follow_google_profile_def sp Let_def act_inv update_profile_def split: if_splits option.splits sum.splits)
  then have "same_access (w_iam w) (w_iam w') \<and> w_schemas w' = w_schemas w"
  proof cases
    case 1
    then show ?thesis by (auto simp: same_access_def)
  next
    case 2
    show ?thesis unfolding 2(1) update_users_Inr [OF 2(2)] by (simp add: map_same_access)
  qed
  then show "same_access (w_iam w) (w_iam w')" and "w_schemas w' = w_schemas w" by simp_all
qed

lemma google_new_account:
  assumes "create_user f i nu db = (Inr u, db')" and "iam_ok db"
  shows "same_access db db'"
  using assms by (rule created_account) (auto simp: same_access_def image_iff)

lemma google_existing:
  assumes "find_user_by_email f email (w_iam w) = Inr (Some user)"
    and "follow_google_profile g user account w = (Inr x, w')"
  obtains r where "r \<in> set (db_users (w_iam w'))" "us_email r = email" "us_id r = idn_id user" "same_access (w_iam w) (w_iam w')"
proof -
  obtain r0 where "r0 \<in> set (db_users (w_iam w))" "us_email r0 = email" "us_id r0 = idn_id user"
    using find_user_Inr [OF assms(1) [unfolded find_user_by_email_def]] by (auto simp: identity_of_def dest!: find_Some)
  with profile_effects(1) [OF assms(2)] show thesis using that unfolding same_access_def by metis
qed

lemma google_created:
  assumes "create_google_user svc rq email account w = (Inr user, w')" and ok: "iam_ok (w_iam w)"
  obtains r where "r \<in> set (db_users (w_iam w'))" "us_email r = email" "us_id r = idn_id user" "same_access (w_iam w) (w_iam w')"
proof -
  obtain g l where sp: "split_name (ga_name account) = (g, l)" by fastforce
  define nu where "nu = \<lparr>nu_email = email, nu_user_name = email, nu_first_name = g, nu_last_name = l,
    nu_avatar_url = ga_picture account, nu_password = '''', nu_roles = sign_up_roles\<rparr>"
  consider u db st where "create_user (rq_faults rq 1) (rq_user_id rq) nu (w_iam w) = (Inr u, db)"
      and "require_user_by_id (rq_faults rq 2) u (w\<lparr>w_iam := db, w_schemas := st\<rparr>) = (Inr user, w')"
    | e x where "create_user (rq_faults rq 1) (rq_user_id rq) nu (w_iam w) = (Inl e, w_iam w)"
      and "find_user_by_email (rq_faults rq 2) email (w_iam w) = Inr (Some user)"
      and "follow_google_profile (rq_faults rq 3) user account w = (Inr x, w')"
  proof -
    obtain created db where c: "create_user (rq_faults rq 1) (rq_user_id rq) nu (w_iam w) = (created, db)"
      by fastforce
    show thesis
    proof (cases created)
      case (Inr u)
      then show thesis using that(1) assms(1) c
        by (auto simp: create_google_user_def sp nu_def [symmetric] act_inv seed_Inr)
    next
      case (Inl e)
      then have "db = w_iam w" using create_user_error c by blast
      with Inl show thesis using that(2) assms(1) c
        by (auto simp: create_google_user_def sp nu_def [symmetric] act_inv split: if_splits option.splits)
    qed
  qed
  then show thesis
  proof cases
    case 1
    obtain row where row: "us_id row = rq_user_id rq" "u = rq_user_id rq" "us_email row = email" "db_users db = db_users (w_iam w) @ [row]"
        "rq_user_id rq \<notin> us_id ` set (db_users (w_iam w))"
      by (rule created_account [OF 1(1) ok], rule that) (simp_all add: nu_def)
    obtain r where r: "w' = w\<lparr>w_iam := db, w_schemas := st\<rparr>" "r \<in> set (db_users db)" "us_id r = u" "user = identity_of db r"
      using require_user_Inr [OF 1(2)] by auto
    have "r = row" using r row by force
    then show thesis
      using that [of row] row r google_new_account [OF 1(1) ok] by (simp add: identity_of_def)
  next
    case 2
    then show thesis using that google_existing by metis
  qed
qed

lemma google_effects:
  assumes "login_with_google svc rq code w = (Inr t, w')" and ok: "iam_ok (w_iam w)"
  obtains account user r where "account_for (as_google svc) (as_credentials svc) code = Inr account"
    and "ga_email_verified account" and "r \<in> set (db_users (w_iam w'))" and "us_email r = clean_email (ga_email account)"
    and "us_id r = idn_id user" and "generate_tokens svc rq user = Inr t" and "same_access (w_iam w) (w_iam w')"
proof -
  obtain account found user where a: "account_for (as_google svc) (as_credentials svc) code = Inr account" "ga_email_verified account"
      and found: "find_user_by_email (rq_faults rq 0) (clean_email (ga_email account)) (w_iam w) = Inr found"
      and user: "(case found of
            Some user \<Rightarrow> and_then (follow_google_profile (rq_faults rq 1) user account) (\<lambda>_. ok_act user)
          | None \<Rightarrow> create_google_user svc rq (clean_email (ga_email account)) account) w = (Inr user, w')"
      and t: "generate_tokens svc rq user = Inr t"
    using assms(1) by (auto simp: login_with_google_def Let_def act_inv split: if_splits)
  show thesis
  proof (cases found)
    case None
    then have "create_google_user svc rq (clean_email (ga_email account)) account w = (Inr user, w')" using user by simp
    then show thesis using ok by (rule google_created) (rule that [OF a _ _ _ t])
  next
    case (Some u)
    then obtain x where "u = user" "follow_google_profile (rq_faults rq 1) user account w = (Inr x, w')"
      using user by (auto simp: act_inv)
    with found Some have f: "find_user_by_email (rq_faults rq 0) (clean_email (ga_email account)) (w_iam w) = Inr (Some user)"
      "follow_google_profile (rq_faults rq 1) user account w = (Inr x, w')" by simp_all
    show thesis by (rule google_existing [OF f]) (rule that [OF a _ _ _ t])
  qed
qed

end
