(* ===== verification/Rbac.thy ===== *)
theory Rbac
  imports Iam_Store
begin

text \<open>
  The permission engine of \<^verbatim>\<open>package/rbac\<close>: an action \<open>Resource.Name\<close> is allowed to a user who
  holds the super role, or a role that grants it. The engine is written over any store, as the
  code is over \<open>Arc<dyn Store>\<close>; the contract it needs of a store is the locale
  \<open>permission_store\<close>, which the Postgres store of \<open>Iam_Store\<close> meets.
\<close>

record rbac_store =
  rs_get_roles :: "uuid \<Rightarrow> db_error + string list"
  rs_get_permissions :: "uuid \<Rightarrow> db_error + permission list"
  rs_has_permission :: "uuid \<Rightarrow> string \<Rightarrow> string \<Rightarrow> db_error + bool"

record rbac_engine =
  super_role :: string
  rbac_store :: rbac_store

definition split_action :: "string \<Rightarrow> (string \<times> string) option" where
  "split_action action = split_once (CHR ''.'') action"

definition role_bypass :: "rbac_engine \<Rightarrow> uuid \<Rightarrow> bool" where
  "role_bypass e u = (case rs_get_roles (rbac_store e) u of
     Inr roles \<Rightarrow> super_role e \<in> set roles
   | Inl _ \<Rightarrow> False)"

definition can :: "rbac_engine \<Rightarrow> uuid \<Rightarrow> string \<Rightarrow> bool" where
  "can e u action =
     (if role_bypass e u then True
      else case split_action action of
        None \<Rightarrow> False
      | Some (resource, permission) \<Rightarrow>
         (case rs_has_permission (rbac_store e) u resource permission of
            Inr allowed \<Rightarrow> allowed
          | Inl _ \<Rightarrow> False))"

definition permissions_of :: "rbac_engine \<Rightarrow> uuid \<Rightarrow> permission list" where
  "permissions_of e u = (case rs_get_permissions (rbac_store e) u of Inr ps \<Rightarrow> ps | Inl _ \<Rightarrow> [])"

text \<open>\<open>granted.entry(resource).or_default().push(name)\<close> for each permission in turn.\<close>

definition grant_entry :: "permission \<Rightarrow> (string \<rightharpoonup> string list) \<Rightarrow> (string \<rightharpoonup> string list)" where
  "grant_entry p granted =
     granted(pr_resource p \<mapsto> (case granted (pr_resource p) of None \<Rightarrow> [] | Some names \<Rightarrow> names) @ [pr_name p])"

definition can_any :: "rbac_engine \<Rightarrow> uuid \<Rightarrow> string list \<Rightarrow> bool" where
  "can_any e u actions =
     (if role_bypass e u then True
      else case rs_get_permissions (rbac_store e) u of
        Inl _ \<Rightarrow> False
      | Inr permissions \<Rightarrow>
         (let granted = fold grant_entry permissions Map.empty
          in list_ex (\<lambda>action. case split_action action of
               None \<Rightarrow> False
             | Some (resource, permission) \<Rightarrow>
                (case granted resource of None \<Rightarrow> False | Some names \<Rightarrow> permission \<in> set names)) actions))"

definition pg_rbac_store :: "db_faults \<Rightarrow> db_faults \<Rightarrow> db_faults \<Rightarrow> iam_db \<Rightarrow> rbac_store" where
  "pg_rbac_store on_roles on_permissions on_check db =
     \<lparr>rs_get_roles = \<lambda>u. get_roles on_roles u db,
      rs_get_permissions = \<lambda>u. get_permissions on_permissions u db,
      rs_has_permission = \<lambda>u resource name. has_permission on_check u resource name db\<rparr>"

section \<open>Actions\<close>

lemma split_once_Some: "split_once c s = Some (a, b) \<longleftrightarrow> s = a @ c # b \<and> c \<notin> set a"
proof
  assume "split_once c s = Some (a, b)"
  then have d: "dropWhile (\<lambda>x. x \<noteq> c) s = c # b" "a = takeWhile (\<lambda>x. x \<noteq> c) s"
    by (auto simp: split_once_def dropWhile_eq_Cons_conv split: list.splits)
  then show "s = a @ c # b \<and> c \<notin> set a"
    by (metis (mono_tags, lifting) set_takeWhileD takeWhile_dropWhile_id)
next
  assume "s = a @ c # b \<and> c \<notin> set a"
  moreover have "\<And>x. c \<notin> set a \<Longrightarrow> x \<in> set a \<Longrightarrow> x \<noteq> c" by auto
  ultimately show "split_once c s = Some (a, b)"
    by (simp add: split_once_def dropWhile_append3 takeWhile_append2 dropWhile_append2)
qed

lemma split_action_Some: "split_action action = Some (r, n) \<longleftrightarrow> action = r @ ''.'' @ n \<and> CHR ''.'' \<notin> set r"
  by (simp add: split_action_def split_once_Some)

lemma grant_entry_fold:
  "fold grant_entry ps granted r =
     (let names = map pr_name (filter (\<lambda>p. pr_resource p = r) ps)
      in if names = [] then granted r else Some ((case granted r of None \<Rightarrow> [] | Some old \<Rightarrow> old) @ names))"
  by (induction ps arbitrary: granted) (auto simp: grant_entry_def Let_def filter_empty_conv split: option.splits)

lemma grant_entry_granted:
  "(case fold grant_entry ps Map.empty r of None \<Rightarrow> False | Some names \<Rightarrow> n \<in> set names) \<longleftrightarrow>
     (\<exists>p \<in> set ps. pr_resource p = r \<and> pr_name p = n)"
  by (auto simp: grant_entry_fold Let_def filter_empty_conv)

section \<open>The contract of a store\<close>

locale permission_store =
  fixes engine :: rbac_engine and holds :: "uuid \<Rightarrow> string \<Rightarrow> string \<Rightarrow> bool" and role :: "uuid \<Rightarrow> string \<Rightarrow> bool"
  assumes has_sound: "rs_has_permission (rbac_store engine) u r n = Inr b \<Longrightarrow> b = holds u r n"
    and roles_sound: "rs_get_roles (rbac_store engine) u = Inr roles \<Longrightarrow> x \<in> set roles \<longleftrightarrow> role u x"
begin

text \<open>A failing store only ever refuses.\<close>

lemma can_sound:
  "can engine u action \<Longrightarrow> role u (super_role engine) \<or> (\<exists>r n. action = r @ ''.'' @ n \<and> CHR ''.'' \<notin> set r \<and> holds u r n)"
proof -
  assume c: "can engine u action"
  show ?thesis
  proof (cases "role_bypass engine u")
    case True
    then obtain roles where "rs_get_roles (rbac_store engine) u = Inr roles" "super_role engine \<in> set roles"
      by (auto simp: role_bypass_def split: sum.splits)
    then show ?thesis using roles_sound by blast
  next
    case False
    with c obtain r n where s: "split_action action = Some (r, n)" by (auto simp: can_def split: option.splits)
    with c False have "rs_has_permission (rbac_store engine) u r n = Inr True"
      by (cases "rs_has_permission (rbac_store engine) u r n") (auto simp: can_def)
    then show ?thesis using s has_sound [of u r n True] by (auto simp: split_action_Some)
  qed
qed

lemma can_complete:
  assumes "rs_get_roles (rbac_store engine) u = Inr roles"
    and "\<And>r n. \<exists>b. rs_has_permission (rbac_store engine) u r n = Inr b"
  shows "can engine u action \<longleftrightarrow> role u (super_role engine) \<or>
     (\<exists>r n. split_action action = Some (r, n) \<and> holds u r n)"
proof -
  have "rs_has_permission (rbac_store engine) u r n = Inr (holds u r n)" for r n
    using assms(2) [of r n] has_sound [of u r n] by auto
  then show ?thesis
    using roles_sound [OF assms(1)] assms(1) by (auto simp: can_def role_bypass_def split: option.splits)
qed

end

locale listing_store = permission_store +
  fixes linked :: bool
  assumes list_sound: "linked \<Longrightarrow> rs_get_permissions (rbac_store engine) u = Inr ps \<Longrightarrow>
    (\<exists>p \<in> set ps. pr_resource p = r \<and> pr_name p = n) \<longleftrightarrow> holds u r n"
begin

text \<open>Asking for any of several actions is asking for each in turn.\<close>

lemma can_any_iff:
  assumes linked and roles: "rs_get_roles (rbac_store engine) u = Inr roles"
    and perms: "rs_get_permissions (rbac_store engine) u = Inr ps" and "actions \<noteq> []"
    and checks: "\<And>r n. \<exists>b. rs_has_permission (rbac_store engine) u r n = Inr b"
  shows "can_any engine u actions \<longleftrightarrow> (\<exists>action \<in> set actions. can engine u action)"
proof (cases "role_bypass engine u")
  case True
  then show ?thesis using assms(4) by (cases actions) (auto simp: can_any_def can_def)
next
  case False
  then have "\<not> role u (super_role engine)" using roles roles_sound [OF roles] by (simp add: role_bypass_def)
  then have "can engine u action \<longleftrightarrow> (\<exists>r n. split_action action = Some (r, n) \<and> holds u r n)" for action
    using can_complete [OF roles checks] by simp
  moreover have "can_any engine u actions \<longleftrightarrow> (\<exists>action \<in> set actions. \<exists>r n. split_action action = Some (r, n) \<and> holds u r n)"
  proof -
    have "(case split_action action of None \<Rightarrow> False | Some (r, n) \<Rightarrow>
        (case fold grant_entry ps Map.empty r of None \<Rightarrow> False | Some names \<Rightarrow> n \<in> set names)) \<longleftrightarrow>
        (\<exists>r n. split_action action = Some (r, n) \<and> holds u r n)" for action
      by (cases "split_action action") (auto simp: grant_entry_granted list_sound [OF assms(1) perms])
    then show ?thesis using False perms by (simp add: can_any_def list_ex_iff)
  qed
  ultimately show ?thesis by simp
qed

end

section \<open>The Postgres store meets it\<close>

definition db_holds :: "iam_db \<Rightarrow> uuid \<Rightarrow> string \<Rightarrow> string \<Rightarrow> bool" where
  "db_holds db u resource name =
     list_ex (\<lambda>p. granted_to db u p \<and> pm_resource p = resource \<and> pm_name p = name) (db_permissions db)"

text \<open>Every permission belongs to a module: the listing joins the modules, the check does not.\<close>

definition modules_linked :: "iam_db \<Rightarrow> bool" where
  "modules_linked db = list_all (\<lambda>p. pm_module_id p \<in> Some ` fst ` set (db_modules db)) (db_permissions db)"

interpretation pg_rbac: permission_store "\<lparr>super_role = super, rbac_store = pg_rbac_store f1 f2 f3 db\<rparr>" "db_holds db"
    "\<lambda>u x. x \<in> set (role_names db u)" for super f1 f2 f3 db
  by unfold_locales (auto simp: pg_rbac_store_def has_permission_def get_roles_def db_holds_def split: option.splits)

lemma permissions_listed:
  "modules_linked db \<Longrightarrow>
     (\<exists>p \<in> set (permissions_of_user db u). pr_resource p = r \<and> pr_name p = n) \<longleftrightarrow> db_holds db u r n"
  unfolding permissions_of_user_def db_holds_def modules_linked_def list_ex_iff list_all_iff
  by (auto; force)

interpretation pg_listing: listing_store "\<lparr>super_role = super, rbac_store = pg_rbac_store f1 f2 f3 db\<rparr>" "db_holds db"
    "\<lambda>u x. x \<in> set (role_names db u)" "modules_linked db" for super f1 f2 f3 db
proof unfold_locales
  fix u ps r n
  assume "modules_linked db"
    and "rs_get_permissions (rbac_store \<lparr>super_role = super, rbac_store = pg_rbac_store f1 f2 f3 db\<rparr>) u = Inr ps"
  then have "modules_linked db" "set ps = set (permissions_of_user db u)"
    by (auto simp: pg_rbac_store_def get_permissions_def split: option.splits)
  then show "(\<exists>p \<in> set ps. pr_resource p = r \<and> pr_name p = n) \<longleftrightarrow> db_holds db u r n"
    using permissions_listed by simp
qed

lemma pg_can_any:
  assumes "modules_linked db" and "f1 0 = None" "f2 0 = None" "f3 0 = None" and "actions \<noteq> []"
  shows "can_any \<lparr>super_role = super, rbac_store = pg_rbac_store f1 f2 f3 db\<rparr> u actions \<longleftrightarrow>
    (\<exists>action \<in> set actions. can \<lparr>super_role = super, rbac_store = pg_rbac_store f1 f2 f3 db\<rparr> u action)"
  by (rule pg_listing.can_any_iff)
    (simp_all add: assms pg_rbac_store_def get_roles_def get_permissions_def has_permission_def)

end
