(* ===== verification/Iam.thy ===== *)
theory Iam
  imports Auth_Correct Rbac
begin

text \<open>
  User management, \<^verbatim>\<open>module/iam\<close>: the domain, \<^verbatim>\<open>adapter/repository\<close>, \<^verbatim>\<open>core/service\<close>, the HTTP
  handlers and the routes with their guards. A repository call inside a transaction maps the tables
  to new ones or to an error; the service keeps the new tables only when the commit succeeds. The
  statements of one service call are numbered in the order they run.
\<close>

section \<open>Domain (core/domain, core/ports.rs)\<close>

definition ACTIVE_USER_STATUS :: int where "ACTIVE_USER_STATUS = 1"
definition DELETED_USER_STATUS :: int where "DELETED_USER_STATUS = 2"

definition status_id_of :: "string \<Rightarrow> int option" where
  "status_id_of status = (if status = ''Active'' then Some ACTIVE_USER_STATUS
     else if status = ''Deleted'' then Some DELETED_USER_STATUS else None)"

datatype iam_error = UserNotFound | UserDuplicateConstraint | StatusNotFound | DepartmentNotFoundConstraint
  | Database_error db_error

record iam_user =
  iu_id :: uuid
  iu_user_name :: string
  iu_avatar_id :: string
  iu_email :: string
  iu_password :: string
  iu_first_name :: string
  iu_last_name :: string
  iu_status :: "int \<times> string"
  iu_department :: "int \<times> string"
  iu_company :: "int \<times> string"
  iu_roles :: "(int \<times> string) list"

record create_user_fields =
  cu_user_name :: string
  cu_avatar_id :: string
  cu_email :: string
  cu_password :: string
  cu_first_name :: string
  cu_last_name :: string
  cu_status :: int
  cu_department_id :: int
  cu_roles :: "string list"

record update_user =
  up_avatar_id :: "string option"
  up_first_name :: "string option"
  up_last_name :: "string option"
  up_email :: "string option"
  up_department_id :: "int option"
  up_status :: "string option"
  up_password :: "string option"
  up_add_roles :: "string list option"
  up_remove_roles :: "string list option"

definition update_user_default :: update_user where
  "update_user_default = \<lparr>up_avatar_id = None, up_first_name = None, up_last_name = None, up_email = None,
     up_department_id = None, up_status = None, up_password = None, up_add_roles = None, up_remove_roles = None\<rparr>"

definition has_no_column_changes :: "update_user \<Rightarrow> bool" where
  "has_no_column_changes f = (up_avatar_id f = None \<and> up_first_name f = None \<and> up_last_name f = None \<and>
     up_email f = None \<and> up_department_id f = None \<and> up_status f = None \<and> up_password f = None)"

definition restricted_to_self :: "update_user \<Rightarrow> update_user" where
  "restricted_to_self f = update_user_default\<lparr>up_avatar_id := up_avatar_id f, up_first_name := up_first_name f,
     up_last_name := up_last_name f, up_department_id := up_department_id f\<rparr>"

section \<open>The user repository (adapter/repository/user.rs)\<close>

definition users_sort_column :: "string \<Rightarrow> string" where
  "users_sort_column sort_by =
     (if sort_by = ''email'' then ''u.email''
      else if sort_by = ''first_name'' then ''u.first_name''
      else if sort_by = ''last_name'' then ''u.last_name''
      else if sort_by = ''status'' then ''us.status''
      else if sort_by = ''department'' then ''d.name''
      else ''u.user_name'')"

definition users_sort_order :: "string \<Rightarrow> string" where
  "users_sort_order order = (if order = ''asc'' then ''asc'' else ''desc'')"

definition user_roles_of :: "iam_db \<Rightarrow> uuid \<Rightarrow> (int \<times> string) list" where
  "user_roles_of db u = filter (\<lambda>(i, _). (u, i) \<in> set (db_user_roles db)) (db_roles db)"

text \<open>A row of \<open>SELECT_USER\<close>: the inner joins drop a user whose status, department or company is missing.\<close>

definition map_user :: "iam_db \<Rightarrow> user_row \<Rightarrow> iam_user option" where
  "map_user db u =
     (case (List.find (\<lambda>(i, _). i = us_status_id u) (db_statuses db),
            List.find (\<lambda>d. dp_id d = us_department_id u) (db_departments db)) of
        (Some status, Some d) \<Rightarrow>
          (case List.find (\<lambda>(i, _). i = dp_company_id d) (db_companies db) of
             Some company \<Rightarrow> Some
               \<lparr>iu_id = us_id u, iu_user_name = us_user_name u, iu_avatar_id = us_avatar_id u, iu_email = us_email u,
                iu_password = us_password u, iu_first_name = us_first_name u, iu_last_name = us_last_name u,
                iu_status = status, iu_department = (dp_id d, dp_name d), iu_company = company, iu_roles = []\<rparr>
           | None \<Rightarrow> None)
      | _ \<Rightarrow> None)"

text \<open>
  \<open>ILIKE\<close>: a percent sign stands for any text, an underscore for one character, a backslash takes
  the next character as it is; case is folded first.
\<close>

fun like :: "string \<Rightarrow> string \<Rightarrow> bool" where
  "like [] s = (s = [])"
| "like (c # p) s =
     (if c = CHR ''%'' then list_ex (\<lambda>k. like p (drop k s)) [0..<Suc (length s)]
      else if c = CHR ''_'' then s \<noteq> [] \<and> like p (tl s)
      else if c = CHR 0x5C then (case (p, s) of (e # p', x # s') \<Rightarrow> e = x \<and> like p' s' | _ \<Rightarrow> False)
      else s \<noteq> [] \<and> hd s = c \<and> like p (tl s))"

definition ilike :: "string \<Rightarrow> string \<Rightarrow> bool" where
  "ilike s pattern = like (to_lowercase pattern) (to_lowercase s)"

definition push_filters :: "list_request \<Rightarrow> iam_db \<Rightarrow> iam_user \<Rightarrow> bool" where
  "push_filters request db u =
     ((case filter_value request ''status'' of
         None \<Rightarrow> True
       | Some wanted \<Rightarrow> (case status_id_of wanted of None \<Rightarrow> True | Some i \<Rightarrow> fst (iu_status u) = i)) \<and>
      (case filter_value request ''department_id'' of
         None \<Rightarrow> True
       | Some v \<Rightarrow> (case parse_i32 v of None \<Rightarrow> True | Some d \<Rightarrow> fst (iu_department u) = d)) \<and>
      (case filter_value request ''role'' of
         None \<Rightarrow> True
       | Some role \<Rightarrow> role \<in> set (role_names db (iu_id u))) \<and>
      (case filter_value request ''first_name'' of
         None \<Rightarrow> True
       | Some wanted \<Rightarrow> ilike (iu_first_name u) (''%'' @ wanted @ ''%'')))"

text \<open>The value a sortable column has in a row, with the order of the code points for the collation.\<close>

definition users_sort_value :: "string \<Rightarrow> iam_user \<Rightarrow> string" where
  "users_sort_value sort_col u =
     (if sort_col = ''u.email'' then iu_email u
      else if sort_col = ''u.first_name'' then iu_first_name u
      else if sort_col = ''u.last_name'' then iu_last_name u
      else if sort_col = ''us.status'' then snd (iu_status u)
      else if sort_col = ''d.name'' then snd (iu_department u)
      else iu_user_name u)"

definition users_ordered :: "list_request \<Rightarrow> iam_user list \<Rightarrow> iam_user list" where
  "users_ordered request us =
     (let up = sort_key (users_sort_value (users_sort_column (lr_sort_by request))) us
      in if users_sort_order (lr_order request) = ''asc'' then up else rev up)"

fun hydrate_all :: "db_faults \<Rightarrow> nat \<Rightarrow> iam_db \<Rightarrow> iam_user list \<Rightarrow> iam_error + iam_user list" where
  "hydrate_all fault k db [] = Inr []"
| "hydrate_all fault k db (u # us) =
     (case fault k of
        Some e \<Rightarrow> Inl (Database_error e)
      | None \<Rightarrow>
         (case hydrate_all fault (Suc k) db us of
            Inl e \<Rightarrow> Inl e
          | Inr rest \<Rightarrow> Inr (u\<lparr>iu_roles := user_roles_of db (iu_id u)\<rparr> # rest)))"

definition users_index :: "db_faults \<Rightarrow> list_request \<Rightarrow> iam_db \<Rightarrow> iam_error + iam_user list \<times> i64" where
  "users_index fault request db =
     (let matching = filter (push_filters request db) (List.map_filter (map_user db) (db_users db)) in
      case fault 0 of
        Some e \<Rightarrow> Inl (Database_error e)
      | None \<Rightarrow>
         (case fault 1 of
            Some e \<Rightarrow> Inl (Database_error e)
          | None \<Rightarrow>
             (if sint (offset request) < 0 then Inl (Database_error \<lparr>db_code = Some ''2201X'', db_text = ''OFFSET must not be negative''\<rparr>)
              else if sint (lr_per_page request) < 0 then Inl (Database_error \<lparr>db_code = Some ''2201W'', db_text = ''LIMIT must not be negative''\<rparr>)
              else
                (case hydrate_all fault 2 db
                   (take (nat (sint (lr_per_page request))) (drop (nat (sint (offset request))) (users_ordered request matching))) of
                   Inl e \<Rightarrow> Inl e
                 | Inr us \<Rightarrow> Inr (us, of_nat (length matching))))))"

definition hydrate :: "db_faults \<Rightarrow> iam_db \<Rightarrow> iam_user option \<Rightarrow> iam_error + iam_user option" where
  "hydrate fault db row =
     (case row of
        None \<Rightarrow> Inr None
      | Some u \<Rightarrow>
         (case fault 1 of
            Some e \<Rightarrow> Inl (Database_error e)
          | None \<Rightarrow> Inr (Some (u\<lparr>iu_roles := user_roles_of db (iu_id u)\<rparr>))))"

definition users_find :: "db_faults \<Rightarrow> (user_row \<Rightarrow> bool) \<Rightarrow> iam_db \<Rightarrow> iam_error + iam_user option" where
  "users_find fault p db =
     (case fault 0 of
        Some e \<Rightarrow> Inl (Database_error e)
      | None \<Rightarrow> hydrate fault db (Option.bind (List.find p (db_users db)) (map_user db)))"

definition users_find_by_id :: "db_faults \<Rightarrow> uuid \<Rightarrow> iam_db \<Rightarrow> iam_error + iam_user option" where
  "users_find_by_id fault u db = users_find fault (\<lambda>r. us_id r = u) db"

definition users_find_by_user_name :: "db_faults \<Rightarrow> string \<Rightarrow> iam_db \<Rightarrow> iam_error + iam_user option" where
  "users_find_by_user_name fault name db = users_find fault (\<lambda>r. us_user_name r = name) db"

definition users_find_by_email :: "db_faults \<Rightarrow> string \<Rightarrow> iam_db \<Rightarrow> iam_error + iam_user option" where
  "users_find_by_email fault email db = users_find fault (\<lambda>r. us_email r = email) db"

definition add_user_roles :: "db_error option \<Rightarrow> uuid \<Rightarrow> string list \<Rightarrow> iam_db \<Rightarrow> iam_error + iam_db" where
  "add_user_roles fault u roles db =
     (if roles = [] then Inr db
      else case fault of
        Some e \<Rightarrow> Inl (Database_error e)
      | None \<Rightarrow> Inr (db\<lparr>db_user_roles := db_user_roles db @
          filter (\<lambda>pair. pair \<notin> set (db_user_roles db)) (role_pairs db u roles)\<rparr>))"

definition remove_user_roles :: "db_error option \<Rightarrow> uuid \<Rightarrow> string list \<Rightarrow> iam_db \<Rightarrow> iam_error + iam_db" where
  "remove_user_roles fault u roles db =
     (if roles = [] then Inr db
      else case fault of
        Some e \<Rightarrow> Inl (Database_error e)
      | None \<Rightarrow> Inr (db\<lparr>db_user_roles := filter (\<lambda>(v, i). \<not> (v = u \<and>
          i \<in> fst ` set (filter (\<lambda>(_, name). name \<in> set roles) (db_roles db)))) (db_user_roles db)\<rparr>))"

definition users_create ::
  "db_error option \<Rightarrow> db_error option \<Rightarrow> uuid \<Rightarrow> create_user_fields \<Rightarrow> iam_db \<Rightarrow> iam_error + uuid \<times> iam_db" where
  "users_create fault roles_fault new_id user db =
     (case (case fault of
              Some e \<Rightarrow> Inl e
            | None \<Rightarrow> insert_user \<lparr>us_id = new_id, us_user_name = cu_user_name user, us_avatar_id = cu_avatar_id user,
                us_avatar_url = None, us_email = cu_email user, us_password = cu_password user,
                us_first_name = cu_first_name user, us_last_name = cu_last_name user,
                us_status_id = cu_status user, us_department_id = cu_department_id user\<rparr> db) of
        Inl e \<Rightarrow> Inl (if pg_error_is e UNIQUE_VIOLATION then UserDuplicateConstraint
          else if pg_error_is e FOREIGN_KEY_VIOLATION then DepartmentNotFoundConstraint
          else Database_error e)
      | Inr db1 \<Rightarrow> bind_ok (add_user_roles roles_fault new_id (cu_roles user) db1) (\<lambda>db2. Inr (new_id, db2)))"

definition apply_update :: "update_user \<Rightarrow> user_row \<Rightarrow> user_row" where
  "apply_update f r =
     r\<lparr>us_avatar_id := case_option (us_avatar_id r) id (up_avatar_id f),
       us_first_name := case_option (us_first_name r) id (up_first_name f),
       us_last_name := case_option (us_last_name r) id (up_last_name f),
       us_email := case_option (us_email r) id (up_email f),
       us_department_id := case_option (us_department_id r) id (up_department_id f),
       us_status_id := (case Option.bind (up_status f) status_id_of of None \<Rightarrow> us_status_id r | Some s \<Rightarrow> s),
       us_password := case_option (us_password r) id (up_password f)\<rparr>"

definition users_partial_update :: "db_error option \<Rightarrow> uuid \<Rightarrow> update_user \<Rightarrow> iam_db \<Rightarrow> iam_error + iam_db" where
  "users_partial_update fault u f db =
     (if has_no_column_changes f then Inr db
      else if up_status f \<noteq> None \<and> Option.bind (up_status f) status_id_of = None then Inl StatusNotFound
      else map_err (\<lambda>e. if pg_error_is e NOT_NULL_VIOLATION then StatusNotFound
          else if pg_error_is e FOREIGN_KEY_VIOLATION then DepartmentNotFoundConstraint
          else if pg_error_is e UNIQUE_VIOLATION then UserDuplicateConstraint
          else Database_error e)
        (case fault of Some e \<Rightarrow> Inl e | None \<Rightarrow> update_users (\<lambda>r. us_id r = u) (apply_update f) db))"

definition users_delete :: "db_error option \<Rightarrow> uuid \<Rightarrow> iam_db \<Rightarrow> iam_error + iam_db" where
  "users_delete fault u db =
     map_err Database_error (case fault of
        Some e \<Rightarrow> Inl e
      | None \<Rightarrow> update_users (\<lambda>r. us_id r = u) (\<lambda>r. r\<lparr>us_status_id := DELETED_USER_STATUS\<rparr>) db)"

section \<open>The user service (core/service/user.rs)\<close>

fun map_domain_error :: "iam_error \<Rightarrow> sf_error" where
  "map_domain_error UserNotFound = not_found ''user does not exists''"
| "map_domain_error UserDuplicateConstraint = unprocessable ''username or email is already taken''"
| "map_domain_error StatusNotFound = add_violation ''status'' ''field must be of valid type'' (validation ''invalid payload fields'')"
| "map_domain_error DepartmentNotFoundConstraint =
     add_violation ''department_id'' ''invalid department id provided'' (validation ''invalid payload fields'')"
| "map_domain_error (Database_error e) = db_unknown e"

definition require_user :: "db_faults \<Rightarrow> uuid \<Rightarrow> iam_db \<Rightarrow> sf_error + iam_user" where
  "require_user fault u db =
     bind_ok (map_err map_domain_error (users_find_by_id fault u db)) (\<lambda>found.
       case found of None \<Rightarrow> Inl (not_found ''user does not exists'') | Some user \<Rightarrow> Inr user)"

definition user_index :: "db_faults \<Rightarrow> list_request \<Rightarrow> iam_db \<Rightarrow> sf_error + iam_user paged_data" where
  "user_index fault request db =
     bind_ok (map_err map_domain_error (users_index fault request db)) (\<lambda>(data, total).
       Inr (data_new data total (lr_page request) (lr_per_page request)))"

text \<open>A statement of the transaction itself: its begin and its commit.\<close>

definition tx_statement :: "db_error option \<Rightarrow> sf_error + unit" where
  "tx_statement fault = (case fault of Some e \<Rightarrow> Inl (db_unknown e) | None \<Rightarrow> Inr ())"

definition keep_tables :: "sf_error + 'a \<times> iam_db \<Rightarrow> iam_db \<Rightarrow> (sf_error + 'a) \<times> iam_db" where
  "keep_tables r db = (case r of Inl e \<Rightarrow> (Inl e, db) | Inr (x, db') \<Rightarrow> (Inr x, db'))"

definition user_create ::
  "crypto_lib \<Rightarrow> string \<Rightarrow> db_faults \<Rightarrow> uuid \<Rightarrow> create_user_fields \<Rightarrow> iam_db \<Rightarrow> (sf_error + uuid) \<times> iam_db" where
  "user_create lib salt fault new_id new_user db =
     keep_tables
      (bind_ok (hash_password lib salt (cu_password new_user)) (\<lambda>hashed.
       bind_ok (tx_statement (fault 0)) (\<lambda>_.
       bind_ok (map_err map_domain_error (users_create (fault 1) (fault 2) new_id
         (new_user\<lparr>cu_password := hashed, cu_status := ACTIVE_USER_STATUS\<rparr>) db)) (\<lambda>(user_id, db').
       bind_ok (tx_statement (fault 3)) (\<lambda>_. Inr (user_id, db')))))) db"

definition user_find_by_id :: "db_faults \<Rightarrow> uuid \<Rightarrow> iam_db \<Rightarrow> sf_error + iam_user" where
  "user_find_by_id fault u db = require_user fault u db"

definition checked_password :: "crypto_lib \<Rightarrow> string \<Rightarrow> update_user \<Rightarrow> sf_error + update_user" where
  "checked_password lib salt f =
     (case up_password f of
        None \<Rightarrow> Inr f
      | Some password \<Rightarrow>
         bind_ok (map_err (\<lambda>message. add_violation ''password'' message (validation ''invalid payload fields''))
           (password_checker password)) (\<lambda>_.
         bind_ok (hash_password lib salt password) (\<lambda>hashed. Inr (f\<lparr>up_password := Some hashed\<rparr>))))"

definition user_partial_update ::
  "crypto_lib \<Rightarrow> string \<Rightarrow> db_faults \<Rightarrow> uuid \<Rightarrow> update_user \<Rightarrow> iam_db \<Rightarrow> (sf_error + unit) \<times> iam_db" where
  "user_partial_update lib salt fault u f db =
     keep_tables
      (bind_ok (require_user fault u db) (\<lambda>_.
       bind_ok (checked_password lib salt f) (\<lambda>fields.
       bind_ok (tx_statement (fault 2)) (\<lambda>_.
       bind_ok (map_err map_domain_error (users_partial_update (fault 3) u fields db)) (\<lambda>db1.
       bind_ok (case up_add_roles fields of
           None \<Rightarrow> Inr db1
         | Some roles \<Rightarrow> map_err map_domain_error (add_user_roles (fault 4) u roles db1)) (\<lambda>db2.
       bind_ok (case up_remove_roles fields of
           None \<Rightarrow> Inr db2
         | Some roles \<Rightarrow> map_err map_domain_error (remove_user_roles (fault 5) u roles db2)) (\<lambda>db3.
       bind_ok (tx_statement (fault 6)) (\<lambda>_. Inr ((), db3))))))))) db"

definition user_delete :: "db_faults \<Rightarrow> uuid \<Rightarrow> iam_db \<Rightarrow> (sf_error + unit) \<times> iam_db" where
  "user_delete fault u db =
     keep_tables
      (bind_ok (require_user fault u db) (\<lambda>_.
       bind_ok (tx_statement (fault 2)) (\<lambda>_.
       bind_ok (map_err map_domain_error (users_delete (fault 3) u db)) (\<lambda>db1.
       bind_ok (tx_statement (fault 4)) (\<lambda>_. Inr ((), db1)))))) db"

section \<open>Permissions (adapter/repository/permission.rs, core/service/permission.rs)\<close>

record iam_permission =
  ip_id :: int
  ip_name :: string
  ip_resource :: string
  ip_module :: string

definition map_permission :: "permission_row \<Rightarrow> int \<times> string \<Rightarrow> iam_permission" where
  "map_permission p m = \<lparr>ip_id = pm_id p, ip_name = pm_name p, ip_resource = pm_resource p, ip_module = snd m\<rparr>"

definition select_permission :: "iam_db \<Rightarrow> iam_permission list" where
  "select_permission db = concat (map (\<lambda>p. map (map_permission p)
     (filter (\<lambda>(i, _). Some i = pm_module_id p) (db_modules db))) (db_permissions db))"

definition permissions_list_all :: "db_error option \<Rightarrow> iam_db \<Rightarrow> iam_error + iam_permission list" where
  "permissions_list_all fault db = (case fault of Some e \<Rightarrow> Inl (Database_error e) | None \<Rightarrow> Inr (select_permission db))"

definition list_permissions_by_role :: "db_error option \<Rightarrow> int \<Rightarrow> iam_db \<Rightarrow> iam_error + iam_permission list" where
  "list_permissions_by_role fault role db =
     (case fault of
        Some e \<Rightarrow> Inl (Database_error e)
      | None \<Rightarrow> Inr (filter (\<lambda>p. (role, ip_id p) \<in> set (db_role_permissions db)) (select_permission db)))"

fun iam_error_fmt :: "iam_error \<Rightarrow> string" where
  "iam_error_fmt UserNotFound = ''user does not exists''"
| "iam_error_fmt UserDuplicateConstraint = ''column is taken''"
| "iam_error_fmt StatusNotFound = ''invalid user status''"
| "iam_error_fmt DepartmentNotFoundConstraint = ''invalid department id''"
| "iam_error_fmt (Database_error e) = db_text e"

definition permission_list_all :: "db_error option \<Rightarrow> iam_db \<Rightarrow> sf_error + iam_permission list" where
  "permission_list_all fault db = map_err (unknown \<circ> iam_error_fmt) (permissions_list_all fault db)"

section \<open>The tables stay consistent\<close>

lemma update_row_ok:
  assumes up: "update_users (\<lambda>r. us_id r = u) f db = Inr db'" and ok: "iam_ok db" and id: "\<And>r. us_id (f r) = us_id r"
  shows "iam_ok db'"
proof -
  let ?g = "\<lambda>r. if us_id r = u then f r else r"
  have g: "us_id (?g r) = us_id r" for r using id by simp
  have ids: "distinct (map us_id (db_users db))" using ok by (simp add: iam_ok_def users_distinct_def)
  then have users: "distinct (db_users db)" and inj: "inj_on us_id (set (db_users db))" by (simp_all add: distinct_map)
  have clash: "us_email r \<noteq> us_email (f x) \<and> us_user_name r \<noteq> us_user_name (f x)"
    if "x \<in> set (db_users db)" "us_id x = u" "r \<in> set (db_users db)" "us_id r \<noteq> u" for x r
    using update_usersE(2) [OF up that(1,2)] that(2-4) id
    by (auto simp: user_row_violation_def list_ex_iff split: if_splits)
  have same: "inj_on key (set (db_users db))" if "distinct (map key (db_users db))" for key :: "user_row \<Rightarrow> string"
    using that by (simp add: distinct_map)
  have keys: "inj_on us_email (set (db_users db))" "inj_on us_user_name (set (db_users db))"
    using ok same by (simp_all add: iam_ok_def users_distinct_def)
  have "inj_on (us_email \<circ> ?g) (set (db_users db))" "inj_on (us_user_name \<circ> ?g) (set (db_users db))"
    using clash keys inj by (auto simp: inj_on_def split: if_splits; metis)+
  then have "users_distinct (map ?g (db_users db))"
    using users ids id by (simp add: users_distinct_def distinct_map comp_inj_on_iff comp_def inj_on_def)
  then show ?thesis
    using ok roles_linked_map [of ?g db, OF g] update_users_linked [OF up]
    by (simp add: iam_ok_def update_usersE(1) [OF up])
qed

lemma roles_append_ok:
  assumes "iam_ok db" and "u \<in> us_id ` set (db_users db)" and "add_user_roles fault u roles db = Inr db'"
  shows "iam_ok db'"
proof (cases "roles = []")
  case True
  then show ?thesis using assms by (simp add: add_user_roles_def)
next
  case False
  let ?new = "filter (\<lambda>pair. pair \<notin> set (db_user_roles db)) (role_pairs db u roles)"
  have db': "db' = db\<lparr>db_user_roles := db_user_roles db @ ?new\<rparr>"
    using assms(3) False by (simp add: add_user_roles_def split: option.splits)
  have "distinct (map fst (filter (\<lambda>(_, name). name \<in> set roles) (db_roles db)))"
    using assms(1) by (auto simp: iam_ok_def distinct_map_filter)
  then have "distinct (role_pairs db u roles)" by (auto simp: role_pairs_def distinct_map inj_on_def)
  moreover have "list_all (\<lambda>(v, r). v \<in> us_id ` set (db_users db) \<and> r \<in> fst ` set (db_roles db)) ?new"
    using assms(2) by (force simp: role_pairs_def list_all_iff)
  ultimately show ?thesis
    using assms(1) by (simp add: db' iam_ok_def users_linked_def roles_linked_def Int_def)
qed

lemma roles_filter_ok: "iam_ok db \<Longrightarrow> remove_user_roles fault u roles db = Inr db' \<Longrightarrow> iam_ok db'"
  by (auto simp: remove_user_roles_def iam_ok_def users_linked_def roles_linked_def list_all_iff split: if_splits option.splits)

lemma apply_update_id: "us_id (apply_update f r) = us_id r"
  by (simp add: apply_update_def)

lemma partial_update_ok: "users_partial_update fault u f db = Inr db' \<Longrightarrow> iam_ok db \<Longrightarrow> iam_ok db'"
  by (auto simp: users_partial_update_def split: if_splits option.splits intro: update_row_ok apply_update_id)

lemma update_users_ids:
  assumes "update_users p f db = Inr db'" and "\<And>r. us_id (f r) = us_id r"
  shows "us_id ` set (db_users db') = us_id ` set (db_users db)"
proof -
  have "us_id (if p r then f r else r) = us_id r" for r using assms(2) by simp
  then have "map us_id (db_users db') = map us_id (db_users db)" by (simp add: update_usersE(1) [OF assms(1)])
  then show ?thesis by (metis list.set_map)
qed

lemma partial_update_ids:
  "users_partial_update fault u f db = Inr db' \<Longrightarrow> us_id ` set (db_users db') = us_id ` set (db_users db)"
  by (auto simp: users_partial_update_def apply_update_id update_users_ids split: if_splits option.splits)

lemma require_user_Inr_row:
  assumes "require_user fault u db = Inr user"
  obtains r where "r \<in> set (db_users db)" "us_id r = u"
  using assms
  by (auto simp: require_user_def users_find_by_id_def users_find_def hydrate_def bind_ok_def map_err_def
      split: sum.splits option.splits bind_splits dest!: find_Some)

lemma users_create_ok:
  assumes "users_create f g i user db = Inr (u, db')" and "iam_ok db"
  shows "iam_ok db'"
proof -
  define row where "row = \<lparr>us_id = i, us_user_name = cu_user_name user, us_avatar_id = cu_avatar_id user,
    us_avatar_url = None, us_email = cu_email user, us_password = cu_password user,
    us_first_name = cu_first_name user, us_last_name = cu_last_name user,
    us_status_id = cu_status user, us_department_id = cu_department_id user\<rparr>"
  obtain db1 where "insert_user row db = Inr db1" "add_user_roles g i (cu_roles user) db1 = Inr db'"
    using assms(1) by (auto simp: users_create_def bind_ok_def row_def split: sum.splits option.splits)
  moreover have "us_id row = i" by (simp add: row_def)
  ultimately show ?thesis
    using insert_user_ok [of row db db1] insert_userD(1) [of row db db1] assms(2) roles_append_ok [of db1 i] by force
qed

lemma user_service_ok:
  assumes "iam_ok db"
  shows "iam_ok (snd (user_create lib salt fault i nu db))"
    and "iam_ok (snd (user_partial_update lib salt fault u f db))"
    and "iam_ok (snd (user_delete fault u db))"
proof -
  show "iam_ok (snd (user_create lib salt fault i nu db))"
    using assms by (auto simp: user_create_def keep_tables_def bind_ok_def split: sum.splits prod.splits dest: users_create_ok)
  show "iam_ok (snd (user_delete fault u db))"
    using assms
    by (auto simp: user_delete_def keep_tables_def bind_ok_def users_delete_def split: sum.splits prod.splits option.splits
        intro: update_row_ok)
  show "iam_ok (snd (user_partial_update lib salt fault u f db))"
  proof (cases "fst (user_partial_update lib salt fault u f db)")
    case (Inl e)
    then show ?thesis using assms by (auto simp: user_partial_update_def keep_tables_def split: sum.splits)
  next
    case (Inr x)
    then obtain db1 db2 fields user where "require_user fault u db = Inr user"
        and up: "users_partial_update (fault 3) u fields db = Inr db1"
        and add: "(case up_add_roles fields of None \<Rightarrow> Inr db1
          | Some roles \<Rightarrow> map_err map_domain_error (add_user_roles (fault 4) u roles db1)) = Inr db2"
        and rem: "(case up_remove_roles fields of None \<Rightarrow> Inr db2
          | Some roles \<Rightarrow> map_err map_domain_error (remove_user_roles (fault 5) u roles db2)) = Inr (snd (user_partial_update lib salt fault u f db))"
      by (auto simp: user_partial_update_def keep_tables_def bind_ok_def split: sum.splits prod.splits)
    then have "u \<in> us_id ` set (db_users db1)" using partial_update_ids [OF up] by (auto elim!: require_user_Inr_row)
    then have "iam_ok db2" using add partial_update_ok [OF up assms] by (auto split: option.splits intro: roles_append_ok)
    then show ?thesis using rem by (auto split: option.splits intro: roles_filter_ok)
  qed
qed

end
