(* ===== verification/Validation.thy ===== *)
theory Validation
  imports Credentials
begin

text \<open>
  \<^verbatim>\<open>package/validation.rs\<close>: what the \<open>validator\<close> derive reports of a request body becomes one error
  with its violations by path. The derive is a library; its result is a tree of field errors,
  nested structs and lists. \<open>print\<close> is the text serde\_json gives a parameter.
\<close>

record field_error =
  fe_code :: string
  fe_params :: "string \<rightharpoonup> json"

datatype validation_errors = Validation_errors "(string \<times> errors_kind) list"
  and errors_kind =
    Field_kind "field_error list"
  | Struct_kind validation_errors
  | List_kind "(nat \<times> validation_errors) list"

definition message_for :: "(json \<Rightarrow> string) \<Rightarrow> field_error \<Rightarrow> string" where
  "message_for print e =
     (let param = (\<lambda>key. case fe_params e key of None \<Rightarrow> '''' | Some v \<Rightarrow> trim_matches (CHR 0x22) (print v)) in
      if fe_code e = ''required'' then ''field is required and cannot be empty''
      else if fe_code e = ''email'' then ''field must be of email format''
      else if fe_code e = ''length'' then ''field must be a minimum length of '' @ param ''min''
      else if fe_code e = ''url'' then ''filed must be of URI format''
      else if fe_code e = ''range'' then ''field is outside of the accepted range''
      else if fe_code e = ''strong-pwd''
      then ''field requires at least 8 characters with an uppercase letter, a symbol and a numeric value.''
      else ''invalid value for field'')"

fun collect :: "(json \<Rightarrow> string) \<Rightarrow> validation_errors \<Rightarrow> string \<Rightarrow> sf_error \<Rightarrow> sf_error"
  and collect_fields :: "(json \<Rightarrow> string) \<Rightarrow> (string \<times> errors_kind) list \<Rightarrow> string \<Rightarrow> sf_error \<Rightarrow> sf_error"
  and collect_kind :: "(json \<Rightarrow> string) \<Rightarrow> errors_kind \<Rightarrow> string \<Rightarrow> sf_error \<Rightarrow> sf_error"
  and collect_items :: "(json \<Rightarrow> string) \<Rightarrow> (nat \<times> validation_errors) list \<Rightarrow> string \<Rightarrow> sf_error \<Rightarrow> sf_error" where
  "collect print (Validation_errors entries) prefix target = collect_fields print entries prefix target"
| "collect_fields print [] prefix target = target"
| "collect_fields print ((fname, entry) # rest) prefix target =
     (let path = (if prefix = '''' then fname else prefix @ ''.'' @ fname)
      in collect_fields print rest prefix (collect_kind print entry path target))"
| "collect_kind print (Field_kind es) path target =
     fold (\<lambda>e t. push_violation path (message_for print e) t) es target"
| "collect_kind print (Struct_kind nested) path target = collect print nested path target"
| "collect_kind print (List_kind nests) path target = collect_items print nests path target"
| "collect_items print [] path target = target"
| "collect_items print ((i, nested) # rest) path target =
     collect_items print rest path (collect print nested (path @ ''.'' @ show_nat i) target)"

definition validation_to_error :: "(json \<Rightarrow> string) \<Rightarrow> validation_errors \<Rightarrow> sf_error" where
  "validation_to_error print es = collect print es '''' (validation ''failed payload validation'')"

text \<open>The extractor of \<^verbatim>\<open>package/extract.rs\<close>, after the body was read: no error of the derive lets the value through.\<close>

definition validated :: "(json \<Rightarrow> string) \<Rightarrow> (string \<times> errors_kind) list \<Rightarrow> sf_error + unit" where
  "validated print entries = (if entries = [] then Inr () else Inl (validation_to_error print (Validation_errors entries)))"

text \<open>
  The extractors on a whole request: \<open>read\<close> is axum's reading of the body into a value, \<open>derive\<close> what the
  derived checks report of it.
\<close>

definition json_from_request :: "('q \<Rightarrow> string + 'v) \<Rightarrow> 'q \<Rightarrow> sf_error + 'v" where
  "json_from_request read req =
     (case read req of
        Inr value \<Rightarrow> Inr value
      | Inl err \<Rightarrow> Inl (with_cause err (bad_request ''invalid json body'')))"

definition validated_json_from_request ::
  "(json \<Rightarrow> string) \<Rightarrow> ('q \<Rightarrow> string + 'v) \<Rightarrow> ('v \<Rightarrow> (string \<times> errors_kind) list) \<Rightarrow> 'q \<Rightarrow> sf_error + 'v" where
  "validated_json_from_request print read derive req =
     (case json_from_request read req of
        Inl e \<Rightarrow> Inl e
      | Inr value \<Rightarrow> (case validated print (derive value) of Inl e \<Rightarrow> Inl e | Inr _ \<Rightarrow> Inr value))"

text \<open>The checks of the derive: each failing one is a field with one error.\<close>

definition check_length :: "string \<Rightarrow> string \<Rightarrow> (string \<times> errors_kind) list" where
  "check_length fname value = (if length value \<ge> 1 then [] else
     [(fname, Field_kind [\<lparr>fe_code = ''length'', fe_params = [''min'' \<mapsto> JUnsigned 1, ''value'' \<mapsto> JString value]\<rparr>])])"

definition check_email :: "(string \<Rightarrow> bool) \<Rightarrow> string \<Rightarrow> string \<Rightarrow> (string \<times> errors_kind) list" where
  "check_email valid fname value = (if valid value then [] else
     [(fname, Field_kind [\<lparr>fe_code = ''email'', fe_params = [''value'' \<mapsto> JString value]\<rparr>])])"

definition check_url :: "(string \<Rightarrow> bool) \<Rightarrow> string \<Rightarrow> string \<Rightarrow> (string \<times> errors_kind) list" where
  "check_url valid fname value = (if valid value then [] else
     [(fname, Field_kind [\<lparr>fe_code = ''url'', fe_params = [''value'' \<mapsto> JString value]\<rparr>])])"

definition check_strong :: "string \<Rightarrow> string \<Rightarrow> (string \<times> errors_kind) list" where
  "check_strong fname value = (if strong_password value then [] else
     [(fname, Field_kind [\<lparr>fe_code = ''strong-pwd'', fe_params = [''value'' \<mapsto> JString value]\<rparr>])])"

definition check_range :: "int \<Rightarrow> string \<Rightarrow> int \<Rightarrow> (string \<times> errors_kind) list" where
  "check_range least fname value = (if value \<ge> least then [] else
     [(fname, Field_kind [\<lparr>fe_code = ''range'', fe_params = [''min'' \<mapsto> json_i64 least, ''value'' \<mapsto> json_i64 value]\<rparr>])])"

lemma validated_json_accepts:
  "validated_json_from_request print read derive req = Inr v \<longleftrightarrow> read req = Inr v \<and> derive v = []"
  by (auto simp: validated_json_from_request_def json_from_request_def validated_def split: sum.splits)

lemmas derive_checks = check_length_def check_email_def check_url_def check_strong_def check_range_def

end
