(* ===== verification/Gateway.thy ===== *)
theory Gateway
  imports Iam Validation
begin

text \<open>
  How a call reaches a handler: the HTTP middleware \<^verbatim>\<open>server/middlewares/authentication.rs\<close> and
  \<^verbatim>\<open>authorization.rs\<close>, the gRPC guard \<^verbatim>\<open>rpc_auth.rs\<close>, the handlers and routes of \<^verbatim>\<open>module/iam\<close> and
  of \<^verbatim>\<open>module/auth\<close>. A header is the text \<open>to_str\<close> yields, \<open>None\<close> where there is none. The store
  calls of one request are numbered: 0 identifies the caller, 1 to 3 are the permission engine's
  and 4 the handler's own.
\<close>

section \<open>Middleware\<close>

definition bearer_token :: "string option \<Rightarrow> string option" where
  "bearer_token header =
     (case header of
        None \<Rightarrow> None
      | Some value \<Rightarrow>
         (case strip_prefix ''Bearer '' value of
            None \<Rightarrow> None
          | Some token \<Rightarrow> if token \<noteq> '''' then Some token else None))"

definition malformed :: sf_error where "malformed = unauthorized ''malformed or missing jwt token''"

text \<open>The error of an action, replaced.\<close>

definition on_error :: "(sf_error \<Rightarrow> sf_error) \<Rightarrow> 'a act \<Rightarrow> 'a act" where
  "on_error f m w = (case m w of (Inl e, w') \<Rightarrow> (Inl (f e), w') | (Inr x, w') \<Rightarrow> (Inr x, w'))"

definition authenticate :: "auth_service \<Rightarrow> auth_request \<Rightarrow> string option \<Rightarrow> user_identity act" where
  "authenticate svc rq header =
     (case bearer_token header of
        None \<Rightarrow> fail_act malformed
      | Some token \<Rightarrow> on_error (\<lambda>e. with_cause (error_fmt e) malformed) (get_identity svc rq token))"

definition engine_of :: "string \<Rightarrow> auth_request \<Rightarrow> world \<Rightarrow> rbac_engine" where
  "engine_of super rq w =
     \<lparr>super_role = super, rbac_store = pg_rbac_store (rq_faults rq 1) (rq_faults rq 2) (rq_faults rq 3) (w_iam w)\<rparr>"

definition rbac_guard :: "string \<Rightarrow> auth_request \<Rightarrow> string \<Rightarrow> user_identity \<Rightarrow> unit act" where
  "rbac_guard super rq action user w =
     (if can (engine_of super rq w) (idn_id user) action then (Inr (), w)
      else (Inl (unauthorized ''unauthorized action''), w))"

section \<open>The gRPC guard\<close>

datatype access = Open | Authenticated | Requires string | Denied

definition AUTH_SERVICE :: string where "AUTH_SERVICE = ''/schemaforge.v1.AuthService/''"
definition SCHEMA_SERVICE :: string where "SCHEMA_SERVICE = ''/schemaforge.v1.SchemaService/''"

definition access_for :: "string \<Rightarrow> access" where
  "access_for path =
     (case strip_prefix AUTH_SERVICE path of
        Some meth \<Rightarrow> (if meth = ''GetCurrentUser'' then Authenticated else Open)
      | None \<Rightarrow>
         (case strip_prefix SCHEMA_SERVICE path of
            None \<Rightarrow> Open
          | Some meth \<Rightarrow>
             (if meth \<in> set [''GetSchema'', ''ListSchemas'', ''ValidateSchema'', ''CompareSchemas'', ''GenerateDdl'', ''ExportSchema'']
              then Requires ''Schemas.View All''
              else if meth \<in> set [''CreateSchema'', ''ImportSchema''] then Requires ''Schemas.Create''
              else if meth = ''UpdateSchema'' then Requires ''Schemas.Update''
              else if meth = ''DeleteSchema'' then Requires ''Schemas.Delete''
              else Denied)))"

definition identify :: "auth_service \<Rightarrow> auth_request \<Rightarrow> string option \<Rightarrow> user_identity act" where
  "identify svc rq header =
     (case bearer_token header of
        None \<Rightarrow> fail_act malformed
      | Some token \<Rightarrow> on_error (\<lambda>e. with_cause (error_fmt e) malformed) (get_identity svc rq token))"

text \<open>The handler receives the caller the guard identified, \<open>None\<close> on an open path.\<close>

definition guard_call ::
  "auth_service \<Rightarrow> string \<Rightarrow> auth_request \<Rightarrow> string \<Rightarrow> string option \<Rightarrow> (user_identity option \<Rightarrow> 'b act) \<Rightarrow> 'b act" where
  "guard_call svc super rq path header inner =
     (case access_for path of
        Open \<Rightarrow> inner None
      | Denied \<Rightarrow> fail_act (unauthorized ''unauthorized action'')
      | Authenticated \<Rightarrow> and_then (identify svc rq header) (\<lambda>user. inner (Some user))
      | Requires action \<Rightarrow>
          and_then (identify svc rq header) (\<lambda>user.
          and_then (rbac_guard super rq action user) (\<lambda>_. inner (Some user))))"

section \<open>Users over HTTP (module/iam)\<close>

record user_dto =
  ud_user_id :: uuid
  ud_avatar_id :: string
  ud_user_name :: string
  ud_email :: string
  ud_first_name :: string
  ud_last_name :: string
  ud_status :: string
  ud_department :: "int \<times> string"
  ud_company :: "int \<times> string"
  ud_roles :: "string list"

definition user_dto_from :: "iam_user \<Rightarrow> user_dto" where
  "user_dto_from u = \<lparr>ud_user_id = iu_id u, ud_avatar_id = iu_avatar_id u, ud_user_name = iu_user_name u,
     ud_email = iu_email u, ud_first_name = iu_first_name u, ud_last_name = iu_last_name u,
     ud_status = snd (iu_status u), ud_department = iu_department u, ud_company = iu_company u,
     ud_roles = map snd (iu_roles u)\<rparr>"

record create_user_request =
  cur_user_name :: string
  cur_avatar_id :: string
  cur_email :: string
  cur_password :: string
  cur_first_name :: string
  cur_last_name :: string
  cur_department :: int
  cur_roles :: "string list"

definition create_user_request_errors :: "auth_service \<Rightarrow> create_user_request \<Rightarrow> (string \<times> errors_kind) list" where
  "create_user_request_errors svc p =
     check_length ''user_name'' (cur_user_name p) @ check_email (as_valid_email svc) ''email'' (cur_email p) @
     check_strong ''password'' (cur_password p) @ check_length ''first_name'' (cur_first_name p) @
     check_length ''last_name'' (cur_last_name p) @ check_range 1 ''department'' (cur_department p)"

definition permission_dto_from :: "iam_permission \<Rightarrow> string \<times> string \<times> string" where
  "permission_dto_from p = (ip_name p, ip_resource p, ip_module p)"

datatype iam_request =
    Users_index list_request
  | Users_create create_user_request
  | Get_my_user
  | Patch_my_user update_user
  | Get_user uuid
  | Patch_user uuid update_user
  | Delete_user uuid
  | Permissions_index

datatype iam_answer =
    Users_page "user_dto list" meta_data
  | User_created uuid
  | One_user user_dto
  | Done string
  | User_deleted string uuid
  | Permission_list "(string \<times> string \<times> string) list"

text \<open>A handler of the user service over the account tables.\<close>

definition on_tables :: "(iam_db \<Rightarrow> (sf_error + 'a) \<times> iam_db) \<Rightarrow> 'a act" where
  "on_tables f w = (let (r, db) = f (w_iam w) in (r, w\<lparr>w_iam := db\<rparr>))"

definition of_tables :: "(iam_db \<Rightarrow> sf_error + 'a) \<Rightarrow> 'a act" where
  "of_tables f w = (f (w_iam w), w)"

definition users_index_handler :: "(json \<Rightarrow> string) \<Rightarrow> auth_service \<Rightarrow> auth_request \<Rightarrow> user_identity \<Rightarrow> list_request \<Rightarrow> iam_answer act" where
  "users_index_handler print svc rq caller request =
     and_then (of_tables (user_index (rq_faults rq 4) request)) (\<lambda>page.
       ok_act (Users_page (map user_dto_from (pd_data page)) (pd_meta page)))"

definition users_create_handler :: "(json \<Rightarrow> string) \<Rightarrow> auth_service \<Rightarrow> auth_request \<Rightarrow> user_identity \<Rightarrow> create_user_request \<Rightarrow> iam_answer act" where
  "users_create_handler print svc rq caller p =
     and_then (lift_result (validated print (create_user_request_errors svc p))) (\<lambda>_.
     and_then (on_tables (user_create (as_crypto svc) (rq_salt rq) (rq_faults rq 4) (rq_user_id rq)
       \<lparr>cu_user_name = cur_user_name p, cu_avatar_id = cur_avatar_id p, cu_email = cur_email p,
        cu_password = cur_password p, cu_first_name = cur_first_name p, cu_last_name = cur_last_name p,
        cu_status = ACTIVE_USER_STATUS, cu_department_id = cur_department p, cu_roles = cur_roles p\<rparr>)) (\<lambda>user_id.
       ok_act (User_created user_id)))"

definition get_my_user :: "(json \<Rightarrow> string) \<Rightarrow> auth_service \<Rightarrow> auth_request \<Rightarrow> user_identity \<Rightarrow> iam_answer act" where
  "get_my_user print svc rq caller =
     and_then (of_tables (user_find_by_id (rq_faults rq 4) (idn_id caller))) (\<lambda>u. ok_act (One_user (user_dto_from u)))"

definition patch_my_user :: "(json \<Rightarrow> string) \<Rightarrow> auth_service \<Rightarrow> auth_request \<Rightarrow> user_identity \<Rightarrow> update_user \<Rightarrow> iam_answer act" where
  "patch_my_user print svc rq caller payload =
     and_then (on_tables (user_partial_update (as_crypto svc) (rq_salt rq) (rq_faults rq 4) (idn_id caller)
       (restricted_to_self payload))) (\<lambda>_. ok_act (Done ''successfully update user''))"

definition get_user :: "(json \<Rightarrow> string) \<Rightarrow> auth_service \<Rightarrow> auth_request \<Rightarrow> user_identity \<Rightarrow> uuid \<Rightarrow> iam_answer act" where
  "get_user print svc rq caller user_id =
     and_then (of_tables (user_find_by_id (rq_faults rq 4) user_id)) (\<lambda>u. ok_act (One_user (user_dto_from u)))"

definition patch_user :: "(json \<Rightarrow> string) \<Rightarrow> auth_service \<Rightarrow> auth_request \<Rightarrow> user_identity \<Rightarrow> uuid \<Rightarrow> update_user \<Rightarrow> iam_answer act" where
  "patch_user print svc rq caller user_id payload =
     and_then (on_tables (user_partial_update (as_crypto svc) (rq_salt rq) (rq_faults rq 4) user_id payload)) (\<lambda>_.
       ok_act (Done ''successfully update user''))"

definition delete_user :: "(json \<Rightarrow> string) \<Rightarrow> auth_service \<Rightarrow> auth_request \<Rightarrow> user_identity \<Rightarrow> uuid \<Rightarrow> iam_answer act" where
  "delete_user print svc rq caller user_id =
     and_then (on_tables (user_delete (rq_faults rq 4) user_id)) (\<lambda>_.
       ok_act (User_deleted ''User deleted successfully'' user_id))"

definition permissions_index :: "(json \<Rightarrow> string) \<Rightarrow> auth_service \<Rightarrow> auth_request \<Rightarrow> user_identity \<Rightarrow> iam_answer act" where
  "permissions_index print svc rq caller =
     and_then (of_tables (permission_list_all (rq_faults rq 4 0))) (\<lambda>ps.
       ok_act (Permission_list (map permission_dto_from ps)))"

fun iam_handler :: "(json \<Rightarrow> string) \<Rightarrow> auth_service \<Rightarrow> auth_request \<Rightarrow> user_identity \<Rightarrow> iam_request \<Rightarrow> iam_answer act" where
  "iam_handler print svc rq caller (Users_index request) = users_index_handler print svc rq caller request"
| "iam_handler print svc rq caller (Users_create p) = users_create_handler print svc rq caller p"
| "iam_handler print svc rq caller Get_my_user = get_my_user print svc rq caller"
| "iam_handler print svc rq caller (Patch_my_user payload) = patch_my_user print svc rq caller payload"
| "iam_handler print svc rq caller (Get_user user_id) = get_user print svc rq caller user_id"
| "iam_handler print svc rq caller (Patch_user user_id payload) = patch_user print svc rq caller user_id payload"
| "iam_handler print svc rq caller (Delete_user user_id) = delete_user print svc rq caller user_id"
| "iam_handler print svc rq caller Permissions_index = permissions_index print svc rq caller"

lemmas iam_handlers [simp] = users_index_handler_def users_create_handler_def get_my_user_def patch_my_user_def get_user_def patch_user_def delete_user_def permissions_index_def

text \<open>The guard each route is mounted with (\<^verbatim>\<open>module/iam/mod.rs\<close>).\<close>

fun iam_route_action :: "iam_request \<Rightarrow> string option" where
  "iam_route_action (Users_index _) = Some ''Users.View All''"
| "iam_route_action _ = None"

definition iam_routes ::
  "(json \<Rightarrow> string) \<Rightarrow> auth_service \<Rightarrow> string \<Rightarrow> auth_request \<Rightarrow> string option \<Rightarrow> iam_request \<Rightarrow> iam_answer act" where
  "iam_routes print svc super rq header request =
     and_then (authenticate svc rq header) (\<lambda>user.
     and_then (case iam_route_action request of
         None \<Rightarrow> ok_act ()
       | Some action \<Rightarrow> rbac_guard super rq action user) (\<lambda>_.
       iam_handler print svc rq user request))"

section \<open>Signing in over HTTP (module/auth/adapter/handler.rs)\<close>

datatype auth_http_request =
    Http_login string string
  | Http_refresh_token string
  | Http_password_recovery string string
  | Http_password_reset string string

datatype auth_http_answer = Http_tokens tokens | Http_message string

definition http_login :: "(json \<Rightarrow> string) \<Rightarrow> (string \<Rightarrow> bool) \<Rightarrow> auth_service \<Rightarrow> auth_request \<Rightarrow> string \<Rightarrow> string \<Rightarrow> auth_http_answer act" where
  "http_login print valid_url svc rq email password =
     and_then (lift_result (validated print (check_length ''email'' email @ check_length ''password'' password))) (\<lambda>_.
     and_then (generate_token svc rq email password) (\<lambda>t. ok_act (Http_tokens t)))"

definition http_refresh_token :: "(json \<Rightarrow> string) \<Rightarrow> (string \<Rightarrow> bool) \<Rightarrow> auth_service \<Rightarrow> auth_request \<Rightarrow> string \<Rightarrow> auth_http_answer act" where
  "http_refresh_token print valid_url svc rq token =
     and_then (lift_result (validated print (check_length ''token'' token))) (\<lambda>_.
     and_then (refresh_token svc rq token) (\<lambda>t. ok_act (Http_tokens t)))"

definition http_password_recovery :: "(json \<Rightarrow> string) \<Rightarrow> (string \<Rightarrow> bool) \<Rightarrow> auth_service \<Rightarrow> auth_request \<Rightarrow> string \<Rightarrow> string \<Rightarrow> auth_http_answer act" where
  "http_password_recovery print valid_url svc rq email callback_uri =
     and_then (lift_result (validated print (check_email (as_valid_email svc) ''email'' email @ check_url valid_url ''callback_uri'' callback_uri))) (\<lambda>_.
     and_then (password_recovery svc rq email callback_uri) (\<lambda>_. ok_act (Http_message ''password recovery email sent'')))"

definition http_password_reset :: "(json \<Rightarrow> string) \<Rightarrow> (string \<Rightarrow> bool) \<Rightarrow> auth_service \<Rightarrow> auth_request \<Rightarrow> string \<Rightarrow> string \<Rightarrow> auth_http_answer act" where
  "http_password_reset print valid_url svc rq token password =
     and_then (lift_result (validated print (check_length ''token'' token @ check_strong ''password'' password))) (\<lambda>_.
     and_then (reset_password svc rq token password) (\<lambda>_. ok_act (Http_message ''password has been changed'')))"

fun auth_http :: "(json \<Rightarrow> string) \<Rightarrow> (string \<Rightarrow> bool) \<Rightarrow> auth_service \<Rightarrow> auth_request \<Rightarrow> auth_http_request \<Rightarrow> auth_http_answer act" where
  "auth_http print valid_url svc rq (Http_login email password) = http_login print valid_url svc rq email password"
| "auth_http print valid_url svc rq (Http_refresh_token token) = http_refresh_token print valid_url svc rq token"
| "auth_http print valid_url svc rq (Http_password_recovery email callback_uri) = http_password_recovery print valid_url svc rq email callback_uri"
| "auth_http print valid_url svc rq (Http_password_reset token password) = http_password_reset print valid_url svc rq token password"

lemmas auth_http_handlers [simp] = http_login_def http_refresh_token_def http_password_recovery_def http_password_reset_def

section \<open>The auth service over gRPC (module/auth/adapter/rpc.rs)\<close>

text \<open>\<open>sort_by\<close> is stable and \<open>dedup_by\<close> drops a repeat of the element before it.\<close>

definition granted :: "permission list \<Rightarrow> (string \<times> string) list" where
  "granted permissions = remdups_adj (sort_key id (map (\<lambda>p. (pr_module p, pr_name p)) permissions))"

definition required_field :: "string \<Rightarrow> string \<Rightarrow> sf_error \<Rightarrow> sf_error" where
  "required_field fname value e =
     (if trim value = '''' then push_violation fname ''field is required and cannot be empty'' e else e)"

definition required_all :: "(string \<times> string) list \<Rightarrow> sf_error + unit" where
  "required_all entries =
     (let e = fold (\<lambda>(fname, value). required_field fname value) entries (validation ''failed payload validation'')
      in if has_violations e then Inl e else Inr ())"

definition display_name :: "user_identity \<Rightarrow> string" where
  "display_name i = trim (trim (idn_first_name i) @ '' '' @ trim (idn_last_name i))"

record current_user =
  cur_id :: string
  cur_user_email :: string
  cur_name :: string
  cur_avatar_url :: string
  cur_user_roles :: "string list"
  cur_permissions :: "(string \<times> string) list"

datatype auth_rpc_request =
    Rpc_login string string
  | Rpc_register registration
  | Rpc_refresh_token string
  | Rpc_google_login_url string
  | Rpc_get_current_user
  | Rpc_login_with_google string

datatype auth_rpc_answer = Rpc_tokens tokens | Rpc_url string | Rpc_user current_user

fun auth_rpc_path :: "auth_rpc_request \<Rightarrow> string" where
  "auth_rpc_path (Rpc_login _ _) = AUTH_SERVICE @ ''Login''"
| "auth_rpc_path (Rpc_register _) = AUTH_SERVICE @ ''Register''"
| "auth_rpc_path (Rpc_refresh_token _) = AUTH_SERVICE @ ''RefreshToken''"
| "auth_rpc_path (Rpc_google_login_url _) = AUTH_SERVICE @ ''GoogleLoginUrl''"
| "auth_rpc_path Rpc_get_current_user = AUTH_SERVICE @ ''GetCurrentUser''"
| "auth_rpc_path (Rpc_login_with_google _) = AUTH_SERVICE @ ''LoginWithGoogle''"

definition rpc_login :: "auth_service \<Rightarrow> string \<Rightarrow> auth_request \<Rightarrow> string \<Rightarrow> string \<Rightarrow> user_identity option \<Rightarrow> auth_rpc_answer act" where
  "rpc_login svc super rq email password caller =
     and_then (lift_result (required_all [(''email'', email), (''password'', password)])) (\<lambda>_.
     and_then (generate_token svc rq email password) (\<lambda>t. ok_act (Rpc_tokens t)))"

definition rpc_register :: "auth_service \<Rightarrow> string \<Rightarrow> auth_request \<Rightarrow> registration \<Rightarrow> user_identity option \<Rightarrow> auth_rpc_answer act" where
  "rpc_register svc super rq reg caller =
     and_then (register svc rq reg) (\<lambda>t. ok_act (Rpc_tokens t))"

definition rpc_refresh_token :: "auth_service \<Rightarrow> string \<Rightarrow> auth_request \<Rightarrow> string \<Rightarrow> user_identity option \<Rightarrow> auth_rpc_answer act" where
  "rpc_refresh_token svc super rq token caller =
     and_then (lift_result (required_all [(''refresh_token'', token)])) (\<lambda>_.
     and_then (refresh_token svc rq token) (\<lambda>t. ok_act (Rpc_tokens t)))"

definition rpc_google_login_url :: "auth_service \<Rightarrow> string \<Rightarrow> auth_request \<Rightarrow> string \<Rightarrow> user_identity option \<Rightarrow> auth_rpc_answer act" where
  "rpc_google_login_url svc super rq state caller =
     ok_act (Rpc_url (google_login_url svc state))"

definition rpc_get_current_user :: "auth_service \<Rightarrow> string \<Rightarrow> auth_request \<Rightarrow> user_identity option \<Rightarrow> auth_rpc_answer act" where
  "rpc_get_current_user svc super rq caller =
     (case caller of
        None \<Rightarrow> fail_act malformed
      | Some user \<Rightarrow> (\<lambda>w. (Inr (Rpc_user
          \<lparr>cur_id = show_uuid (as_env svc) (idn_id user), cur_user_email = idn_email user, cur_name = display_name user,
           cur_avatar_url = (case idn_avatar_url user of None \<Rightarrow> '''' | Some url \<Rightarrow> url), cur_user_roles = idn_roles user,
           cur_permissions = granted (permissions_of (engine_of super rq w) (idn_id user))\<rparr>), w)))"

definition rpc_login_with_google :: "auth_service \<Rightarrow> string \<Rightarrow> auth_request \<Rightarrow> string \<Rightarrow> user_identity option \<Rightarrow> auth_rpc_answer act" where
  "rpc_login_with_google svc super rq code caller =
     and_then (lift_result (required_all [(''code'', code)])) (\<lambda>_.
     and_then (login_with_google svc rq code) (\<lambda>t. ok_act (Rpc_tokens t)))"

fun auth_rpc :: "auth_service \<Rightarrow> string \<Rightarrow> auth_request \<Rightarrow> auth_rpc_request \<Rightarrow> user_identity option \<Rightarrow> auth_rpc_answer act" where
  "auth_rpc svc super rq (Rpc_login email password) caller = rpc_login svc super rq email password caller"
| "auth_rpc svc super rq (Rpc_register reg) caller = rpc_register svc super rq reg caller"
| "auth_rpc svc super rq (Rpc_refresh_token token) caller = rpc_refresh_token svc super rq token caller"
| "auth_rpc svc super rq (Rpc_google_login_url state) caller = rpc_google_login_url svc super rq state caller"
| "auth_rpc svc super rq Rpc_get_current_user caller = rpc_get_current_user svc super rq caller"
| "auth_rpc svc super rq (Rpc_login_with_google code) caller = rpc_login_with_google svc super rq code caller"

lemmas auth_rpc_handlers [simp] = rpc_login_def rpc_register_def rpc_refresh_token_def rpc_google_login_url_def rpc_get_current_user_def rpc_login_with_google_def

end
