(* ===== verification/Schema_Rpc.thy ===== *)
theory Schema_Rpc
  imports Wire Gateway
begin

text \<open>
  The schema service over gRPC, \<^verbatim>\<open>module/schema/adapter/rpc/schema.rs\<close>, behind the guard of
  \<open>Gateway\<close>. A \<open>oneof\<close> is an option of its alternatives. The parameters are \<open>to_rfc3339\<close>, the two
  directions of serde\_json and the ids an import draws.
\<close>

section \<open>Handlers\<close>

datatype p_target = Target_id string | Target_draft p_schema

datatype schema_rpc_request =
    Create_call string string "p_entity list" "p_relationship list"
  | Get_call string
  | List_call u32 u32
  | Update_call string string string "p_entity list" "p_relationship list"
  | Delete_call string
  | Validate_call "p_target option"
  | Generate_call "p_target option" int bool "bool option"
  | Export_call "p_target option" int "bool option"
  | Compare_call "p_target option" "p_target option" "bool option"
  | Import_call string int "bool option"

datatype schema_rpc_answer =
    Schema_answer p_schema
  | List_answer "p_summary list" u32 u32 "64 word"
  | Deleted_answer
  | Validate_answer bool "p_diagnostic list"
  | Generate_answer string "p_diagnostic list"
  | Export_answer exported
  | Compare_answer bool "p_counts list" "p_difference list"
  | Import_answer p_schema "p_diagnostic list"

record rpc_lib =
  rl_rfc :: "timestamp \<Rightarrow> string"
  rl_print :: "json \<Rightarrow> string"
  rl_parse :: "string \<Rightarrow> string + json"
  rl_ids :: "nat \<Rightarrow> string"

definition rpc_caller :: "user_identity option \<Rightarrow> sf_error + uuid" where
  "rpc_caller user = (case user of Some u \<Rightarrow> Inr (idn_id u) | None \<Rightarrow> Inl malformed)"

definition target_of :: "timestamp \<Rightarrow> string option \<Rightarrow> p_schema option \<Rightarrow> sf_error + validation_target" where
  "target_of now ident drawn =
     (case (ident, drawn) of
        (Some i, _) \<Rightarrow> Inr (Stored i)
      | (_, Some d) \<Rightarrow> bind_ok (draft_schema_from now d) (\<lambda>s. Inr (Draft s))
      | (None, None) \<Rightarrow> Inl (add_violation ''target'' ''field is required: name either an id or a draft''
          (validation ''failed payload validation'')))"

definition target_from :: "timestamp \<Rightarrow> p_target option \<Rightarrow> sf_error + validation_target" where
  "target_from now t =
     (case t of
        Some (Target_id i) \<Rightarrow> target_of now (Some i) None
      | Some (Target_draft d) \<Rightarrow> target_of now None (Some d)
      | None \<Rightarrow> target_of now None None)"

text \<open>\<open>unwrap_or(true)\<close>.\<close>

definition or_true :: "bool option \<Rightarrow> bool" where
  "or_true b = case_option True id b"

definition schemas_of :: "auth_service \<Rightarrow> auth_request \<Rightarrow> store schema_service" where
  "schemas_of svc rq = services (as_env svc) (rq_outages rq) (rq_schema_id rq) (rq_now rq)"

definition on_schemas :: "(store \<Rightarrow> (sf_error + 'a) \<times> store) \<Rightarrow> 'a act" where
  "on_schemas f w = (let (r, st) = f (w_schemas w) in (r, w\<lparr>w_schemas := st\<rparr>))"

definition of_schemas :: "(store \<Rightarrow> sf_error + 'a) \<Rightarrow> 'a act" where
  "of_schemas f w = (f (w_schemas w), w)"

definition create_schema :: "rpc_lib \<Rightarrow> auth_service \<Rightarrow> auth_request \<Rightarrow> string \<Rightarrow> string \<Rightarrow> p_entity list \<Rightarrow> p_relationship list \<Rightarrow> user_identity option \<Rightarrow> schema_rpc_answer act" where
  "create_schema lib svc rq name description es rs user =
     and_then (lift_result (rpc_caller user)) (\<lambda>caller.
     and_then (lift_result (draft_from name description es rs)) (\<lambda>d.
     and_then (on_schemas (service_create (schemas_of svc rq) caller d)) (\<lambda>s.
       ok_act (Schema_answer (schema_to (rl_rfc lib) s)))))"

definition get_schema :: "rpc_lib \<Rightarrow> auth_service \<Rightarrow> auth_request \<Rightarrow> string \<Rightarrow> user_identity option \<Rightarrow> schema_rpc_answer act" where
  "get_schema lib svc rq ident user =
     and_then (lift_result (rpc_caller user)) (\<lambda>caller.
     and_then (of_schemas (service_find_by_id (schemas_of svc rq) 0 caller ident)) (\<lambda>s.
       ok_act (Schema_answer (schema_to (rl_rfc lib) s))))"

definition list_schemas :: "rpc_lib \<Rightarrow> auth_service \<Rightarrow> auth_request \<Rightarrow> u32 \<Rightarrow> u32 \<Rightarrow> user_identity option \<Rightarrow> schema_rpc_answer act" where
  "list_schemas lib svc rq pg per user =
     and_then (lift_result (rpc_caller user)) (\<lambda>caller.
     and_then (of_schemas (service_index (schemas_of svc rq) caller (paged (ucast pg) (ucast per)))) (\<lambda>found.
       ok_act (List_answer (map (summary_to (rl_rfc lib)) (pd_data found)) (ucast (current_page (pd_meta found)))
         (ucast (per_page (pd_meta found))) (total_count (pd_meta found)))))"

definition update_schema :: "rpc_lib \<Rightarrow> auth_service \<Rightarrow> auth_request \<Rightarrow> string \<Rightarrow> string \<Rightarrow> string \<Rightarrow> p_entity list \<Rightarrow> p_relationship list \<Rightarrow> user_identity option \<Rightarrow> schema_rpc_answer act" where
  "update_schema lib svc rq ident name description es rs user =
     and_then (lift_result (rpc_caller user)) (\<lambda>caller.
     and_then (lift_result (draft_from name description es rs)) (\<lambda>d.
     and_then (on_schemas (service_replace (schemas_of svc rq) caller ident d)) (\<lambda>s.
       ok_act (Schema_answer (schema_to (rl_rfc lib) s)))))"

definition delete_schema :: "rpc_lib \<Rightarrow> auth_service \<Rightarrow> auth_request \<Rightarrow> string \<Rightarrow> user_identity option \<Rightarrow> schema_rpc_answer act" where
  "delete_schema lib svc rq ident user =
     and_then (lift_result (rpc_caller user)) (\<lambda>caller.
     and_then (on_schemas (service_delete (schemas_of svc rq) caller ident)) (\<lambda>_. ok_act Deleted_answer))"

definition validate_schema :: "rpc_lib \<Rightarrow> auth_service \<Rightarrow> auth_request \<Rightarrow> p_target option \<Rightarrow> user_identity option \<Rightarrow> schema_rpc_answer act" where
  "validate_schema lib svc rq t user =
     and_then (lift_result (rpc_caller user)) (\<lambda>caller.
     and_then (lift_result (target_from (rq_now rq) t)) (\<lambda>target.
     and_then (of_schemas (service_validate (schemas_of svc rq) caller target)) (\<lambda>report.
       ok_act (Validate_answer (is_valid report) (report_to report)))))"

definition generate_ddl :: "rpc_lib \<Rightarrow> auth_service \<Rightarrow> auth_request \<Rightarrow> p_target option \<Rightarrow> int \<Rightarrow> bool \<Rightarrow> bool option \<Rightarrow> user_identity option \<Rightarrow> schema_rpc_answer act" where
  "generate_ddl lib svc rq t d commented placed user =
     and_then (lift_result (rpc_caller user)) (\<lambda>caller.
     and_then (lift_result (target_from (rq_now rq) t)) (\<lambda>target.
     and_then (of_schemas (service_generate_ddl (schemas_of svc rq) caller
       \<lparr>gr_target = target, gr_dialect = dialect_from d,
        gr_options = \<lparr>include_comments = commented, include_positions = or_true placed\<rparr>\<rparr>)) (\<lambda>made.
       ok_act (Generate_answer (gen_ddl made) (report_to (gen_report made))))))"

definition export_schema :: "rpc_lib \<Rightarrow> auth_service \<Rightarrow> auth_request \<Rightarrow> p_target option \<Rightarrow> int \<Rightarrow> bool option \<Rightarrow> user_identity option \<Rightarrow> schema_rpc_answer act" where
  "export_schema lib svc rq t f placed user =
     and_then (lift_result (rpc_caller user)) (\<lambda>caller.
     and_then (lift_result (target_from (rq_now rq) t)) (\<lambda>target.
     and_then (of_schemas (service_export (rl_print lib) (schemas_of svc rq) caller
       \<lparr>er_target = target, er_format = exchange_format_from f, er_include_positions = or_true placed\<rparr>)) (\<lambda>made.
       ok_act (Export_answer made))))"

definition compare_schemas :: "rpc_lib \<Rightarrow> auth_service \<Rightarrow> auth_request \<Rightarrow> p_target option \<Rightarrow> p_target option \<Rightarrow> bool option \<Rightarrow> user_identity option \<Rightarrow> schema_rpc_answer act" where
  "compare_schemas lib svc rq e a placed user =
     and_then (lift_result (rpc_caller user)) (\<lambda>caller.
     and_then (lift_result (target_from (rq_now rq) e)) (\<lambda>wanted.
     and_then (lift_result (target_from (rq_now rq) a)) (\<lambda>got.
     and_then (of_schemas (service_compare (schemas_of svc rq) caller
       \<lparr>cr_expected = wanted, cr_actual = got, cr_include_positions = or_true placed\<rparr>)) (\<lambda>c.
       ok_act (Compare_answer (is_equal c) (fst (comparison_to c)) (snd (comparison_to c)))))))"

definition import_schema :: "rpc_lib \<Rightarrow> auth_service \<Rightarrow> auth_request \<Rightarrow> string \<Rightarrow> int \<Rightarrow> bool option \<Rightarrow> user_identity option \<Rightarrow> schema_rpc_answer act" where
  "import_schema lib svc rq content f placed user =
     and_then (lift_result (service_import (rl_parse lib) (rl_ids lib) (rq_now rq)
       \<lparr>ir_content = content, ir_format = import_format_from f, ir_include_positions = or_true placed\<rparr>)) (\<lambda>made.
       ok_act (Import_answer (schema_to (rl_rfc lib) (imp_draft made)) (report_to (imp_report made))))"

fun schema_rpc :: "rpc_lib \<Rightarrow> auth_service \<Rightarrow> auth_request \<Rightarrow> schema_rpc_request \<Rightarrow> user_identity option \<Rightarrow> schema_rpc_answer act" where
  "schema_rpc lib svc rq (Create_call name description es rs) user = create_schema lib svc rq name description es rs user"
| "schema_rpc lib svc rq (Get_call ident) user = get_schema lib svc rq ident user"
| "schema_rpc lib svc rq (List_call pg per) user = list_schemas lib svc rq pg per user"
| "schema_rpc lib svc rq (Update_call ident name description es rs) user = update_schema lib svc rq ident name description es rs user"
| "schema_rpc lib svc rq (Delete_call ident) user = delete_schema lib svc rq ident user"
| "schema_rpc lib svc rq (Validate_call t) user = validate_schema lib svc rq t user"
| "schema_rpc lib svc rq (Generate_call t d commented placed) user = generate_ddl lib svc rq t d commented placed user"
| "schema_rpc lib svc rq (Export_call t f placed) user = export_schema lib svc rq t f placed user"
| "schema_rpc lib svc rq (Compare_call e a placed) user = compare_schemas lib svc rq e a placed user"
| "schema_rpc lib svc rq (Import_call content f placed) user = import_schema lib svc rq content f placed user"

lemmas schema_handlers [simp] = create_schema_def get_schema_def list_schemas_def update_schema_def delete_schema_def validate_schema_def generate_ddl_def export_schema_def compare_schemas_def import_schema_def

fun schema_method :: "schema_rpc_request \<Rightarrow> string" where
  "schema_method (Create_call _ _ _ _) = ''CreateSchema''"
| "schema_method (Get_call _) = ''GetSchema''"
| "schema_method (List_call _ _) = ''ListSchemas''"
| "schema_method (Update_call _ _ _ _ _) = ''UpdateSchema''"
| "schema_method (Delete_call _) = ''DeleteSchema''"
| "schema_method (Validate_call _) = ''ValidateSchema''"
| "schema_method (Generate_call _ _ _ _) = ''GenerateDdl''"
| "schema_method (Export_call _ _ _) = ''ExportSchema''"
| "schema_method (Compare_call _ _ _) = ''CompareSchemas''"
| "schema_method (Import_call _ _ _) = ''ImportSchema''"

definition serve_schema_rpc ::
  "rpc_lib \<Rightarrow> auth_service \<Rightarrow> string \<Rightarrow> auth_request \<Rightarrow> string option \<Rightarrow> schema_rpc_request \<Rightarrow> schema_rpc_answer act" where
  "serve_schema_rpc lib svc super rq header request =
     guard_call svc super rq (SCHEMA_SERVICE @ schema_method request) header (schema_rpc lib svc rq request)"

section \<open>The guard\<close>

lemma strip_prefix_append [simp]: "strip_prefix p (p @ s) = Some s"
  by (induction p) simp_all

lemma schema_path_not_auth [simp]: "strip_prefix AUTH_SERVICE (SCHEMA_SERVICE @ m) = None"
  by (simp add: AUTH_SERVICE_def SCHEMA_SERVICE_def)

text \<open>No method of the schema service is open, whatever its name.\<close>

lemma schema_access: "access_for (SCHEMA_SERVICE @ m) = Denied \<or> (\<exists>a. access_for (SCHEMA_SERVICE @ m) = Requires a)"
  by (auto simp: access_for_def)

lemma get_identity_reads: "snd (get_identity svc rq t w) = w"
  by (auto simp: get_identity_def act_defs require_user_by_id_def split: sum.split option.split)

lemma on_error_snd [simp]: "snd (on_error f m w) = snd (m w)"
  by (auto simp: on_error_def split: prod.split sum.split)

lemma on_error_Inr: "on_error f m w = (Inr x, w') \<longleftrightarrow> m w = (Inr x, w')"
  by (auto simp: on_error_def split: prod.split sum.split)

lemma identify_reads: "snd (identify svc rq h w) = w"
  by (simp add: identify_def get_identity_reads split: option.split)

lemma authenticate_reads: "snd (authenticate svc rq h w) = w"
  by (simp add: authenticate_def get_identity_reads split: option.split)

lemma guard_requires:
  assumes "access_for path = Requires a"
  shows "guard_call svc super rq path header inner w =
    (case fst (identify svc rq header w) of
       Inl e \<Rightarrow> (Inl e, w)
     | Inr user \<Rightarrow>
        (if can (engine_of super rq w) (idn_id user) a then inner (Some user) w
         else (Inl (unauthorized ''unauthorized action''), w)))"
proof -
  obtain r where "identify svc rq header w = (r, w)"
    using identify_reads [of svc rq header w] by (cases "identify svc rq header w") auto
  then show ?thesis
    using assms by (simp add: guard_call_def and_then_def rbac_guard_def split: sum.split)
qed

section \<open>What a call does\<close>

lemma on_schemas_write:
  "on_schemas (service_create (schemas_of svc rq) u d) w =
     (fst (service_create (schemas_of svc rq) u d (w_schemas w)),
      w\<lparr>w_schemas := apply_write (schemas_of svc rq) (Create_schema u d) (w_schemas w)\<rparr>)"
  "on_schemas (service_replace (schemas_of svc rq) u i d) w =
     (fst (service_replace (schemas_of svc rq) u i d (w_schemas w)),
      w\<lparr>w_schemas := apply_write (schemas_of svc rq) (Replace_schema u i d) (w_schemas w)\<rparr>)"
  "on_schemas (service_delete (schemas_of svc rq) u i) w =
     (fst (service_delete (schemas_of svc rq) u i (w_schemas w)),
      w\<lparr>w_schemas := apply_write (schemas_of svc rq) (Delete_schema u i) (w_schemas w)\<rparr>)"
  by (simp_all add: on_schemas_def split_beta)

text \<open>A handler writes at most once, as its caller.\<close>

lemma schema_rpc_writes:
  "snd (schema_rpc lib svc rq request (Some user) w) = w \<or>
   (\<exists>wr. writer wr = idn_id user \<and>
      snd (schema_rpc lib svc rq request (Some user) w) = w\<lparr>w_schemas := apply_write (schemas_of svc rq) wr (w_schemas w)\<rparr>)"
proof (cases request)
  case (Create_call name description es rs)
  show ?thesis
  proof (cases "draft_from name description es rs")
    case (Inr d)
    then show ?thesis
      by (intro disjI2 exI [of _ "Create_schema (idn_id user) d"])
        (simp add: Create_call rpc_caller_def and_then_def on_schemas_write split: sum.split)
  qed (simp add: Create_call rpc_caller_def and_then_def)
next
  case (Update_call i name description es rs)
  show ?thesis
  proof (cases "draft_from name description es rs")
    case (Inr d)
    then show ?thesis
      by (intro disjI2 exI [of _ "Replace_schema (idn_id user) i d"])
        (simp add: Update_call rpc_caller_def and_then_def on_schemas_write split: sum.split)
  qed (simp add: Update_call rpc_caller_def and_then_def)
next
  case (Delete_call i)
  show ?thesis
    by (intro disjI2 exI [of _ "Delete_schema (idn_id user) i"])
      (simp add: Delete_call rpc_caller_def and_then_def on_schemas_write split: sum.split)
qed (simp_all add: rpc_caller_def and_then_def of_schemas_def split: sum.split)

text \<open>A refused call leaves the state as it was.\<close>

lemma schema_rpc_refused: "schema_rpc lib svc rq request (Some user) w = (Inl e, w') \<Longrightarrow> w' = w"
proof (cases request)
  case (Create_call name description es rs)
  assume "schema_rpc lib svc rq request (Some user) w = (Inl e, w')"
  then show ?thesis
    using live.create_refused
    by (auto simp: Create_call rpc_caller_def and_then_def on_schemas_def schemas_of_def split: sum.splits prod.splits)
next
  case (Update_call i name description es rs)
  assume "schema_rpc lib svc rq request (Some user) w = (Inl e, w')"
  then show ?thesis
    using live.replace_refused
    by (auto simp: Update_call rpc_caller_def and_then_def on_schemas_def schemas_of_def split: sum.splits prod.splits)
next
  case (Delete_call i)
  assume "schema_rpc lib svc rq request (Some user) w = (Inl e, w')"
  then show ?thesis
    using live.delete_refused
    by (auto simp: Delete_call rpc_caller_def and_then_def on_schemas_def schemas_of_def split: sum.splits prod.splits)
qed (auto simp: rpc_caller_def and_then_def of_schemas_def split: sum.splits)

lemma serve_schema_rpc_cases:
  "snd (serve_schema_rpc lib svc super rq header request w) = w \<or>
   (\<exists>user a wr. fst (identify svc rq header w) = Inr user \<and>
      access_for (SCHEMA_SERVICE @ schema_method request) = Requires a \<and> can (engine_of super rq w) (idn_id user) a \<and>
      writer wr = idn_id user \<and>
      snd (serve_schema_rpc lib svc super rq header request w) =
        w\<lparr>w_schemas := apply_write (schemas_of svc rq) wr (w_schemas w)\<rparr>)"
proof (cases "access_for (SCHEMA_SERVICE @ schema_method request)")
  case (Requires a)
  then show ?thesis
    using schema_rpc_writes [of lib svc rq request _ w]
    by (fastforce simp: serve_schema_rpc_def guard_requires split: sum.split)
qed (use schema_access [of "schema_method request"] in \<open>auto simp: serve_schema_rpc_def guard_call_def\<close>)

lemma serve_schema_rpc_keeps: "keeps world_ok (serve_schema_rpc lib svc super rq header request)"
  unfolding keeps_def
proof (intro allI impI)
  fix w assume "world_ok w"
  then show "world_ok (snd (serve_schema_rpc lib svc super rq header request w))"
    using serve_schema_rpc_cases [of lib svc super rq header request w] live.write_ok [of "w_schemas w"]
    by (auto simp: world_ok_def schemas_of_def)
qed

end
