(* ===== verification/Schema_Http.thy ===== *)
theory Schema_Http
  imports Payload Schema_Rpc
begin

text \<open>
  The HTTP port of the schema service: the handlers of \<^verbatim>\<open>module/schema/adapter/handler/schema.rs\<close> and
  the routes of \<^verbatim>\<open>module/schema/mod.rs\<close>, all behind the authentication layer. A request holds the
  payload serde read; an absent field is \<open>None\<close>, an absent text empty.
\<close>

section \<open>Requests and answers\<close>

record http_target =
  ht_schema_id :: "string option"
  ht_schema :: "schema_payload option"

datatype schema_http_request =
    Http_index "(string \<times> string) list"
  | Http_create schema_payload
  | Http_get string
  | Http_replace string schema_payload
  | Http_delete string
  | Http_validate http_target
  | Http_generate_ddl http_target "string option" bool "bool option"
  | Http_export http_target "string option" "bool option"
  | Http_compare http_target http_target "bool option"
  | Http_compare_sql string string "bool option"
  | Http_import string "string option" "bool option"

record schema_comparison =
  sc_equal :: bool
  sc_counts :: "h_counts list"
  sc_differences :: "h_difference list"
  sc_diagnostics :: "h_diagnostic list"

datatype schema_http_answer =
    Http_page "h_summary list" meta_data
  | Http_schema h_schema
  | Http_deleted string string
  | Http_validation bool "h_diagnostic list"
  | Http_ddl string "h_diagnostic list"
  | Http_file exported
  | Http_comparison schema_comparison
  | Http_imported h_schema "h_diagnostic list"

section \<open>Handlers\<close>

definition http_target_from :: "timestamp \<Rightarrow> http_target \<Rightarrow> sf_error + validation_target" where
  "http_target_from now t =
     (case (ht_schema_id t, ht_schema t) of
        (Some i, None) \<Rightarrow> Inr (Stored i)
      | (None, Some p) \<Rightarrow> bind_ok (h_draft_schema_from now p) (\<lambda>s. Inr (Draft s))
      | (Some _, Some _) \<Rightarrow> Inl (add_violation ''schema_id'' ''field cannot be given alongside `schema`: name one target''
          (validation ''failed payload validation''))
      | (None, None) \<Rightarrow> Inl (add_violation ''schema_id'' ''field is required: name either a stored id or a schema to check''
          (validation ''failed payload validation'')))"

definition http_index :: "rpc_lib \<Rightarrow> auth_service \<Rightarrow> auth_request \<Rightarrow> (string \<times> string) list \<Rightarrow> uuid \<Rightarrow> schema_http_answer act" where
  "http_index lib svc rq query caller =
     and_then (of_schemas (service_index (schemas_of svc rq) caller (from_query query))) (\<lambda>page.
       ok_act (Http_page (map (h_summary_from (rl_rfc lib)) (pd_data page)) (pd_meta page)))"

definition http_create :: "rpc_lib \<Rightarrow> auth_service \<Rightarrow> auth_request \<Rightarrow> schema_payload \<Rightarrow> uuid \<Rightarrow> schema_http_answer act" where
  "http_create lib svc rq payload caller =
     and_then (lift_result (h_draft_from payload)) (\<lambda>d.
     and_then (on_schemas (service_create (schemas_of svc rq) caller d)) (\<lambda>s.
       ok_act (Http_schema (h_schema_from (rl_rfc lib) s))))"

definition http_get :: "rpc_lib \<Rightarrow> auth_service \<Rightarrow> auth_request \<Rightarrow> string \<Rightarrow> uuid \<Rightarrow> schema_http_answer act" where
  "http_get lib svc rq ident caller =
     and_then (of_schemas (service_find_by_id (schemas_of svc rq) 0 caller ident)) (\<lambda>s.
       ok_act (Http_schema (h_schema_from (rl_rfc lib) s)))"

definition http_replace :: "rpc_lib \<Rightarrow> auth_service \<Rightarrow> auth_request \<Rightarrow> string \<Rightarrow> schema_payload \<Rightarrow> uuid \<Rightarrow> schema_http_answer act" where
  "http_replace lib svc rq ident payload caller =
     and_then (lift_result (h_draft_from payload)) (\<lambda>d.
     and_then (on_schemas (service_replace (schemas_of svc rq) caller ident d)) (\<lambda>s.
       ok_act (Http_schema (h_schema_from (rl_rfc lib) s))))"

definition http_delete :: "rpc_lib \<Rightarrow> auth_service \<Rightarrow> auth_request \<Rightarrow> string \<Rightarrow> uuid \<Rightarrow> schema_http_answer act" where
  "http_delete lib svc rq ident caller =
     and_then (on_schemas (service_delete (schemas_of svc rq) caller ident)) (\<lambda>_.
       ok_act (Http_deleted ''Schema deleted successfully'' ident))"

definition http_validate :: "rpc_lib \<Rightarrow> auth_service \<Rightarrow> auth_request \<Rightarrow> http_target \<Rightarrow> uuid \<Rightarrow> schema_http_answer act" where
  "http_validate lib svc rq t caller =
     and_then (lift_result (http_target_from (rq_now rq) t)) (\<lambda>target.
     and_then (of_schemas (service_validate (schemas_of svc rq) caller target)) (\<lambda>report.
       ok_act (Http_validation (is_valid report) (h_report_to report))))"

definition http_generate_ddl :: "rpc_lib \<Rightarrow> auth_service \<Rightarrow> auth_request \<Rightarrow> http_target \<Rightarrow> string option \<Rightarrow> bool \<Rightarrow> bool option \<Rightarrow> uuid \<Rightarrow> schema_http_answer act" where
  "http_generate_ddl lib svc rq t named commented placed caller =
     (let (d, v) = h_dialect_from named ''dialect'' None in
      and_then (lift_result (viol_into_result v)) (\<lambda>_.
      and_then (lift_result (http_target_from (rq_now rq) t)) (\<lambda>target.
      and_then (of_schemas (service_generate_ddl (schemas_of svc rq) caller
        \<lparr>gr_target = target, gr_dialect = case_option dialect_default id d,
         gr_options = \<lparr>include_comments = commented, include_positions = or_true placed\<rparr>\<rparr>)) (\<lambda>made.
        ok_act (Http_ddl (gen_ddl made) (h_report_to (gen_report made)))))))"

definition http_export :: "rpc_lib \<Rightarrow> auth_service \<Rightarrow> auth_request \<Rightarrow> http_target \<Rightarrow> string option \<Rightarrow> bool option \<Rightarrow> uuid \<Rightarrow> schema_http_answer act" where
  "http_export lib svc rq t named placed caller =
     (let (f, v) = h_exchange_format_from named ''format'' None in
      and_then (lift_result (viol_into_result v)) (\<lambda>_.
      and_then (lift_result (http_target_from (rq_now rq) t)) (\<lambda>target.
      and_then (of_schemas (service_export (rl_print lib) (schemas_of svc rq) caller
        \<lparr>er_target = target, er_format = case_option exchange_format_default id f, er_include_positions = or_true placed\<rparr>)) (\<lambda>made.
        ok_act (Http_file made)))))"

definition comparison_answer :: "comparison \<Rightarrow> h_diagnostic list \<Rightarrow> schema_comparison" where
  "comparison_answer c ds =
     (let (cs, fs) = h_comparison_to c
      in \<lparr>sc_equal = is_equal c, sc_counts = cs, sc_differences = fs, sc_diagnostics = ds\<rparr>)"

definition http_compare :: "rpc_lib \<Rightarrow> auth_service \<Rightarrow> auth_request \<Rightarrow> http_target \<Rightarrow> http_target \<Rightarrow> bool option \<Rightarrow> uuid \<Rightarrow> schema_http_answer act" where
  "http_compare lib svc rq e a placed caller =
     and_then (lift_result (http_target_from (rq_now rq) e)) (\<lambda>wanted.
     and_then (lift_result (http_target_from (rq_now rq) a)) (\<lambda>got.
     and_then (of_schemas (service_compare (schemas_of svc rq) caller
       \<lparr>cr_expected = wanted, cr_actual = got, cr_include_positions = or_true placed\<rparr>)) (\<lambda>c.
       ok_act (Http_comparison (comparison_answer c [])))))"

definition http_compare_sql :: "rpc_lib \<Rightarrow> auth_service \<Rightarrow> auth_request \<Rightarrow> string \<Rightarrow> string \<Rightarrow> bool option \<Rightarrow> uuid \<Rightarrow> schema_http_answer act" where
  "http_compare_sql lib svc rq ident content placed caller =
     (let e0 = validation ''failed payload validation'';
          e1 = (if trim ident = '''' then push_violation ''schema_id'' ''field is required and cannot be empty'' e0 else e0);
          e2 = (if trim content = '''' then push_violation ''content'' ''field is required and cannot be empty'' e1 else e1)
      in if has_violations e2 then fail_act e2
         else
           and_then (lift_result (service_import (rl_parse lib) (rl_ids lib) (rq_now rq)
             \<lparr>ir_content = content, ir_format = Sql_format, ir_include_positions = or_true placed\<rparr>)) (\<lambda>made.
           and_then (of_schemas (service_compare (schemas_of svc rq) caller
             \<lparr>cr_expected = Stored ident, cr_actual = Draft (imp_draft made), cr_include_positions = or_true placed\<rparr>)) (\<lambda>c.
             ok_act (Http_comparison (comparison_answer c (h_report_to (imp_report made)))))))"

definition http_import :: "rpc_lib \<Rightarrow> auth_service \<Rightarrow> auth_request \<Rightarrow> string \<Rightarrow> string option \<Rightarrow> bool option \<Rightarrow> schema_http_answer act" where
  "http_import lib svc rq content named placed =
     (if trim content = ''''
      then fail_act (add_violation ''content'' ''field is required and cannot be empty'' (validation ''failed payload validation''))
      else
        (let (f, v) = h_exchange_format_from named ''format'' None in
         and_then (lift_result (viol_into_result v)) (\<lambda>_.
         and_then (lift_result (service_import (rl_parse lib) (rl_ids lib) (rq_now rq)
           \<lparr>ir_content = content, ir_format = case_option exchange_format_default id f, ir_include_positions = or_true placed\<rparr>)) (\<lambda>made.
           ok_act (Http_imported (h_schema_from (rl_rfc lib) (imp_draft made)) (h_report_to (imp_report made)))))))"

fun schema_http :: "rpc_lib \<Rightarrow> auth_service \<Rightarrow> auth_request \<Rightarrow> schema_http_request \<Rightarrow> uuid \<Rightarrow> schema_http_answer act" where
  "schema_http lib svc rq (Http_index query) caller = http_index lib svc rq query caller"
| "schema_http lib svc rq (Http_create p) caller = http_create lib svc rq p caller"
| "schema_http lib svc rq (Http_get i) caller = http_get lib svc rq i caller"
| "schema_http lib svc rq (Http_replace i p) caller = http_replace lib svc rq i p caller"
| "schema_http lib svc rq (Http_delete i) caller = http_delete lib svc rq i caller"
| "schema_http lib svc rq (Http_validate t) caller = http_validate lib svc rq t caller"
| "schema_http lib svc rq (Http_generate_ddl t d c p) caller = http_generate_ddl lib svc rq t d c p caller"
| "schema_http lib svc rq (Http_export t f p) caller = http_export lib svc rq t f p caller"
| "schema_http lib svc rq (Http_compare e a p) caller = http_compare lib svc rq e a p caller"
| "schema_http lib svc rq (Http_compare_sql i c p) caller = http_compare_sql lib svc rq i c p caller"
| "schema_http lib svc rq (Http_import c f p) caller = http_import lib svc rq c f p"

definition schema_routes :: "rpc_lib \<Rightarrow> auth_service \<Rightarrow> auth_request \<Rightarrow> string option \<Rightarrow> schema_http_request \<Rightarrow> schema_http_answer act" where
  "schema_routes lib svc rq header request =
     and_then (authenticate svc rq header) (\<lambda>user. schema_http lib svc rq request (idn_id user))"

section \<open>What a request does\<close>

text \<open>A handler that only reads.\<close>

definition reads :: "'a act \<Rightarrow> bool" where "reads m \<longleftrightarrow> (\<forall>w. snd (m w) = w)"

named_theorems reads_intros

lemma reads_and_then [reads_intros]: "reads m \<Longrightarrow> (\<And>x. reads (f x)) \<Longrightarrow> reads (and_then m f)"
  by (simp add: reads_def and_then_def split: prod.split sum.split) (metis snd_conv)

lemma reads_basic [reads_intros]:
  "reads (lift_result r)" "reads (ok_act x)" "reads (fail_act e)" "reads (of_schemas f)"
  by (simp_all add: reads_def lift_result_def ok_act_def fail_act_def of_schemas_def)

lemma reading_handlers:
  "reads (http_index lib svc rq q u)" "reads (http_get lib svc rq i u)" "reads (http_validate lib svc rq t u)"
  "reads (http_generate_ddl lib svc rq t d c p u)" "reads (http_export lib svc rq t f p u)" "reads (http_compare lib svc rq t t' p u)"
  "reads (http_compare_sql lib svc rq i s p u)" "reads (http_import lib svc rq s f p)"
  unfolding http_index_def http_get_def http_validate_def http_generate_ddl_def http_export_def http_compare_def
    http_compare_sql_def http_import_def Let_def split_beta
  by (auto intro!: reads_intros)

lemma schema_http_writes:
  "snd (schema_http lib svc rq request u w) = w \<or>
   (\<exists>wr. writer wr = u \<and> snd (schema_http lib svc rq request u w) = w\<lparr>w_schemas := apply_write (schemas_of svc rq) wr (w_schemas w)\<rparr>)"
proof (cases request)
  case (Http_create p)
  show ?thesis
  proof (cases "h_draft_from p")
    case (Inr d)
    then show ?thesis
      by (intro disjI2 exI [of _ "Create_schema u d"])
        (simp add: Http_create http_create_def and_then_def on_schemas_write split: sum.split)
  qed (simp add: Http_create http_create_def and_then_def)
next
  case (Http_replace i p)
  show ?thesis
  proof (cases "h_draft_from p")
    case (Inr d)
    then show ?thesis
      by (intro disjI2 exI [of _ "Replace_schema u i d"])
        (simp add: Http_replace http_replace_def and_then_def on_schemas_write split: sum.split)
  qed (simp add: Http_replace http_replace_def and_then_def)
next
  case (Http_delete i)
  show ?thesis
    by (intro disjI2 exI [of _ "Delete_schema u i"])
      (simp add: Http_delete http_delete_def and_then_def on_schemas_write split: sum.split)
qed (use reading_handlers in \<open>simp_all add: reads_def\<close>)

lemma authenticate_identify: "authenticate = identify"
  by (intro ext) (simp add: authenticate_def identify_def)

lemma schema_routes_cases:
  "snd (schema_routes lib svc rq header request w) = w \<or>
   (\<exists>user wr. fst (authenticate svc rq header w) = Inr user \<and> writer wr = idn_id user \<and>
      snd (schema_routes lib svc rq header request w) = w\<lparr>w_schemas := apply_write (schemas_of svc rq) wr (w_schemas w)\<rparr>)"
proof -
  obtain r where r: "authenticate svc rq header w = (r, w)"
    using authenticate_reads [of svc rq header w] by (cases "authenticate svc rq header w") auto
  show ?thesis
  proof (cases r)
    case (Inl e)
    then show ?thesis using r by (simp add: schema_routes_def and_then_def)
  next
    case (Inr user)
    then show ?thesis using r schema_http_writes [of lib svc rq request "idn_id user" w]
      by (auto simp: schema_routes_def and_then_def)
  qed
qed

lemma schema_routes_keeps: "keeps world_ok (schema_routes lib svc rq header request)"
  unfolding keeps_def
proof (intro allI impI)
  fix w assume "world_ok w"
  then show "world_ok (snd (schema_routes lib svc rq header request w))"
    using schema_routes_cases [of lib svc rq header request w] live.write_ok [of "w_schemas w"]
    by (auto simp: world_ok_def schemas_of_def)
qed

text \<open>The routes ask for no permission, where the guard of the gRPC port does.\<close>

lemma ports_differ:
  assumes "authenticate svc rq header w = (Inr user, w)" and "\<not> can (engine_of super rq w) (idn_id user) ''Schemas.Delete''"
  shows "serve_schema_rpc lib svc super rq header (Delete_call i) w = (Inl (unauthorized ''unauthorized action''), w)"
    and "schema_routes lib svc rq header (Http_delete i) w =
      (let (r, st) = service_delete (schemas_of svc rq) (idn_id user) i (w_schemas w)
       in (map_sum id (\<lambda>_. Http_deleted ''Schema deleted successfully'' i) r, w\<lparr>w_schemas := st\<rparr>))"
proof -
  have "access_for (SCHEMA_SERVICE @ ''DeleteSchema'') = Requires ''Schemas.Delete''"
    by (simp add: access_for_def)
  then show "serve_schema_rpc lib svc super rq header (Delete_call i) w = (Inl (unauthorized ''unauthorized action''), w)"
    using assms by (simp add: serve_schema_rpc_def guard_requires authenticate_identify)
  show "schema_routes lib svc rq header (Http_delete i) w =
      (let (r, st) = service_delete (schemas_of svc rq) (idn_id user) i (w_schemas w)
       in (map_sum id (\<lambda>_. Http_deleted ''Schema deleted successfully'' i) r, w\<lparr>w_schemas := st\<rparr>))"
    using assms(1)
    by (simp add: schema_routes_def and_then_def http_delete_def on_schemas_def map_sum_def Let_def split: prod.split sum.split)
qed

end
