(* ===== verification/System.thy ===== *)
theory System
  imports Schema_Http
begin

text \<open>
  The whole server: the tables the migrations leave (\<^verbatim>\<open>migrations/iam\<close>), every call of the two
  ports, and the states any sequence of calls reaches. The last part is what user management
  allows and refuses.
\<close>

section \<open>The tables after the migrations\<close>

definition migrated_db :: "uuid \<Rightarrow> iam_db" where
  "migrated_db admin =
     \<lparr>db_statuses = [(1, ''Active''), (2, ''Deleted'')],
      db_companies = [(1, ''Example Company Ltd'')],
      db_departments = [\<lparr>dp_id = 1, dp_name = ''Administration'', dp_company_id = 1\<rparr>],
      db_users = [\<lparr>us_id = admin, us_user_name = ''admin'', us_avatar_id = '''', us_avatar_url = None,
        us_email = ''admin@example.com'', us_password = ''$2a$10$Mseb73NYJsJ/d8fcD.JZGuJgAeciQXFxaxY7uXdVCtvH2u/muejNy'',
        us_first_name = ''App'', us_last_name = ''Admin'', us_status_id = 1, us_department_id = 1\<rparr>],
      db_modules = [(1, ''Access & Identity Module''), (4, ''Schema Module'')],
      db_permissions = [\<lparr>pm_id = 1, pm_name = ''View All'', pm_resource = ''Users'', pm_module_id = Some 1\<rparr>,
        \<lparr>pm_id = 8, pm_name = ''View All'', pm_resource = ''Schemas'', pm_module_id = Some 4\<rparr>,
        \<lparr>pm_id = 9, pm_name = ''Create'', pm_resource = ''Schemas'', pm_module_id = Some 4\<rparr>,
        \<lparr>pm_id = 10, pm_name = ''Update'', pm_resource = ''Schemas'', pm_module_id = Some 4\<rparr>,
        \<lparr>pm_id = 11, pm_name = ''Delete'', pm_resource = ''Schemas'', pm_module_id = Some 4\<rparr>],
      db_roles = [(1, ''Admin''), (2, ''Developer''), (3, ''Staff'')],
      db_role_permissions = [(1, 1), (2, 1), (1, 8), (1, 9), (1, 10), (1, 11), (2, 8), (2, 9), (2, 10), (2, 11)],
      db_user_roles = [(admin, 1)],
      db_resets = []\<rparr>"

definition initial_world :: "uuid \<Rightarrow> world" where
  "initial_world admin = \<lparr>w_iam = migrated_db admin, w_schemas = empty_store, w_outbox = []\<rparr>"

lemma migrated_ok: "iam_ok (migrated_db admin)"
  by (simp add: iam_ok_def users_distinct_def users_linked_def roles_linked_def migrated_db_def user_row_too_long_def)

lemma initial_ok: "world_ok (initial_world admin)"
  by (simp add: world_ok_def initial_world_def migrated_ok empty_store_ok) (simp add: migrated_db_def)

lemma migrated_modules: "modules_linked (migrated_db admin)"
  by (simp add: modules_linked_def migrated_db_def)

section \<open>Every call\<close>

record server =
  sv_auth :: auth_service
  sv_lib :: rpc_lib
  sv_valid_url :: "string \<Rightarrow> bool"
  sv_super_role :: string

datatype call =
    Auth_rpc_call auth_rpc_request
  | Auth_http_call auth_http_request
  | Iam_http_call iam_request
  | Schema_rpc_call schema_rpc_request
  | Schema_http_call schema_http_request

fun serve :: "server \<Rightarrow> auth_request \<Rightarrow> string option \<Rightarrow> call \<Rightarrow> world \<Rightarrow> world" where
  "serve sv rq header (Auth_rpc_call c) w =
     snd (guard_call (sv_auth sv) (sv_super_role sv) rq (auth_rpc_path c) header (auth_rpc (sv_auth sv) (sv_super_role sv) rq c) w)"
| "serve sv rq header (Auth_http_call c) w =
     snd (auth_http (rl_print (sv_lib sv)) (sv_valid_url sv) (sv_auth sv) rq c w)"
| "serve sv rq header (Iam_http_call c) w =
     snd (iam_routes (rl_print (sv_lib sv)) (sv_auth sv) (sv_super_role sv) rq header c w)"
| "serve sv rq header (Schema_rpc_call c) w =
     snd (serve_schema_rpc (sv_lib sv) (sv_auth sv) (sv_super_role sv) rq header c w)"
| "serve sv rq header (Schema_http_call c) w =
     snd (schema_routes (sv_lib sv) (sv_auth sv) rq header c w)"

inductive system_reachable :: "server \<Rightarrow> world \<Rightarrow> bool" for sv where
  start: "system_reachable sv (initial_world admin)"
| step: "system_reachable sv w \<Longrightarrow> system_reachable sv (serve sv rq header c w)"

lemma on_tables_keeps [keeps_intros]:
  assumes "\<And>db. iam_ok db \<Longrightarrow> iam_ok (snd (f db))" and "\<And>db. db_resets (snd (f db)) = db_resets db"
  shows "keeps world_ok (on_tables f)"
  using assms by (simp add: keeps_def on_tables_def world_ok_def split_beta)

lemma of_tables_keeps [keeps_intros]: "keeps P (of_tables f)"
  by (simp add: keeps_def of_tables_def)

lemma rbac_guard_keeps [keeps_intros]: "keeps P (rbac_guard super rq a u)"
  by (simp add: keeps_def rbac_guard_def)

lemma identify_keeps [keeps_intros]: "keeps P (identify svc rq h)" "keeps P (authenticate svc rq h)"
  by (simp_all add: keeps_def identify_reads authenticate_reads)

lemma insert_user_resets: "insert_user row db = Inr db' \<Longrightarrow> db_resets db' = db_resets db"
  by (drule insert_userD(1)) simp

lemma update_users_resets: "update_users p f db = Inr db' \<Longrightarrow> db_resets db' = db_resets db"
  by (drule update_usersE(1)) simp

lemma add_roles_resets: "add_user_roles f u rs db = Inr db' \<Longrightarrow> db_resets db' = db_resets db"
  by (auto simp: add_user_roles_def split: if_splits option.splits)

lemma remove_roles_resets: "remove_user_roles f u rs db = Inr db' \<Longrightarrow> db_resets db' = db_resets db"
  by (auto simp: remove_user_roles_def split: if_splits option.splits)

lemma users_create_resets: "users_create f g i nu db = Inr (u, db') \<Longrightarrow> db_resets db' = db_resets db"
  by (auto simp: users_create_def bind_ok_def dest!: insert_user_resets add_roles_resets split: sum.splits option.splits)

lemma partial_update_resets: "users_partial_update f u up db = Inr db' \<Longrightarrow> db_resets db' = db_resets db"
  by (auto simp: users_partial_update_def dest: update_users_resets split: if_splits option.splits)

lemma users_delete_resets: "users_delete f u db = Inr db' \<Longrightarrow> db_resets db' = db_resets db"
  by (auto simp: users_delete_def dest: update_users_resets split: option.splits)

lemmas user_tables_resets = users_create_resets partial_update_resets users_delete_resets add_roles_resets remove_roles_resets

lemma user_service_resets:
  "db_resets (snd (user_create lib salt fault i nu db)) = db_resets db"
  "db_resets (snd (user_partial_update lib salt fault u f db)) = db_resets db"
  "db_resets (snd (user_delete fault u db)) = db_resets db"
  by (auto simp: user_create_def user_partial_update_def user_delete_def keep_tables_def bind_ok_def
      dest!: user_tables_resets split: sum.splits prod.splits option.splits)

lemma iam_handler_keeps [keeps_intros]: "keeps world_ok (iam_handler print svc rq u c)"
  by (cases c) (auto intro!: keeps_intros user_service_ok user_service_resets)

lemma iam_routes_keeps: "keeps world_ok (iam_routes print svc super rq h c)"
  unfolding iam_routes_def by (intro keeps_intros)

lemma auth_http_keeps: "keeps world_ok (auth_http print url svc rq c)"
  by (cases c) (auto intro!: keeps_intros auth_keeps)

lemma auth_rpc_keeps: "keeps world_ok (auth_rpc svc super rq c user)"
proof (cases c)
  case Rpc_get_current_user
  then show ?thesis by (cases user) (simp_all add: keeps_def)
qed (auto intro!: keeps_intros auth_keeps)

lemma guard_call_keeps: "(\<And>u. keeps P (inner u)) \<Longrightarrow> keeps P (guard_call svc super rq path h inner)"
  unfolding guard_call_def by (cases "access_for path") (auto intro!: keeps_intros)

lemma serve_ok: "world_ok w \<Longrightarrow> world_ok (serve sv rq header c w)"
  by (cases c) (auto intro!: keepsD guard_call_keeps auth_rpc_keeps auth_http_keeps iam_routes_keeps serve_schema_rpc_keeps
      schema_routes_keeps)

lemma system_reachable_ok: "system_reachable sv w \<Longrightarrow> world_ok w"
  by (induction rule: system_reachable.induct) (auto intro: initial_ok serve_ok)

section \<open>What user management allows\<close>

text \<open>Without an identity nothing is answered and nothing changes.\<close>

lemma iam_needs_identity:
  assumes "fst (authenticate svc rq header w) = Inl e"
  shows "iam_routes print svc super rq header c w = (Inl e, w)"
proof -
  have "authenticate svc rq header w = (Inl e, w)"
    using assms authenticate_reads [of svc rq header w] by (cases "authenticate svc rq header w") auto
  then show ?thesis by (simp add: iam_routes_def)
qed

lemma iam_list_needs_permission:
  assumes "iam_routes print svc super rq header (Users_index request) w = (Inr a, w')"
  shows "w' = w \<and> (\<exists>user. authenticate svc rq header w = (Inr user, w) \<and> can (engine_of super rq w) (idn_id user) ''Users.View All'')"
proof -
  obtain user w1 where a: "authenticate svc rq header w = (Inr user, w1)"
      and rest: "and_then (rbac_guard super rq ''Users.View All'' user) (\<lambda>_. iam_handler print svc rq user (Users_index request)) w1 = (Inr a, w')"
    using assms by (auto simp: iam_routes_def and_then_Inr)
  have "w1 = w" using authenticate_reads [of svc rq header w] a by simp
  with a rest show ?thesis
    by (auto simp: and_then_Inr rbac_guard_def of_tables_def act_Inr split: if_splits)
qed

text \<open>A person's own edit reaches the picture, the names and the department, and nothing else.\<close>

lemma restricted_row:
  "us_email (apply_update (restricted_to_self f) r) = us_email r"
  "us_password (apply_update (restricted_to_self f) r) = us_password r"
  "us_status_id (apply_update (restricted_to_self f) r) = us_status_id r"
  "us_user_name (apply_update (restricted_to_self f) r) = us_user_name r"
  by (simp_all add: apply_update_def restricted_to_self_def update_user_default_def)

lemma restricted_fields:
  "up_password (restricted_to_self f) = None" "up_add_roles (restricted_to_self f) = None"
  "up_remove_roles (restricted_to_self f) = None"
  by (simp_all add: restricted_to_self_def update_user_default_def)

lemma own_update_effects:
  assumes "user_partial_update lib salt fault u (restricted_to_self f) db = (r, db')"
  shows "db' = db \<or> db' = db\<lparr>db_users := map (\<lambda>r. if us_id r = u then apply_update (restricted_to_self f) r else r) (db_users db)\<rparr>"
proof -
  have "db' = db \<or> users_partial_update (fault 3) u (restricted_to_self f) db = Inr db'"
    using assms
    by (auto simp: user_partial_update_def keep_tables_def bind_ok_def checked_password_def restricted_fields split: sum.splits)
  then show ?thesis
    by (auto simp: users_partial_update_def split: if_splits option.splits dest: update_usersE(1))
qed

lemma own_update_safe:
  assumes "user_partial_update lib salt fault u (restricted_to_self f) db = (r, db')"
  shows "same_access db db' \<and> map us_status_id (db_users db') = map us_status_id (db_users db) \<and>
    filter (\<lambda>r. us_id r \<noteq> u) (db_users db') = filter (\<lambda>r. us_id r \<noteq> u) (db_users db)"
proof -
  let ?g = "\<lambda>r. if us_id r = u then apply_update (restricted_to_self f) r else r"
  have g: "us_id (?g r) = us_id r" "us_email (?g r) = us_email r" "us_password (?g r) = us_password r"
      "us_status_id (?g r) = us_status_id r" for r
    by (simp_all add: restricted_row apply_update_id)
  have "filter (\<lambda>r. us_id r \<noteq> u) (map ?g rs) = filter (\<lambda>r. us_id r \<noteq> u) rs" for rs
    by (induction rs) (simp_all add: apply_update_id)
  moreover have "same_access db db" by (auto simp: same_access_def)
  ultimately show ?thesis
    using own_update_effects [OF assms] map_same_access [of ?g db, OF g(1-3)] g(4) by (auto simp: comp_def)
qed

lemma patch_my_user_safe:
  assumes "iam_routes print svc super rq header (Patch_my_user f) w = (Inr a, w')"
  obtains user where "authenticate svc rq header w = (Inr user, w)" and "same_access (w_iam w) (w_iam w')"
    and "map us_status_id (db_users (w_iam w')) = map us_status_id (db_users (w_iam w))"
    and "filter (\<lambda>r. us_id r \<noteq> idn_id user) (db_users (w_iam w')) = filter (\<lambda>r. us_id r \<noteq> idn_id user) (db_users (w_iam w))"
proof -
  obtain user w1 where a: "authenticate svc rq header w = (Inr user, w1)"
      and up: "on_tables (user_partial_update (as_crypto svc) (rq_salt rq) (rq_faults rq 4) (idn_id user) (restricted_to_self f)) w1 = (Inr (), w')"
    using assms by (auto simp: iam_routes_def act_inv)
  have "w1 = w" using authenticate_reads [of svc rq header w] a by simp
  obtain r db' where u: "user_partial_update (as_crypto svc) (rq_salt rq) (rq_faults rq 4) (idn_id user) (restricted_to_self f) (w_iam w) = (r, db')"
    by fastforce
  with up \<open>w1 = w\<close> have "w_iam w' = db'" by (auto simp: on_tables_def)
  with own_update_safe [OF u] a \<open>w1 = w\<close> show thesis by (intro that [of user]) simp_all
qed

text \<open>The route of another user's record has no guard, and its payload adds roles.\<close>

lemma patch_user_grants:
  assumes id: "authenticate svc rq header w = (Inr user, w)"
    and row: "List.find (\<lambda>r. us_id r = idn_id user) (db_users (w_iam w)) = Some r" "map_user (w_iam w) r \<noteq> None"
    and role: "(i, super) \<in> set (db_roles (w_iam w))" and calm: "db_calm (rq_faults rq 4)"
  obtains w' where "iam_routes print svc super rq header (Patch_user (idn_id user) (update_user_default\<lparr>up_add_roles := Some [super]\<rparr>)) w =
      (Inr (Done ''successfully update user''), w')"
    and "super \<in> set (role_names (w_iam w') (idn_id user))"
proof -
  let ?u = "idn_id user" and ?db = "w_iam w"
  let ?f = "update_user_default\<lparr>up_add_roles := Some [super]\<rparr>"
  let ?db' = "?db\<lparr>db_user_roles := db_user_roles ?db @ filter (\<lambda>pair. pair \<notin> set (db_user_roles ?db)) (role_pairs ?db ?u [super])\<rparr>"
  obtain m where m: "map_user ?db r = Some m" using row(2) by blast
  have "require_user (rq_faults rq 4) ?u ?db = Inr (m\<lparr>iu_roles := user_roles_of ?db (iu_id m)\<rparr>)"
    using calm row m by (simp add: require_user_def users_find_by_id_def users_find_def hydrate_def map_err_def)
  then have "user_partial_update (as_crypto svc) (rq_salt rq) (rq_faults rq 4) ?u ?f ?db = (Inr (), ?db')"
    using calm
    by (simp add: user_partial_update_def checked_password_def update_user_default_def tx_statement_def users_partial_update_def
        has_no_column_changes_def add_user_roles_def keep_tables_def map_err_def)
  then have "iam_routes print svc super rq header (Patch_user ?u ?f) w = (Inr (Done ''successfully update user''), w\<lparr>w_iam := ?db'\<rparr>)"
    using id by (simp add: iam_routes_def on_tables_def and_then_def)
  moreover have "(?u, i) \<in> set (db_user_roles ?db')" using role by (force simp: role_pairs_def)
  then have "super \<in> set (role_names ?db' ?u)" using role by (force simp: role_names_def)
  ultimately show thesis using that by simp
qed

lemma super_role_can: "super \<in> set (role_names (w_iam w) u) \<Longrightarrow> rq_faults rq 1 0 = None \<Longrightarrow> can (engine_of super rq w) u action"
  by (simp add: can_def role_bypass_def engine_of_def pg_rbac_store_def get_roles_def)

text \<open>Deleting a user changes the status only, which no sign in looks at.\<close>

lemma delete_effects:
  assumes "user_delete fault u db = (Inr x, db')"
  shows "db' = db\<lparr>db_users := map (\<lambda>r. if us_id r = u then r\<lparr>us_status_id := DELETED_USER_STATUS\<rparr> else r) (db_users db)\<rparr>"
proof -
  have "users_delete (fault 3) u db = Inr db'"
    using assms by (auto simp: user_delete_def keep_tables_def bind_ok_def split: sum.splits)
  then show ?thesis by (auto simp: users_delete_def split: option.splits dest: update_usersE(1))
qed

lemma deleted_user_login:
  assumes del: "user_delete fault u (w_iam w) = (Inr x, db')" and ok: "iam_ok (w_iam w)" and calm: "db_calm (rq_faults rq 0)"
  shows "fst (generate_token svc rq email password (w\<lparr>w_iam := db'\<rparr>)) = fst (generate_token svc rq email password w)"
proof -
  let ?g = "\<lambda>r. if us_id r = u then r\<lparr>us_status_id := DELETED_USER_STATUS\<rparr> else r"
  have db': "db' = (w_iam w)\<lparr>db_users := map ?g (db_users (w_iam w))\<rparr>" by (rule delete_effects [OF del])
  have "iam_ok db'" using user_service_ok(3) [OF ok, of fault u] del by simp
  moreover have "opens svc email password (?g r) = opens svc email password r" for r by (simp add: opens_def)
  then have "List.find (opens svc email password) (db_users db') =
      map_option ?g (List.find (opens svc email password) (db_users (w_iam w)))"
    by (simp add: db' find_map comp_def)
  moreover have "identity_of db' (?g r) = identity_of (w_iam w) r" for r
    by (simp add: identity_of_def role_names_def db')
  ultimately show ?thesis
    using ok calm by (simp add: login_decides option.map_comp split: option.split)
qed

end
