(* ===== verification/Isolation.thy ===== *)
theory Isolation
  imports System
begin

text \<open>
  Who can change whose schemas, over every call of both ports: only the person the call's token
  names, and a sign-up, which gives its new account a first schema.
\<close>

section \<open>Calls that leave the schemas alone\<close>

lemma schemas_store_write [keeps_intros]: "keeps (\<lambda>w. w_schemas w = st) (store_write f)"
  by (rule keeps_store_write) simp

lemma schemas_send_html [keeps_intros]: "keeps (\<lambda>w. w_schemas w = st) (send_html fault m)"
  by (simp add: keeps_def send_html_def split: option.split)

lemma schemas_on_tables [keeps_intros]: "keeps (\<lambda>w. w_schemas w = st) (on_tables f)"
  by (simp add: keeps_def on_tables_def split_beta)

lemma require_user_reads [keeps_intros]: "keeps P (require_user_by_id f u)"
  unfolding require_user_by_id_def by (intro keeps_intros)

lemma auth_leaves_schemas [keeps_intros]:
  "keeps (\<lambda>w. w_schemas w = st) (generate_token svc rq e p)" "keeps (\<lambda>w. w_schemas w = st) (refresh_token svc rq t)"
  "keeps (\<lambda>w. w_schemas w = st) (password_recovery svc rq e uri)" "keeps (\<lambda>w. w_schemas w = st) (reset_password svc rq t p)"
  unfolding generate_token_def refresh_token_def password_recovery_def reset_password_def Let_def
  by (intro keeps_intros)+

lemma iam_leaves_schemas: "keeps (\<lambda>w. w_schemas w = st) (iam_routes print svc super rq h c)"
  unfolding iam_routes_def by (cases c) (auto intro!: keeps_intros)

lemma auth_http_leaves_schemas: "keeps (\<lambda>w. w_schemas w = st) (auth_http print url svc rq c)"
  by (cases c) (auto intro!: keeps_intros)

section \<open>Signing up\<close>

text \<open>The calls draw the id \<open>i\<close> for a new account; \<open>taken\<close> says that an account already has it.\<close>

definition others_kept :: "store_env \<Rightarrow> uuid \<Rightarrow> bool \<Rightarrow> (uuid \<Rightarrow> uuid \<Rightarrow> schema option) \<Rightarrow> world \<Rightarrow> bool" where
  "others_kept env i taken h w \<longleftrightarrow> store_ok (w_schemas w) \<and> (taken \<longrightarrow> i \<in> us_id ` set (db_users (w_iam w))) \<and>
     (\<forall>p. p \<noteq> i \<or> taken \<longrightarrow> pg_view env (w_schemas w) p = h p)"

lemma seed_others: "\<not> taken \<Longrightarrow> keeps (others_kept (as_env svc) i taken h) (seed svc rq i)"
  using live.write_ok [of _ _ _ _ _ "Create_schema i sample_schema"] live.write_isolated [of _ _ "Create_schema i sample_schema"]
  by (simp add: keeps_def others_kept_def seed_def split_beta)

lemma create_user_others:
  assumes "\<And>e. keeps (others_kept env i taken h) (f (Inl e))" and "\<not> taken \<Longrightarrow> keeps (others_kept env i taken h) (f (Inr i))"
  shows "keeps (others_kept env i taken h) (and_then (store_write (create_user fault i nu)) f)"
  unfolding keeps_def
proof (intro allI impI)
  fix w assume w: "others_kept env i taken h w"
  show "others_kept env i taken h (snd (and_then (store_write (create_user fault i nu)) f w))"
  proof (cases "create_user fault i nu (w_iam w)")
    case (Pair r db)
    show ?thesis
    proof (cases r)
      case (Inl e)
      then have "db = w_iam w" using Pair create_user_error by blast
      then show ?thesis using Pair Inl w assms(1) [of e] by (simp add: and_then_def store_write_def keeps_def)
    next
      case (Inr u)
      then have u: "u = i" "i \<notin> us_id ` set (db_users (w_iam w))"
        using Pair by (auto simp: create_user_def split: option.splits list.splits sum.splits dest!: insert_userD(2))
      then have "\<not> taken" using w by (auto simp: others_kept_def)
      moreover have "others_kept env i taken h (w\<lparr>w_iam := db\<rparr>)" using w \<open>\<not> taken\<close> by (simp add: others_kept_def)
      ultimately show ?thesis using Pair Inr u assms(2) by (simp add: and_then_def store_write_def keeps_def)
    qed
  qed
qed

lemma profile_others [keeps_intros]: "keeps (others_kept env i taken h) (follow_google_profile f u a)"
proof -
  have "map us_id (db_users (snd (update_profile f v g l av db))) = map us_id (db_users db)" for v g l av db
    by (auto simp: update_profile_def split: option.split sum.split dest!: update_usersE(1))
  then have ids: "us_id ` set (db_users (snd (update_profile f v g l av db))) = us_id ` set (db_users db)" for v g l av db
    by (metis list.set_map)
  show ?thesis
    unfolding follow_google_profile_def Let_def
    by (intro keeps_intros keeps_store_write) (simp add: others_kept_def ids)
qed

lemma seeded_others:
  assumes "\<And>u. keeps (others_kept (as_env svc) i taken h) (g u)"
  shows "\<not> taken \<Longrightarrow> keeps (others_kept (as_env svc) i taken h) (and_then (seed svc rq i) g)"
  using assms by (intro keeps_and_then seed_others)

lemma register_others: "keeps (others_kept (as_env svc) (rq_user_id rq) taken h) (register svc rq reg)"
proof -
  have tail: "keeps (others_kept (as_env svc) (rq_user_id rq) taken h)
      (and_then (store_write (create_user (rq_faults rq 1) (rq_user_id rq) nu)) (\<lambda>created.
         and_then (lift_result (map_err creation_error created)) (\<lambda>user_id.
         and_then (seed svc rq user_id) (\<lambda>_.
         and_then (require_user_by_id (rq_faults rq 2) user_id) (\<lambda>user. lift_result (generate_tokens svc rq user))))))" for nu
  proof (rule create_user_others)
    show "keeps (others_kept (as_env svc) (rq_user_id rq) taken h)
      (and_then (lift_result (map_err creation_error (Inl e))) (\<lambda>user_id.
         and_then (seed svc rq user_id) (\<lambda>_.
         and_then (require_user_by_id (rq_faults rq 2) user_id) (\<lambda>user. lift_result (generate_tokens svc rq user)))))" for e
      by (simp add: keeps_def map_err_def)
    assume "\<not> taken"
    have run: "and_then (lift_result (map_err creation_error (Inr i))) f = f i" for i and f :: "uuid \<Rightarrow> tokens act"
      by (intro ext) (simp add: map_err_def)
    show "keeps (others_kept (as_env svc) (rq_user_id rq) taken h)
      (and_then (lift_result (map_err creation_error (Inr (rq_user_id rq)))) (\<lambda>user_id.
         and_then (seed svc rq user_id) (\<lambda>_.
         and_then (require_user_by_id (rq_faults rq 2) user_id) (\<lambda>user. lift_result (generate_tokens svc rq user)))))"
      unfolding run by (rule seeded_others [OF _ \<open>\<not> taken\<close>]) (intro keeps_intros)
  qed
  show ?thesis
    unfolding register_def Let_def
    by (intro tail keeps_and_then [where m = "lift_result r" for r] keeps_and_then [where m = "or_unknown m" for m]
        keeps_or_unknown keeps_cases keeps_pure)
qed

lemma google_user_others: "keeps (others_kept (as_env svc) (rq_user_id rq) taken h) (create_google_user svc rq email account)"
  unfolding create_google_user_def Let_def
  by (rule keeps_cases(3), rule create_user_others, unfold sum.case, intro keeps_intros, rule seeded_others, intro keeps_intros)

lemma google_others: "keeps (others_kept (as_env svc) (rq_user_id rq) taken h) (login_with_google svc rq code)"
  unfolding login_with_google_def Let_def by (intro keeps_intros google_user_others)

section \<open>Every call\<close>

definition signs_up :: "call \<Rightarrow> bool" where
  "signs_up c \<longleftrightarrow> (\<exists>reg. c = Auth_rpc_call (Rpc_register reg)) \<or> (\<exists>code. c = Auth_rpc_call (Rpc_login_with_google code))"

lemma sign_up_isolated:
  assumes "world_ok w" and "signs_up c" and "p \<noteq> rq_user_id rq \<or> p \<in> us_id ` set (db_users (w_iam w))"
  shows "pg_view (as_env (sv_auth sv)) (w_schemas (serve sv rq header c w)) p = pg_view (as_env (sv_auth sv)) (w_schemas w) p"
proof -
  let ?svc = "sv_auth sv"
  let ?P = "others_kept (as_env ?svc) (rq_user_id rq) (rq_user_id rq \<in> us_id ` set (db_users (w_iam w))) (pg_view (as_env ?svc) (w_schemas w))"
  obtain r where c: "c = Auth_rpc_call r" using assms(2) by (auto simp: signs_up_def)
  have "keeps ?P (auth_rpc ?svc (sv_super_role sv) rq r caller)" for caller
  proof (cases r)
    case (Rpc_register reg)
    show ?thesis unfolding Rpc_register auth_rpc.simps auth_rpc_handlers by (intro keeps_and_then register_others keeps_pure)
  next
    case (Rpc_login_with_google code)
    show ?thesis unfolding Rpc_login_with_google auth_rpc.simps auth_rpc_handlers by (intro keeps_and_then google_others keeps_pure)
  qed (use assms(2) c in \<open>simp_all add: signs_up_def\<close>)
  moreover have "?P w" using assms(1) by (simp add: others_kept_def world_ok_def)
  ultimately have "?P (serve sv rq header c w)" unfolding c serve.simps by (rule keepsD [OF guard_call_keeps])
  then show ?thesis using assms(3) unfolding others_kept_def by metis
qed

lemma quiet_call:
  assumes "\<not> signs_up c" and "\<And>r. c \<noteq> Schema_rpc_call r" and "\<And>r. c \<noteq> Schema_http_call r"
  shows "w_schemas (serve sv rq header c w) = w_schemas w"
proof (cases c)
  case (Auth_rpc_call r)
  have "keeps (\<lambda>w'. w_schemas w' = w_schemas w) (auth_rpc (sv_auth sv) (sv_super_role sv) rq r caller)" for caller
  proof (cases r)
    case Rpc_get_current_user
    then show ?thesis by (cases caller) (simp_all add: keeps_def)
  qed (use assms(1) Auth_rpc_call in \<open>auto simp: signs_up_def intro!: keeps_intros\<close>)
  then show ?thesis unfolding Auth_rpc_call serve.simps by (rule keepsD [OF guard_call_keeps]) simp
next
  case (Auth_http_call r)
  then show ?thesis using keepsD [OF auth_http_leaves_schemas [of "w_schemas w"], of w] by simp
next
  case (Iam_http_call r)
  then show ?thesis using keepsD [OF iam_leaves_schemas [of "w_schemas w"], of w] by simp
qed (use assms in auto)

lemma schema_call_isolated:
  assumes "world_ok w" and "(\<exists>r. c = Schema_rpc_call r) \<or> (\<exists>r. c = Schema_http_call r)"
    and "\<And>user. fst (identify (sv_auth sv) rq header w) = Inr user \<Longrightarrow> idn_id user \<noteq> p"
  shows "pg_view (as_env (sv_auth sv)) (w_schemas (serve sv rq header c w)) p = pg_view (as_env (sv_auth sv)) (w_schemas w) p"
proof -
  have "serve sv rq header c w = w \<or> (\<exists>user wr. fst (identify (sv_auth sv) rq header w) = Inr user \<and> writer wr = idn_id user \<and>
      serve sv rq header c w = w\<lparr>w_schemas := apply_write (schemas_of (sv_auth sv) rq) wr (w_schemas w)\<rparr>)"
    using assms(2)
  proof (elim disjE exE)
    fix r assume "c = Schema_rpc_call r"
    then show ?thesis using serve_schema_rpc_cases [of "sv_lib sv" "sv_auth sv" "sv_super_role sv" rq header r w] by auto
  next
    fix r assume "c = Schema_http_call r"
    then show ?thesis using schema_routes_cases [of "sv_lib sv" "sv_auth sv" rq header r w] unfolding authenticate_identify by auto
  qed
  then show ?thesis
  proof (elim disjE exE conjE)
    fix user wr
    assume "fst (identify (sv_auth sv) rq header w) = Inr user" "writer wr = idn_id user"
      and w': "serve sv rq header c w = w\<lparr>w_schemas := apply_write (schemas_of (sv_auth sv) rq) wr (w_schemas w)\<rparr>"
    then have "p \<noteq> writer wr" using assms(3) by simp
    then show ?thesis unfolding w' schemas_of_def using live.write_isolated [of "w_schemas w"] assms(1) by (simp add: world_ok_def)
  qed simp
qed

text \<open>The three kinds of call together.\<close>

lemma serve_isolated:
  assumes "world_ok w"
    and "pg_view (as_env (sv_auth sv)) (w_schemas (serve sv rq header c w)) p \<noteq> pg_view (as_env (sv_auth sv)) (w_schemas w) p"
  shows "(\<exists>user. fst (identify (sv_auth sv) rq header w) = Inr user \<and> idn_id user = p) \<or>
    signs_up c \<and> p = rq_user_id rq \<and> p \<notin> us_id ` set (db_users (w_iam w))"
proof (cases "(\<exists>r. c = Schema_rpc_call r) \<or> (\<exists>r. c = Schema_http_call r)")
  case True
  then show ?thesis using schema_call_isolated [OF assms(1)] assms(2) by blast
next
  case False
  then have "signs_up c" using quiet_call [of c sv rq header w] assms(2) by auto
  then show ?thesis using sign_up_isolated [OF assms(1)] assms(2) by blast
qed

end
