(* ===== verification/Schema_Spec.thy ===== *)
theory Schema_Spec
  imports Schema_Service
begin

text \<open>
  What the schema service promises of its store, as an abstract machine: every user has a map from
  ids to schemas, and a request changes at most one entry of the caller's map. The service over the
  Postgres repository refines it, whichever statements fail.
\<close>

section \<open>The store as the service promises it\<close>

text \<open>Every row reads back as a schema.\<close>

definition rows_decode :: "store_env \<Rightarrow> store \<Rightarrow> bool" where
  "rows_decode env st = list_all (\<lambda>row. \<not> isl (map_schema env row)) (schema_rows st)"

lemma write_decodes:
  assumes "rows_decode env st"
  shows "rows_decode env (apply_write (services env outages new_id now) w st)"
proof -
  have create: "rows_decode env (snd (pg_create env (outages 0) new_id now u d st))" for u d
  proof (cases "pg_create env (outages 0) new_id now u d st")
    case (Pair r st')
    then show ?thesis using assms pg_create_error [of env "outages 0" new_id now u d st]
      by (cases r) (auto simp: rows_decode_def elim!: pg_createE)
  qed
  have replace: "rows_decode env (snd (pg_replace env (outages 0) now u i d st))" for u i d
  proof (cases "pg_replace env (outages 0) now u i d st")
    case (Pair r st')
    then show ?thesis using assms pg_replace_error [of env "outages 0" now u i d st]
      by (cases r) (auto simp: rows_decode_def list_all_iff elim!: pg_replaceE)
  qed
  have delete: "rows_decode env (snd (pg_delete env (outages 0) u i st))" for u i
  proof (cases "pg_delete env (outages 0) u i st")
    case (Pair r st')
    then show ?thesis using assms pg_delete_error [of env "outages 0" u i st]
      by (cases r) (auto simp: rows_decode_def list_all_iff elim!: pg_deleteE)
  qed
  show ?thesis using assms create replace delete
    by (cases w) (auto simp: service_create_def service_replace_def service_delete_def split: sum.split)
qed

lemma empty_decodes: "rows_decode env empty_store"
  by (simp add: rows_decode_def empty_store_def)

lemma reachable_decodes: "reachable env st \<Longrightarrow> rows_decode env st"
  by (induction rule: reachable.induct) (auto intro: write_decodes empty_decodes)

text \<open>
  The abstract store gives every user a map from ids to schemas. A request is refused and changes
  nothing, or changes the caller's map at one id.
\<close>

type_synonym holdings = "uuid \<Rightarrow> uuid \<rightharpoonup> schema"

definition name_held :: "(uuid \<rightharpoonup> schema) \<Rightarrow> string \<Rightarrow> uuid option \<Rightarrow> bool" where
  "name_held h name except \<longleftrightarrow> (\<exists>k s. h k = Some s \<and> Some k \<noteq> except \<and> to_lowercase (sch_name s) = to_lowercase name)"

inductive spec_write :: "store_env \<Rightarrow> uuid \<Rightarrow> timestamp \<Rightarrow> service_write \<Rightarrow> holdings \<Rightarrow> holdings \<Rightarrow> bool" for env new_id now where
  refused: "spec_write env new_id now w m m"
| created: "check_draft d = Inr () \<Longrightarrow> \<forall>p. m p new_id = None \<Longrightarrow> \<not> name_held (m u) (draft_name d) None \<Longrightarrow>
    spec_write env new_id now (Create_schema u d) m (m(u := (m u)(new_id \<mapsto> schema_new (show_uuid env new_id) d now)))"
| replaced: "check_draft d = Inr () \<Longrightarrow> parse_uuid env i = Some k \<Longrightarrow> m u k = Some s \<Longrightarrow> \<not> name_held (m u) (draft_name d) (Some k) \<Longrightarrow>
    spec_write env new_id now (Replace_schema u i d) m (m(u := (m u)(k \<mapsto> (schema_new (sch_id s) d (created_at s))\<lparr>updated_at := now\<rparr>)))"
| deleted: "parse_uuid env i = Some k \<Longrightarrow> m u k = Some s \<Longrightarrow>
    spec_write env new_id now (Delete_schema u i) m (m(u := (m u)(k := None)))"

inductive spec_reachable :: "store_env \<Rightarrow> holdings \<Rightarrow> bool" for env where
  spec_start: "spec_reachable env (\<lambda>_ _. None)"
| spec_step: "spec_reachable env m \<Longrightarrow> spec_write env new_id now w m m' \<Longrightarrow> spec_reachable env m'"

lemma map_schema_fields:
  "map_schema env row = Inr s \<Longrightarrow> sch_name s = row_name row \<and> sch_id s = show_uuid env (row_id row) \<and> created_at s = row_created_at row"
  by (auto simp: map_schema_def split: sum.splits if_splits)

lemma view_row:
  assumes "store_ok st" and "rows_decode env st" and "row \<in> set (owned_rows st u)"
  obtains s where "pg_view env st u (row_id row) = Some s" and "map_schema env row = Inr s"
proof -
  have row: "row \<in> set (schema_rows st)" "owns st u (row_id row)" using assms(3) by (simp_all add: owned_rows_set)
  obtain s where s: "map_schema env row = Inr s"
    using assms(2) row(1) by (auto simp: rows_decode_def list_all_iff isl_def) (metis sum.exhaust)
  have "List.find (\<lambda>r. row_id r = row_id row) (schema_rows st) = Some row"
    using row(1) row_unique [OF assms(1)] 
    by (cases "List.find (\<lambda>r. row_id r = row_id row) (schema_rows st)") (auto simp: find_None_iff dest!: find_Some)
  with row s show thesis by (intro that [of s]) (simp_all add: pg_view_eq)
qed

lemma row_of_view:
  assumes "pg_view env st u k = Some s"
  obtains row where "row \<in> set (owned_rows st u)" "row_id row = k" "map_schema env row = Inr s"
  using assms by (auto simp: pg_view_eq owned_rows_set split: if_splits option.splits sum.splits dest!: find_Some intro!: that)

lemma name_held_iff:
  assumes "store_ok st" and "rows_decode env st"
  shows "name_held (pg_view env st u) name except \<longleftrightarrow> name_taken st u name except"
proof
  assume "name_held (pg_view env st u) name except"
  then show "name_taken st u name except"
    by (force simp: name_held_def name_taken_def list_ex_iff elim!: row_of_view dest: map_schema_fields split: option.splits)
next
  assume "name_taken st u name except"
  then obtain row where "row \<in> set (owned_rows st u)" "Some (row_id row) \<noteq> except" "to_lowercase (row_name row) = to_lowercase name"
    by (auto simp: name_taken_def list_ex_iff split: option.splits)
  then show "name_held (pg_view env st u) name except"
    using view_row [OF assms] map_schema_fields unfolding name_held_def by metis
qed

lemma create_refines:
  assumes "store_ok st" "rows_decode env st"
  shows "spec_write env new_id now (Create_schema u d) (pg_view env st)
    (pg_view env (snd (service_create (services env outages new_id now) u d st)))"
proof (cases "service_create (services env outages new_id now) u d st")
  case (Pair r st')
  show ?thesis
  proof (cases r)
    case (Inl e)
    then show ?thesis using live.create_refused [of env outages new_id now u d st e st'] Pair by (simp add: refused)
  next
    case (Inr s)
    then have ok: "check_draft d = Inr ()" and pg: "pg_create env (outages 0) new_id now u d st = (Inr s, st')"
      using Pair by (auto simp: service_create_def split: sum.splits)
    have "\<not> name_taken st u (draft_name d) None" "s = schema_new (show_uuid env new_id) d now"
      using pg by (auto elim: pg_createE)
    then show ?thesis
      using Pair pg_view_create [OF assms(1) pg] created [OF ok, of "pg_view env st" new_id u env now] name_held_iff [OF assms]
      by simp
  qed
qed

lemma replace_refines:
  assumes "store_ok st" "rows_decode env st"
  shows "spec_write env new_id now (Replace_schema u i d) (pg_view env st)
    (pg_view env (snd (service_replace (services env outages new_id now) u i d st)))"
proof (cases "service_replace (services env outages new_id now) u i d st")
  case (Pair r st')
  show ?thesis
  proof (cases r)
    case (Inl e)
    then show ?thesis using live.replace_refused [of env outages new_id now u i d st e st'] Pair by (simp add: refused)
  next
    case (Inr s)
    then have ok: "check_draft d = Inr ()" and pg: "pg_replace env (outages 0) now u i d st = (Inr s, st')"
      using Pair by (auto simp: service_replace_def split: sum.splits)
    obtain k row row' where k: "parse_uuid env i = Some k" "\<not> name_taken st u (draft_name d) (Some k)"
        "List.find (\<lambda>r. row_id r = k) (owned_rows st u) = Some row" "row_id row' = row_id row" "map_schema env row' = Inr s"
        "draft s = d" "created_at s = row_created_at row" "updated_at s = now"
      using pg by (rule pg_replaceE)
    have row: "row \<in> set (owned_rows st u)" "row_id row = k" using find_Some [OF k(3)] by simp_all
    obtain s0 where s0: "pg_view env st u k = Some s0" "map_schema env row = Inr s0"
      using view_row [OF assms row(1)] row(2) by blast
    have "s = (schema_new (sch_id s0) d (created_at s0))\<lparr>updated_at := now\<rparr>"
      using k(4-8) map_schema_fields [OF s0(2)] map_schema_fields [OF k(5)] by (cases s) (auto simp: schema_new_def draft_def)
    then show ?thesis
      using Pair pg_view_replace [OF assms(1) pg] replaced [of d env i k "pg_view env st" u s0 new_id now, OF ok k(1) s0(1)] name_held_iff [OF assms] k(1,2)
      by auto
  qed
qed

lemma delete_refines:
  assumes "store_ok st" "rows_decode env st"
  shows "spec_write env new_id now (Delete_schema u i) (pg_view env st)
    (pg_view env (snd (service_delete (services env outages new_id now) u i st)))"
proof (cases "service_delete (services env outages new_id now) u i st")
  case (Pair r st')
  show ?thesis
  proof (cases r)
    case (Inl e)
    then show ?thesis using live.delete_refused [of env outages new_id now u i st e st'] Pair by (simp add: refused)
  next
    case (Inr x)
    then have pg: "pg_delete env (outages 0) u i st = (Inr x, st')"
      using Pair by (cases "pg_delete env (outages 0) u i st"; cases "fst (pg_delete env (outages 0) u i st)") (auto simp: service_delete_def)
    obtain k where k: "parse_uuid env i = Some k" "list_ex (\<lambda>row. row_id row = k) (owned_rows st u)"
      using pg by (rule pg_deleteE)
    then obtain row where "row \<in> set (owned_rows st u)" "row_id row = k" by (auto simp: list_ex_iff)
    then obtain s0 where "pg_view env st u k = Some s0" using view_row [OF assms] by metis
    then show ?thesis
      using Pair pg_view_delete [OF assms(1) pg] deleted [OF k(1)] k(1) by auto
  qed
qed

lemma write_refines:
  assumes "store_ok st" "rows_decode env st"
  shows "spec_write env new_id now w (pg_view env st) (pg_view env (apply_write (services env outages new_id now) w st))"
  by (cases w) (simp_all add: create_refines [OF assms] replace_refines [OF assms] delete_refines [OF assms])

lemma view_empty: "pg_view env empty_store = (\<lambda>_ _. None)"
  by (intro ext) (simp add: pg_view_eq empty_store_def owns_def)

lemma reachable_refines: "reachable env st \<Longrightarrow> spec_reachable env (pg_view env st)"
proof (induction rule: reachable.induct)
  case reachable_init
  show ?case unfolding view_empty by (rule spec_start)
next
  case (reachable_write st outages new_id now w)
  show ?case
    by (rule spec_step [OF reachable_write.IH write_refines])
      (rule reachable_ok [OF reachable_write.hyps] reachable_decodes [OF reachable_write.hyps])+
qed

end
