(* ===== verification/Config.thy ===== *)
theory Config
  imports Exchange_Json Pagination
begin

text \<open>
  The settings of the server, \<^verbatim>\<open>package/env.rs\<close> and \<^verbatim>\<open>config\<close>: reading the environment, where a blank
  value counts as unset and an unreadable one is an error rather than a default, and the address of
  the database. An environment is a map; a variable that is not Unicode is not in it.
\<close>

section \<open>Reading the environment (env.rs)\<close>

type_synonym environment_vars = "string \<rightharpoonup> string"

datatype env_error = Missing_var string | Invalid_var string string

fun env_error_fmt :: "env_error \<Rightarrow> string" where
  "env_error_fmt (Missing_var key) = ''environment variable `'' @ key @ ''` is required''"
| "env_error_fmt (Invalid_var key value) = ''environment variable `'' @ key @ ''` has an invalid value: '' @ value"

definition env_string :: "environment_vars \<Rightarrow> string \<Rightarrow> string option" where
  "env_string vars key =
     (case vars key of
        Some value \<Rightarrow> (if trim value \<noteq> '''' then Some (trim value) else None)
      | None \<Rightarrow> None)"

definition env_string_or :: "environment_vars \<Rightarrow> string \<Rightarrow> string \<Rightarrow> string" where
  "env_string_or vars key fallback = (case env_string vars key of Some v \<Rightarrow> v | None \<Rightarrow> fallback)"

definition env_required :: "environment_vars \<Rightarrow> string \<Rightarrow> env_error + string" where
  "env_required vars key = (case env_string vars key of Some v \<Rightarrow> Inr v | None \<Rightarrow> Inl (Missing_var key))"

definition env_parsed :: "(string \<Rightarrow> 'a option) \<Rightarrow> environment_vars \<Rightarrow> string \<Rightarrow> env_error + 'a option" where
  "env_parsed parse vars key =
     (case env_string vars key of
        None \<Rightarrow> Inr None
      | Some value \<Rightarrow> (case parse value of Some v \<Rightarrow> Inr (Some v) | None \<Rightarrow> Inl (Invalid_var key value)))"

definition env_parsed_or :: "(string \<Rightarrow> 'a option) \<Rightarrow> environment_vars \<Rightarrow> string \<Rightarrow> 'a \<Rightarrow> env_error + 'a" where
  "env_parsed_or parse vars key fallback =
     bind_ok (env_parsed parse vars key) (\<lambda>v. Inr (case v of Some x \<Rightarrow> x | None \<Rightarrow> fallback))"

type_synonym u16 = "16 word"

text \<open>\<open>FromStr\<close> of \<open>u16\<close>: digits, a leading plus allowed, and the value fits.\<close>

definition parse_u16 :: "string \<Rightarrow> u16 option" where
  "parse_u16 s = (let ds = (case s of c # cs \<Rightarrow> (if c = CHR ''+'' then cs else s) | [] \<Rightarrow> s) in
     if ds \<noteq> [] \<and> list_all is_ascii_digit ds \<and> digits_value ds < 2 ^ 16
     then Some (of_nat (digits_value ds)) else None)"

definition env_u16 :: "environment_vars \<Rightarrow> string \<Rightarrow> env_error + u16 option" where
  "env_u16 = env_parsed parse_u16"

definition env_u16_or :: "environment_vars \<Rightarrow> string \<Rightarrow> u16 \<Rightarrow> env_error + u16" where
  "env_u16_or = env_parsed_or parse_u16"

definition env_u32 :: "environment_vars \<Rightarrow> string \<Rightarrow> env_error + u32 option" where
  "env_u32 = env_parsed parse_u32"

definition env_u32_or :: "environment_vars \<Rightarrow> string \<Rightarrow> u32 \<Rightarrow> env_error + u32" where
  "env_u32_or = env_parsed_or parse_u32"

definition env_i64 :: "environment_vars \<Rightarrow> string \<Rightarrow> env_error + i64 option" where
  "env_i64 = env_parsed parse_i64"

definition env_i64_or :: "environment_vars \<Rightarrow> string \<Rightarrow> i64 \<Rightarrow> env_error + i64" where
  "env_i64_or = env_parsed_or parse_i64"

definition env_variant_or_default :: "(string \<Rightarrow> 'a option) \<Rightarrow> 'a \<Rightarrow> environment_vars \<Rightarrow> string \<Rightarrow> env_error + 'a" where
  "env_variant_or_default parse d vars key = env_parsed_or parse vars key d"

definition env_boolean :: "environment_vars \<Rightarrow> string \<Rightarrow> env_error + bool option" where
  "env_boolean vars key =
     (case env_string vars key of
        None \<Rightarrow> Inr None
      | Some value \<Rightarrow>
         (let v = to_ascii_lowercase value in
          if v \<in> set [''1'', ''t'', ''true'', ''y'', ''yes'', ''on''] then Inr (Some True)
          else if v \<in> set [''0'', ''f'', ''false'', ''n'', ''no'', ''off''] then Inr (Some False)
          else Inl (Invalid_var key value)))"

definition env_boolean_or :: "environment_vars \<Rightarrow> string \<Rightarrow> bool \<Rightarrow> env_error + bool" where
  "env_boolean_or vars key fallback =
     bind_ok (env_boolean vars key) (\<lambda>v. Inr (case v of Some x \<Rightarrow> x | None \<Rightarrow> fallback))"

text \<open>\<open>split(',')\<close>, which yields a piece for each comma and one more.\<close>

fun split_at :: "char \<Rightarrow> string \<Rightarrow> string list" where
  "split_at c [] = [[]]"
| "split_at c (x # xs) =
     (if x = c then [] # split_at c xs
      else (case split_at c xs of p # ps \<Rightarrow> (x # p) # ps | [] \<Rightarrow> [[x]]))"

definition env_vec :: "environment_vars \<Rightarrow> string \<Rightarrow> string list option" where
  "env_vec vars key =
     (case env_string vars key of
        None \<Rightarrow> None
      | Some value \<Rightarrow>
         (let entries = filter (\<lambda>e. e \<noteq> '''') (map trim (split_at (CHR '','') value))
          in if entries = [] then None else Some entries))"

definition env_vec_or :: "environment_vars \<Rightarrow> string \<Rightarrow> string list \<Rightarrow> string list" where
  "env_vec_or vars key fallback = (case env_vec vars key of Some es \<Rightarrow> es | None \<Rightarrow> fallback)"

section \<open>Settings (config)\<close>

datatype environment = Local | Development | Production

fun environment_as_str :: "environment \<Rightarrow> string" where
  "environment_as_str Local = ''local''"
| "environment_as_str Development = ''development''"
| "environment_as_str Production = ''production''"

fun is_production :: "environment \<Rightarrow> bool" where
  "is_production Production = True"
| "is_production _ = False"

definition environment_from_str :: "string \<Rightarrow> environment option" where
  "environment_from_str value =
     (let v = to_ascii_lowercase (trim value) in
      if v = ''local'' then Some Local else if v = ''development'' then Some Development
      else if v = ''production'' then Some Production else None)"

datatype logger_level = Level_trace | Level_debug | Level_info | Level_warn | Level_error

fun logger_level_as_str :: "logger_level \<Rightarrow> string" where
  "logger_level_as_str Level_trace = ''trace''"
| "logger_level_as_str Level_debug = ''debug''"
| "logger_level_as_str Level_info = ''info''"
| "logger_level_as_str Level_warn = ''warn''"
| "logger_level_as_str Level_error = ''error''"

definition logger_level_from_str :: "string \<Rightarrow> logger_level option" where
  "logger_level_from_str value =
     (let v = to_ascii_lowercase (trim value) in
      if v = ''trace'' then Some Level_trace else if v = ''debug'' then Some Level_debug
      else if v = ''info'' then Some Level_info else if v = ''warn'' \<or> v = ''warning'' then Some Level_warn
      else if v = ''error'' then Some Level_error else None)"

record server_config =
  sc_port :: u16
  sc_grpc_port :: u16

record logger_config =
  lg_level :: logger_level
  lg_directory :: string

record deployment =
  dep_name :: string
  dep_environment :: environment
  dep_time_zone :: string

definition deployment_is_production :: "deployment \<Rightarrow> bool" where
  "deployment_is_production d = is_production (dep_environment d)"

record db_config =
  dbc_host :: string
  dbc_port :: u16
  dbc_database :: string
  dbc_username :: string
  dbc_password :: string
  dbc_ssl_mode :: string
  dbc_max_connections :: u32
  dbc_run_migrations :: bool

record mail_config =
  mc_host :: string
  mc_port :: u16
  mc_username :: string
  mc_password :: string
  mc_from_address :: string
  mc_from_name :: string

record auth_config =
  access_token_ttl_in_seconds :: i64
  refresh_token_ttl_in_seconds :: i64

record google_config =
  gg_client_id :: string
  gg_client_secret :: string
  gg_redirect_uri :: string

record app_config =
  cfg_server :: server_config
  cfg_logger :: logger_config
  cfg_deployment :: deployment
  cfg_db :: db_config
  cfg_mail :: mail_config
  cfg_jwt_secret :: string
  cfg_auth :: auth_config
  cfg_google :: google_config
  cfg_super_role :: string

definition load_server :: "environment_vars \<Rightarrow> env_error + server_config" where
  "load_server vars =
     bind_ok (env_u16_or vars ''APP_PORT'' 3000) (\<lambda>p.
     bind_ok (env_u16_or vars ''GRPC_PORT'' 50051) (\<lambda>g. Inr \<lparr>sc_port = p, sc_grpc_port = g\<rparr>))"

definition load_logger :: "environment_vars \<Rightarrow> env_error + logger_config" where
  "load_logger vars =
     bind_ok (env_variant_or_default logger_level_from_str Level_info vars ''LOGGER_LEVEL'') (\<lambda>l.
       Inr \<lparr>lg_level = l, lg_directory = env_string_or vars ''LOGGER_DIRECTORY'' ''storage/logs''\<rparr>)"

definition load_deployment :: "environment_vars \<Rightarrow> env_error + deployment" where
  "load_deployment vars =
     bind_ok (env_variant_or_default environment_from_str Development vars ''APP_ENVIRONMENT'') (\<lambda>e.
       Inr \<lparr>dep_name = env_string_or vars ''APP_NAME'' ''SchemaForgeBackend'', dep_environment = e,
         dep_time_zone = env_string_or vars ''APP_TIMEZONE'' ''America/Belize''\<rparr>)"

definition load_db :: "environment_vars \<Rightarrow> env_error + db_config" where
  "load_db vars =
     bind_ok (env_u16_or vars ''DB_PORT'' 5432) (\<lambda>p.
     bind_ok (env_u32_or vars ''DB_MAX_CONNECTIONS'' 10) (\<lambda>n.
     bind_ok (env_boolean_or vars ''DB_RUN_MIGRATIONS'' True) (\<lambda>m.
       Inr \<lparr>dbc_host = env_string_or vars ''DB_HOST'' ''127.0.0.1'', dbc_port = p,
         dbc_database = env_string_or vars ''DB_DATABASE'' ''schemaforge'', dbc_username = env_string_or vars ''DB_USERNAME'' ''root'',
         dbc_password = env_string_or vars ''DB_PASSWORD'' ''password'', dbc_ssl_mode = env_string_or vars ''DB_SSL_MODE'' ''prefer'',
         dbc_max_connections = n, dbc_run_migrations = m\<rparr>)))"

definition load_mail :: "environment_vars \<Rightarrow> env_error + mail_config" where
  "load_mail vars =
     bind_ok (env_u16_or vars ''MAIL_PORT'' 1025) (\<lambda>p.
       Inr \<lparr>mc_host = env_string_or vars ''MAIL_HOST'' ''mail'', mc_port = p,
         mc_username = env_string_or vars ''MAIL_USERNAME'' '''', mc_password = env_string_or vars ''MAIL_PASSWORD'' '''',
         mc_from_address = env_string_or vars ''MAIL_FROM_ADDRESS'' ''noreply@example.com'',
         mc_from_name = env_string_or vars ''MAIL_FROM_NAME'' ''noreply''\<rparr>)"

definition load_jwt :: "environment_vars \<Rightarrow> env_error + string" where
  "load_jwt vars = env_required vars ''JWT_SECRET''"

definition load_auth :: "environment_vars \<Rightarrow> env_error + auth_config" where
  "load_auth vars =
     bind_ok (env_i64_or vars ''AUTHENTICATION_ACCESS_TOKEN_TTL_SECONDS'' 3600) (\<lambda>a.
     bind_ok (env_i64_or vars ''AUTHENTICATION_REFRESH_TOKEN_TTL_SECONDS'' 604800) (\<lambda>r.
       Inr \<lparr>access_token_ttl_in_seconds = a, refresh_token_ttl_in_seconds = r\<rparr>))"

definition load_google :: "environment_vars \<Rightarrow> env_error + google_config" where
  "load_google vars =
     bind_ok (env_required vars ''GOOGLE_CLIENT_ID'') (\<lambda>i.
     bind_ok (env_required vars ''GOOGLE_CLIENT_SECRET'') (\<lambda>s.
     bind_ok (env_required vars ''GOOGLE_REDIRECT_URI'') (\<lambda>u.
       Inr \<lparr>gg_client_id = i, gg_client_secret = s, gg_redirect_uri = u\<rparr>)))"

definition load_rbac :: "environment_vars \<Rightarrow> env_error + string" where
  "load_rbac vars = Inr (env_string_or vars ''SUPER_ROLE'' ''Admin'')"

text \<open>The variables include what \<open>dotenvy\<close> added from a file, if there was one.\<close>

definition load_config :: "environment_vars \<Rightarrow> env_error + app_config" where
  "load_config vars =
     bind_ok (load_server vars) (\<lambda>srv.
     bind_ok (load_logger vars) (\<lambda>log.
     bind_ok (load_deployment vars) (\<lambda>dep.
     bind_ok (load_db vars) (\<lambda>db.
     bind_ok (load_mail vars) (\<lambda>mail.
     bind_ok (load_jwt vars) (\<lambda>jwt.
     bind_ok (load_auth vars) (\<lambda>auth.
     bind_ok (load_google vars) (\<lambda>goo.
     bind_ok (load_rbac vars) (\<lambda>super.
       Inr \<lparr>cfg_server = srv, cfg_logger = log, cfg_deployment = dep, cfg_db = db, cfg_mail = mail, cfg_jwt_secret = jwt,
         cfg_auth = auth, cfg_google = goo, cfg_super_role = super\<rparr>)))))))))"

fun encode_char :: "char \<Rightarrow> string" where
  "encode_char c =
     (if c = CHR ''@'' then ''%40'' else if c = CHR '':'' then ''%3A'' else if c = CHR ''/'' then ''%2F''
      else if c = CHR ''?'' then ''%3F'' else if c = CHR ''#'' then ''%23'' else if c = CHR ''['' then ''%5B''
      else if c = CHR '']'' then ''%5D'' else [c])"

definition encode :: "string \<Rightarrow> string" where
  "encode value = concat (map encode_char value)"

definition to_url :: "db_config \<Rightarrow> string" where
  "to_url db = ''postgres://'' @ encode (dbc_username db) @ '':'' @ encode (dbc_password db) @ ''@'' @ dbc_host db @ '':''
     @ show_nat (unat (dbc_port db)) @ ''/'' @ dbc_database db @ ''?sslmode='' @ dbc_ssl_mode db"

section \<open>When the server starts\<close>

text \<open>A variable is readable if it is unset, or blank, or has a value of its type.\<close>

definition readable :: "(string \<Rightarrow> 'a option) \<Rightarrow> environment_vars \<Rightarrow> string \<Rightarrow> bool" where
  "readable parse vars key \<longleftrightarrow> (case env_string vars key of None \<Rightarrow> True | Some v \<Rightarrow> parse v \<noteq> None)"

definition parse_boolean :: "string \<Rightarrow> bool option" where
  "parse_boolean s =
     (let v = to_ascii_lowercase s in
      if v \<in> set [''1'', ''t'', ''true'', ''y'', ''yes'', ''on''] then Some True
      else if v \<in> set [''0'', ''f'', ''false'', ''n'', ''no'', ''off''] then Some False else None)"

definition bootable :: "environment_vars \<Rightarrow> bool" where
  "bootable vars \<longleftrightarrow>
     list_all (\<lambda>key. env_string vars key \<noteq> None) [''JWT_SECRET'', ''GOOGLE_CLIENT_ID'', ''GOOGLE_CLIENT_SECRET'', ''GOOGLE_REDIRECT_URI''] \<and>
     list_all (readable parse_u16 vars) [''APP_PORT'', ''GRPC_PORT'', ''DB_PORT'', ''MAIL_PORT''] \<and>
     readable parse_u32 vars ''DB_MAX_CONNECTIONS'' \<and> readable parse_boolean vars ''DB_RUN_MIGRATIONS'' \<and>
     list_all (readable parse_i64 vars) [''AUTHENTICATION_ACCESS_TOKEN_TTL_SECONDS'', ''AUTHENTICATION_REFRESH_TOKEN_TTL_SECONDS''] \<and>
     readable logger_level_from_str vars ''LOGGER_LEVEL'' \<and> readable environment_from_str vars ''APP_ENVIRONMENT''"

lemma isl_bind: "isl (bind_ok m f) \<longleftrightarrow> isl m \<or> isl (f (projr m))"
  by (cases m) (simp_all add: bind_ok_def)

lemma parsed_or_isl: "isl (env_parsed_or parse vars key d) \<longleftrightarrow> \<not> readable parse vars key"
  by (auto simp: env_parsed_or_def env_parsed_def readable_def isl_bind split: option.split)

lemma boolean_isl: "isl (env_boolean_or vars key d) \<longleftrightarrow> \<not> readable parse_boolean vars key"
  by (auto simp: env_boolean_or_def env_boolean_def readable_def parse_boolean_def isl_bind Let_def split: option.split)

lemma required_isl: "isl (env_required vars key) \<longleftrightarrow> env_string vars key = None"
  by (simp add: env_required_def split: option.split)

lemmas load_isl = isl_bind parsed_or_isl boolean_isl required_isl

lemma loads_isl:
  "isl (load_server vars) \<longleftrightarrow> \<not> readable parse_u16 vars ''APP_PORT'' \<or> \<not> readable parse_u16 vars ''GRPC_PORT''"
  "isl (load_logger vars) \<longleftrightarrow> \<not> readable logger_level_from_str vars ''LOGGER_LEVEL''"
  "isl (load_deployment vars) \<longleftrightarrow> \<not> readable environment_from_str vars ''APP_ENVIRONMENT''"
  "isl (load_db vars) \<longleftrightarrow> \<not> readable parse_u16 vars ''DB_PORT'' \<or> \<not> readable parse_u32 vars ''DB_MAX_CONNECTIONS'' \<or>
     \<not> readable parse_boolean vars ''DB_RUN_MIGRATIONS''"
  "isl (load_mail vars) \<longleftrightarrow> \<not> readable parse_u16 vars ''MAIL_PORT''"
  "isl (load_jwt vars) \<longleftrightarrow> env_string vars ''JWT_SECRET'' = None"
  "isl (load_auth vars) \<longleftrightarrow> \<not> readable parse_i64 vars ''AUTHENTICATION_ACCESS_TOKEN_TTL_SECONDS'' \<or>
     \<not> readable parse_i64 vars ''AUTHENTICATION_REFRESH_TOKEN_TTL_SECONDS''"
  "isl (load_google vars) \<longleftrightarrow> env_string vars ''GOOGLE_CLIENT_ID'' = None \<or> env_string vars ''GOOGLE_CLIENT_SECRET'' = None \<or>
     env_string vars ''GOOGLE_REDIRECT_URI'' = None"
  "\<not> isl (load_rbac vars)"
  by (simp_all add: load_server_def load_logger_def load_deployment_def load_db_def load_mail_def load_jwt_def load_auth_def
      load_google_def load_rbac_def env_u16_or_def env_u32_or_def env_i64_or_def env_variant_or_default_def load_isl)

lemma load_config_iff: "\<not> isl (load_config vars) \<longleftrightarrow> bootable vars"
  unfolding load_config_def isl_bind loads_isl by (auto simp: bootable_def loads_isl)

section \<open>The address of the database\<close>

text \<open>What the reader of an address does with the user and the password: percent escapes are decoded.\<close>

definition hex_digit :: "char \<Rightarrow> nat option" where
  "hex_digit c =
     (if is_ascii_digit c then Some (digit_value c)
      else if c \<in> set ''ABCDEF'' then Some (of_char c - 55) else if c \<in> set ''abcdef'' then Some (of_char c - 87) else None)"

fun percent_decode :: "string \<Rightarrow> string" where
  "percent_decode (c # h # l # rest) =
     (if c = CHR ''%'' then
        (case (hex_digit h, hex_digit l) of
           (Some x, Some y) \<Rightarrow> char_of (16 * x + y) # percent_decode rest
         | _ \<Rightarrow> c # percent_decode (h # l # rest))
      else c # percent_decode (h # l # rest))"
| "percent_decode [c, d] = [c, d]"
| "percent_decode [c] = [c]"
| "percent_decode [] = []"

lemma percent_plain: "c \<noteq> CHR ''%'' \<Longrightarrow> percent_decode (c # s) = c # percent_decode s"
  by (cases s rule: percent_decode.cases) simp_all

lemma percent_char: "c \<noteq> CHR ''%'' \<Longrightarrow> percent_decode (encode_char c @ s) = c # percent_decode s"
  by (auto simp: percent_plain hex_digit_def is_ascii_digit_def digit_value_def code_point_def text_simps)

lemma decode_encode: "CHR ''%'' \<notin> set s \<Longrightarrow> percent_decode (encode s) = s"
  by (induction s) (auto simp: encode_def percent_char simp del: encode_char.simps)

lemma encode_reserved: "set (encode s) \<inter> set ''@:/?#[]'' = {}"
proof -
  have "set (encode_char c) \<inter> set ''@:/?#[]'' = {}" for c by simp
  then show ?thesis by (auto simp: encode_def)
qed

end
