(* ===== verification/Server.thy ===== *)
theory Server
  imports Config
begin

text \<open>
  Starting the process: the commands of \<^verbatim>\<open>main.rs\<close>, the migrations of each module in order,
  \<^verbatim>\<open>database/migrations.rs\<close> and \<^verbatim>\<open>database/mod.rs\<close>, what \<^verbatim>\<open>provider/mod.rs\<close> does before it
  builds the services, the services mounted on the gRPC port, and the answers that need none of them: the envelope of
  \<^verbatim>\<open>package/response.rs\<close>, the health checks and masked values. Running one migrator is sqlx's and
  connecting is the driver's: both are arguments, over a database of any type.
\<close>

section \<open>Migrations\<close>

record 'm module_migrations =
  mm_name :: string
  mm_migrator :: 'm

text \<open>The migrators of the two modules are embedded by the build.\<close>

definition all_migrations :: "'m \<Rightarrow> 'm \<Rightarrow> 'm module_migrations list" where
  "all_migrations iam schema = [\<lparr>mm_name = ''iam'', mm_migrator = iam\<rparr>, \<lparr>mm_name = ''schema'', mm_migrator = schema\<rparr>]"

definition find_migrations :: "'m module_migrations list \<Rightarrow> string \<Rightarrow> 'm module_migrations option" where
  "find_migrations ms name = List.find (\<lambda>m. mm_name m = name) ms"

definition migration_names :: "'m module_migrations list \<Rightarrow> string list" where
  "migration_names ms = map mm_name ms"

text \<open>A run may fail after it changed the database, so it gives the database it leaves in either case.\<close>

type_synonym ('m, 'd) runner = "'m \<Rightarrow> 'd \<Rightarrow> (string + unit) \<times> 'd"

definition migrate_with :: "('m, 'd) runner \<Rightarrow> 'm module_migrations \<Rightarrow> 'd \<Rightarrow> (string + unit) \<times> 'd" where
  "migrate_with run m d = run (mm_migrator m) d"

fun migrate :: "('m, 'd) runner \<Rightarrow> 'm module_migrations list \<Rightarrow> 'd \<Rightarrow> (string + unit) \<times> 'd" where
  "migrate run [] d = (Inr (), d)"
| "migrate run (m # ms) d =
     (case migrate_with run m d of (Inl e, d1) \<Rightarrow> (Inl e, d1) | (Inr _, d1) \<Rightarrow> migrate run ms d1)"

definition migrate_module :: "('m, 'd) runner \<Rightarrow> 'm module_migrations list \<Rightarrow> string \<Rightarrow> 'd \<Rightarrow> (string + bool) \<times> 'd" where
  "migrate_module run ms name d =
     (case find_migrations ms name of
        Some m \<Rightarrow> (case migrate_with run m d of (r, d1) \<Rightarrow> (map_sum id (\<lambda>_. True) r, d1))
      | None \<Rightarrow> (Inr False, d))"

section \<open>Commands (main.rs)\<close>

datatype command = Serve | Migrate_command "string option"

definition command_of :: "string list \<Rightarrow> string + command" where
  "command_of args =
     (case args of
        [] \<Rightarrow> Inr Serve
      | a # rest \<Rightarrow>
          (if a = ''migrate'' then Inr (Migrate_command (case rest of [] \<Rightarrow> None | m # _ \<Rightarrow> Some m))
           else Inl (''unknown command `'' @ a @ ''`. Usage: server [migrate [<module>]]'')))"

definition run_migrate ::
  "('m, 'd) runner \<Rightarrow> 'm module_migrations list \<Rightarrow> string + 'd \<Rightarrow> string option \<Rightarrow> (string + unit) \<times> 'd option" where
  "run_migrate run ms connected module =
     (case connected of
        Inl e \<Rightarrow> (Inl e, None)
      | Inr d \<Rightarrow>
          (case module of
             None \<Rightarrow> (case migrate run ms d of (r, d1) \<Rightarrow> (r, Some d1))
           | Some name \<Rightarrow>
               (case migrate_module run ms name d of
                  (Inl e, d1) \<Rightarrow> (Inl e, Some d1)
                | (Inr True, d1) \<Rightarrow> (Inr (), Some d1)
                | (Inr False, d1) \<Rightarrow>
                    (Inl (''unknown module `'' @ name @ ''`. Known modules: '' @ join '', '' (migration_names ms)), Some d1))))"

text \<open>What \<open>inject_default\<close> does to the database before any service is built.\<close>

definition prepare_database ::
  "('m, 'd) runner \<Rightarrow> 'm module_migrations list \<Rightarrow> bool \<Rightarrow> string + 'd \<Rightarrow> string + 'd" where
  "prepare_database run ms run_migrations connected =
     (case connected of
        Inl e \<Rightarrow> Inl e
      | Inr d \<Rightarrow>
          if run_migrations then (case migrate run ms d of (Inl e, _) \<Rightarrow> Inl e | (Inr _, d1) \<Rightarrow> Inr d1)
          else Inr d)"

section \<open>Answers (response.rs, health, masked.rs)\<close>

record ('a, 'p, 'e) envelope =
  env_data :: "'a option"
  env_pagination :: "'p option"
  env_error :: "'e option"

definition response_data :: "'a \<Rightarrow> ('a, 'p, 'e) envelope" where
  "response_data x = \<lparr>env_data = Some x, env_pagination = None, env_error = None\<rparr>"

text \<open>\<open>to_value\<close> is serde's; a pagination it refuses is left out.\<close>

definition response_paginated :: "('q \<Rightarrow> 'p option) \<Rightarrow> 'a \<Rightarrow> 'q \<Rightarrow> ('a, 'p, 'e) envelope" where
  "response_paginated to_value x p = \<lparr>env_data = Some x, env_pagination = to_value p, env_error = None\<rparr>"

definition response_error :: "'e \<Rightarrow> ('a, 'p, 'e) envelope" where
  "response_error e = \<lparr>env_data = None, env_pagination = None, env_error = Some e\<rparr>"

record health =
  hl_status :: string
  hl_version :: string

definition healthcheck :: "string \<Rightarrow> (health, 'p, 'e) envelope" where
  "healthcheck version = response_data \<lparr>hl_status = ''OK'', hl_version = version\<rparr>"

definition rpc_check :: "string \<Rightarrow> health" where
  "rpc_check version = \<lparr>hl_status = ''OK'', hl_version = version\<rparr>"

record masked_bytes = mb_bytes :: "8 word list"

definition masked_debug :: "masked_bytes \<Rightarrow> string" where "masked_debug m = ''************''"
definition masked_display :: "masked_bytes \<Rightarrow> string" where "masked_display m = ''************''"
definition masked_serialize :: "masked_bytes \<Rightarrow> string" where "masked_serialize m = ''********''"
definition expose :: "masked_bytes \<Rightarrow> 8 word list" where "expose m = mb_bytes m"

section \<open>The ports (server)\<close>

definition route_not_found :: sf_error where
  "route_not_found = not_found ''route not found''"

definition serves_reflection :: "deployment \<Rightarrow> bool" where
  "serves_reflection d \<longleftrightarrow> \<not> deployment_is_production d"

text \<open>The services of the gRPC port. Building the reflection service may fail, and then the port is not opened.\<close>

definition grpc_mount :: "'s \<Rightarrow> 's \<Rightarrow> 's \<Rightarrow> 's list" where
  "grpc_mount health auth schema = [health, auth, schema]"

definition grpc_routes :: "'s list \<Rightarrow> string + 's \<Rightarrow> deployment \<Rightarrow> string + 's list" where
  "grpc_routes mounted reflection d =
     (if serves_reflection d
      then (case reflection of Inl e \<Rightarrow> Inl e | Inr r \<Rightarrow> Inr (mounted @ [r]))
      else Inr mounted)"

section \<open>Facts\<close>

lemma migrate_append:
  "migrate run (ms @ ns) d =
     (case migrate run ms d of (Inl e, d1) \<Rightarrow> (Inl e, d1) | (Inr _, d1) \<Rightarrow> migrate run ns d1)"
  by (induction ms arbitrary: d) (auto split: prod.splits sum.splits)

text \<open>The tables of the accounts come before those of the schemas, and a failure stops the rest.\<close>

lemma migrate_in_order:
  "migrate run (all_migrations iam schema) d =
     (case run iam d of (Inl e, d1) \<Rightarrow> (Inl e, d1) | (Inr _, d1) \<Rightarrow> run schema d1)"
  by (auto simp: all_migrations_def migrate_with_def split: prod.split sum.split)

lemma known_module_runs:
  "migrate_module run (all_migrations iam schema) name d =
     (if name = ''iam'' then map_prod (map_sum id (\<lambda>_. True)) id (run iam d)
      else if name = ''schema'' then map_prod (map_sum id (\<lambda>_. True)) id (run schema d)
      else (Inr False, d))"
  by (simp add: migrate_module_def find_migrations_def all_migrations_def migrate_with_def case_prod_beta
      map_prod_def)

text \<open>Both ports report the same health.\<close>

lemma health_ports_agree: "env_data (healthcheck version) = Some (rpc_check version)"
  by (simp add: healthcheck_def rpc_check_def response_data_def)

text \<open>In production the contract is not served, whatever becomes of the reflection service.\<close>

lemma production_hides_contract:
  "dep_environment d = Production \<Longrightarrow> grpc_routes mounted reflection d = Inr mounted"
  by (simp add: grpc_routes_def serves_reflection_def deployment_is_production_def)

end
