(* ===== verification/Rpc_Log.thy ===== *)
theory Rpc_Log
  imports Errdef Exchange_Json
begin

text \<open>
  What the gRPC port logs of a call: the frames of a body are read and each message is blanked and
  printed, \<^verbatim>\<open>server/middlewares/rpc_body.rs\<close>, and the outcome of a call is a failure or a rejection,
  \<^verbatim>\<open>rpc_context.rs\<close>. Decoding a message by its descriptor, walking its fields to blank them and printing
  it are prost's and serde's: they are arguments.
\<close>

section \<open>The body of a call (rpc_body.rs)\<close>

type_synonym u8 = "8 word"

definition SENSITIVE :: "string list" where "SENSITIVE = [''password'', ''token'', ''secret'']"

definition REDACTED :: string where "REDACTED = ''[redacted]''"

definition FRAME_PREFIX :: nat where "FRAME_PREFIX = 5"

definition text_contains :: "string \<Rightarrow> string \<Rightarrow> bool" where
  "text_contains word s = list_ex (\<lambda>i. take (length word) (drop i s) = word) [0..<Suc (length s)]"

definition is_sensitive :: "string \<Rightarrow> bool" where
  "is_sensitive name = list_ex (\<lambda>word. text_contains word name) SENSITIVE"

text \<open>\<open>get_u32\<close> reads the most significant byte first.\<close>

definition get_u32 :: "u8 list \<Rightarrow> nat" where
  "get_u32 bs = foldl (\<lambda>n b. 256 * n + unat b) 0 bs"

function read_frames :: "(u8 list \<Rightarrow> string + 'm) \<Rightarrow> ('m \<Rightarrow> 'm) \<Rightarrow> u8 list \<Rightarrow> string + 'm list" where
  "read_frames decode redact body =
     (if body = [] then Inr []
      else if length body < FRAME_PREFIX then Inl ''truncated frame''
      else
        (let compressed = (hd body \<noteq> 0);
             len = get_u32 (take 4 (tl body));
             rest = drop FRAME_PREFIX body
         in if length rest < len then Inl ''truncated message''
            else if compressed then Inl ''compressed message''
            else
              bind_ok (decode (take len rest)) (\<lambda>m.
              bind_ok (read_frames decode redact (drop len rest)) (\<lambda>ms. Inr (redact m # ms)))))"
  by pat_completeness auto
termination
  by (relation "measure (\<lambda>(_, _, body). length body)") (auto simp: FRAME_PREFIX_def)

declare read_frames.simps [simp del]

definition render_body :: "(u8 list \<Rightarrow> string + 'm) \<Rightarrow> ('m \<Rightarrow> 'm) \<Rightarrow> ('m \<Rightarrow> string + string) \<Rightarrow> ('m list \<Rightarrow> string + string) \<Rightarrow>
    u8 list \<Rightarrow> string + string" where
  "render_body decode redact print_one print_many body =
     bind_ok (read_frames decode redact body) (\<lambda>messages.
       case messages of [m] \<Rightarrow> print_one m | _ \<Rightarrow> print_many messages)"

section \<open>The outcome of a call (rpc_context.rs)\<close>

definition is_server_fault :: "int \<Rightarrow> bool" where
  "is_server_fault code \<longleftrightarrow> code \<in> {2, 13, 14, 15}"

datatype rpc_outcome = Rpc_failed int | Rpc_rejected int | Rpc_completed

definition outcome_of :: "int option \<Rightarrow> rpc_outcome" where
  "outcome_of code =
     (case code of
        Some c \<Rightarrow> (if is_server_fault c then Rpc_failed c else if c \<noteq> 0 then Rpc_rejected c else Rpc_completed)
      | None \<Rightarrow> Rpc_completed)"

section \<open>Frames are read back\<close>

text \<open>The framing of gRPC: a flag, the length in four bytes, the message.\<close>

definition be_bytes :: "nat \<Rightarrow> u8 list" where
  "be_bytes n = [of_nat (n div 2 ^ 24), of_nat (n div 2 ^ 16), of_nat (n div 2 ^ 8), of_nat n]"

definition framed :: "u8 list \<Rightarrow> u8 list" where
  "framed payload = 0 # be_bytes (length payload) @ payload"

lemma get_u32_bytes: "n < 2 ^ 32 \<Longrightarrow> get_u32 (be_bytes n) = n"
proof -
  assume n: "n < 2 ^ 32"
  have byte: "unat (of_nat k :: u8) = k mod 256" for k by (simp add: unsigned_of_nat take_bit_eq_mod)
  define a b c where "a = n div 256" and "b = a div 256" and "c = b div 256"
  have "n div 65536 = b" "n div 16777216 = c"
    by (simp_all add: a_def b_def c_def div_mult2_eq [symmetric])
  moreover have "c < 256" using n by (simp add: a_def b_def c_def div_mult2_eq [symmetric] less_mult_imp_div_less)
  ultimately have "get_u32 (be_bytes n) = 256 * (256 * (256 * c + b mod 256) + a mod 256) + n mod 256"
    by (simp add: get_u32_def be_bytes_def byte a_def)
  also have "\<dots> = n" by (simp add: a_def b_def c_def)
  finally show ?thesis .
qed

fun all_ok :: "(string + 'm) list \<Rightarrow> string + 'm list" where
  "all_ok [] = Inr []"
| "all_ok (r # rs) = bind_ok r (\<lambda>m. bind_ok (all_ok rs) (\<lambda>ms. Inr (m # ms)))"

lemma read_frame:
  assumes "length payload < 2 ^ 32"
  shows "read_frames decode redact (framed payload @ rest) =
    bind_ok (decode payload) (\<lambda>m. bind_ok (read_frames decode redact rest) (\<lambda>ms. Inr (redact m # ms)))"
proof -
  define body where "body = framed payload @ rest"
  have "length (be_bytes (length payload)) = 4" by (simp add: be_bytes_def)
  then have "take 4 (tl body) = be_bytes (length payload)" "drop 5 body = payload @ rest" "hd body = 0" "body \<noteq> []" "\<not> length body < 5"
    by (simp_all add: body_def framed_def)
  then show ?thesis
    unfolding body_def [symmetric] by (subst read_frames.simps) (simp add: FRAME_PREFIX_def get_u32_bytes [OF assms] Let_def)
qed

lemma read_framed:
  assumes "\<forall>p \<in> set payloads. length p < 2 ^ 32"
  shows "read_frames decode redact (concat (map framed payloads)) = all_ok (map (\<lambda>p. map_sum id redact (decode p)) payloads)"
  using assms
proof (induction payloads)
  case Nil
  show ?case by (simp add: read_frames.simps)
next
  case (Cons p ps)
  then show ?case by (cases "decode p") (simp_all add: read_frame bind_ok_def)
qed

text \<open>What is logged are decoded messages, each blanked.\<close>

lemma read_frames_messages:
  "read_frames decode redact body = Inr ms \<Longrightarrow>
     \<exists>raw. ms = map redact raw \<and> (\<forall>m \<in> set raw. \<exists>payload. decode payload = Inr m)"
proof (induction body arbitrary: ms rule: length_induct)
  case (1 body)
  show ?case
  proof (cases "body = []")
    case True
    then show ?thesis using "1.prems" by (simp add: read_frames.simps)
  next
    case False
    let ?len = "get_u32 (take 4 (tl body))" and ?rest = "drop FRAME_PREFIX body"
    obtain m ms' where ok: "decode (take ?len ?rest) = Inr m" "read_frames decode redact (drop ?len ?rest) = Inr ms'"
      "ms = redact m # ms'"
      using "1.prems" False by (subst (asm) read_frames.simps) (auto simp: Let_def bind_ok_def split: if_splits sum.splits)
    have "length (drop ?len ?rest) < length body" using False by (auto simp: FRAME_PREFIX_def)
    with "1.IH" ok(2) obtain raw where "ms' = map redact raw" "\<forall>m \<in> set raw. \<exists>payload. decode payload = Inr m" by blast
    with ok(1,3) show ?thesis by (intro exI [of _ "m # raw"]) auto
  qed
qed

end
