(* ===== verification/Rpc_Dump.thy ===== *)
theory Rpc_Dump
  imports Rpc_Log Pagination
begin

text \<open>
  The layers around a call: blanking a message and copying a body for the log,
  \<^verbatim>\<open>server/middlewares/rpc_body.rs\<close>, and the request id and the outcome of a call,
  \<^verbatim>\<open>rpc_context.rs\<close> and \<^verbatim>\<open>request_context.rs\<close>. A \<open>DynamicMessage\<close> of prost-reflect is the
  list of its fields with the name, the kind and the value each has; setting a text on a field works
  where the field is a single string. No message of the service has a map field.
\<close>

section \<open>Blanking a message (redact)\<close>

datatype field_kind = Kind_string | Kind_message | Kind_scalar

datatype pvalue =
    PString string
  | PScalar string
  | PMessage "pfield list"
  | PList "pvalue list"
and pfield = PField (pf_name: string) (pf_kind: field_kind) (pf_repeated: bool) (pf_value: "pvalue option")

definition try_set_text :: "pfield \<Rightarrow> string \<Rightarrow> pfield option" where
  "try_set_text f s = (if pf_kind f = Kind_string \<and> \<not> pf_repeated f
     then Some (PField (pf_name f) (pf_kind f) (pf_repeated f) (Some (PString s))) else None)"

definition clear_field :: "pfield \<Rightarrow> pfield" where
  "clear_field f = PField (pf_name f) (pf_kind f) (pf_repeated f) None"

definition blank_field :: "pfield \<Rightarrow> pfield" where
  "blank_field f = (case try_set_text f REDACTED of Some f' \<Rightarrow> f' | None \<Rightarrow> clear_field f)"

fun redact_fields :: "pfield list \<Rightarrow> pfield list"
  and redact_value :: "pvalue \<Rightarrow> pvalue"
  and redact_items :: "pvalue list \<Rightarrow> pvalue list" where
  "redact_fields [] = []"
| "redact_fields (PField name kind repeated None # fs) = PField name kind repeated None # redact_fields fs"
| "redact_fields (PField name kind repeated (Some v) # fs) =
     (if is_sensitive name then blank_field (PField name kind repeated (Some v))
      else if kind \<noteq> Kind_message then PField name kind repeated (Some v)
      else PField name kind repeated (Some (redact_value v))) # redact_fields fs"
| "redact_value (PMessage fs) = PMessage (redact_fields fs)"
| "redact_value (PList vs) = PList (redact_items vs)"
| "redact_value v = v"
| "redact_items [] = []"
| "redact_items (PMessage fs # vs) = PMessage (redact_fields fs) # redact_items vs"
| "redact_items (v # vs) = v # redact_items vs"

section \<open>What is left of a secret\<close>

text \<open>Only a field of message kind holds messages.\<close>

fun typed_fields :: "pfield list \<Rightarrow> bool"
  and typed_value :: "pvalue \<Rightarrow> bool"
  and typed_items :: "pvalue list \<Rightarrow> bool"
  and plain_value :: "pvalue \<Rightarrow> bool" where
  "typed_fields [] = True"
| "typed_fields (PField name kind repeated None # fs) = typed_fields fs"
| "typed_fields (PField name kind repeated (Some v) # fs) =
     ((if kind = Kind_message then typed_value v else plain_value v) \<and> typed_fields fs)"
| "typed_value (PMessage fs) = typed_fields fs"
| "typed_value (PList vs) = typed_items vs"
| "typed_value v = False"
| "typed_items [] = True"
| "typed_items (PMessage fs # vs) = (typed_fields fs \<and> typed_items vs)"
| "typed_items (v # vs) = False"
| "plain_value (PMessage fs) = False"
| "plain_value (PList vs) = (\<forall>x \<in> set vs. case x of PMessage _ \<Rightarrow> False | PList _ \<Rightarrow> False | _ \<Rightarrow> True)"
| "plain_value v = True"

text \<open>The texts of a message, each with the names of the fields that lead to it.\<close>

fun texts_of_fields :: "pfield list \<Rightarrow> (string list \<times> string) list"
  and texts_of_value :: "pvalue \<Rightarrow> (string list \<times> string) list"
  and texts_of_items :: "pvalue list \<Rightarrow> (string list \<times> string) list" where
  "texts_of_fields [] = []"
| "texts_of_fields (PField name kind repeated None # fs) = texts_of_fields fs"
| "texts_of_fields (PField name kind repeated (Some v) # fs) =
     map (\<lambda>(path, s). (name # path, s)) (texts_of_value v) @ texts_of_fields fs"
| "texts_of_value (PString s) = [([], s)]"
| "texts_of_value (PScalar s) = [([], s)]"
| "texts_of_value (PMessage fs) = texts_of_fields fs"
| "texts_of_value (PList vs) = texts_of_items vs"
| "texts_of_items [] = []"
| "texts_of_items (v # vs) = texts_of_value v @ texts_of_items vs"

definition hidden :: "string list \<times> string \<Rightarrow> bool" where
  "hidden x = (list_ex is_sensitive (fst x) \<longrightarrow> snd x = REDACTED)"

lemma blank_field_texts: "x \<in> set (texts_of_fields (blank_field f # fs)) \<Longrightarrow> hidden x \<or> x \<in> set (texts_of_fields fs)"
  by (cases f) (auto simp: blank_field_def try_set_text_def clear_field_def hidden_def split: if_splits)

lemma hidden_under: "hidden x \<Longrightarrow> \<not> is_sensitive name \<Longrightarrow> hidden (name # fst x, snd x)"
  by (simp add: hidden_def)

lemma plain_texts: "plain_value v \<Longrightarrow> x \<in> set (texts_of_value v) \<Longrightarrow> fst x = []"
proof (cases v)
  case (PList vs)
  assume *: "plain_value v" "x \<in> set (texts_of_value v)"
  then have "x \<in> set (texts_of_items vs)" "\<forall>x \<in> set vs. case x of PMessage _ \<Rightarrow> False | PList _ \<Rightarrow> False | _ \<Rightarrow> True"
    by (simp_all add: PList)
  then show "fst x = []" by (induction vs) (auto split: pvalue.splits)
qed auto

lemma redact_hides:
  "typed_fields fs \<Longrightarrow> \<forall>x \<in> set (texts_of_fields (redact_fields fs)). hidden x"
  "typed_value v \<Longrightarrow> \<forall>x \<in> set (texts_of_value (redact_value v)). hidden x"
  "typed_items vs \<Longrightarrow> \<forall>x \<in> set (texts_of_items (redact_items vs)). hidden x"
proof (induction fs and v and vs rule: redact_fields_redact_value_redact_items.induct)
  case (3 name kind repeated v fs)
  show ?case
  proof (cases "is_sensitive name")
    case True
    then show ?thesis using 3 blank_field_texts [of _ "PField name kind repeated (Some v)" "redact_fields fs"] by auto
  next
    case False
    have "\<forall>x \<in> set (texts_of_value v). hidden (name # fst x, snd x)" if "kind \<noteq> Kind_message"
      using 3(3) that False plain_texts [of v] by (auto simp: hidden_def)
    then show ?thesis
      using 3 False hidden_under by (cases "kind = Kind_message") (fastforce simp: case_prod_beta)+
  qed
qed auto

text \<open>Everything else is logged as it was.\<close>

definition shown :: "(string list \<times> string) list \<Rightarrow> (string list \<times> string) list" where
  "shown xs = filter (\<lambda>x. \<not> list_ex is_sensitive (fst x)) xs"

lemma shown_Cons [simp]: "shown (([], s) # xs) = ([], s) # shown xs"
  by (simp add: shown_def)

lemma shown_append [simp]: "shown (xs @ ys) = shown xs @ shown ys"
  by (simp add: shown_def)

lemma shown_under: "shown (map (\<lambda>(path, s). (name # path, s)) xs) =
    (if is_sensitive name then [] else map (\<lambda>(path, s). (name # path, s)) (shown xs))"
  by (induction xs) (auto simp: shown_def)

lemma shown_blank: "is_sensitive (pf_name f) \<Longrightarrow> shown (texts_of_fields (blank_field f # fs)) = shown (texts_of_fields fs)"
  by (cases f) (auto simp: blank_field_def try_set_text_def clear_field_def shown_def)

lemma redact_keeps:
  "shown (texts_of_fields (redact_fields fs)) = shown (texts_of_fields fs)"
  "shown (texts_of_value (redact_value v)) = shown (texts_of_value v)"
  "shown (texts_of_items (redact_items vs)) = shown (texts_of_items vs)"
  by (induction fs and v and vs rule: redact_fields_redact_value_redact_items.induct)
    (auto simp: shown_under shown_blank)

section \<open>Copying a body (Dump)\<close>

record dump =
  dp_buffer :: "u8 list"
  dp_logged :: bool

datatype frame = Data "u8 list" | Trailers

text \<open>One poll of the body inside: it may be over, fail or give a frame.\<close>

datatype polled = Body_over | Body_failed string | Body_frame frame

definition dump_new :: dump where
  "dump_new = \<lparr>dp_buffer = [], dp_logged = False\<rparr>"

text \<open>The lines written so far are kept beside the state; a line is the bytes it renders.\<close>

definition dump_log :: "dump \<times> u8 list list \<Rightarrow> dump \<times> u8 list list" where
  "dump_log = (\<lambda>(d, ls). if dp_logged d then (d, ls) else (d\<lparr>dp_logged := True\<rparr>, ls @ [dp_buffer d]))"

definition poll_frame :: "polled \<times> bool \<Rightarrow> dump \<times> u8 list list \<Rightarrow> (dump \<times> u8 list list) \<times> polled" where
  "poll_frame = (\<lambda>(p, end_stream) (d, ls).
     let d1 = (case p of Body_frame (Data bs) \<Rightarrow> d\<lparr>dp_buffer := dp_buffer d @ bs\<rparr> | _ \<Rightarrow> d)
     in (if p = Body_over \<or> end_stream then dump_log (d1, ls) else (d1, ls), p))"

definition dump_drop :: "dump \<times> u8 list list \<Rightarrow> dump \<times> u8 list list" where
  "dump_drop = (\<lambda>(d, ls). if dp_buffer d \<noteq> [] then dump_log (d, ls) else (d, ls))"

text \<open>The life of a body: polls with what the inner body says of its end, then the drop.\<close>

fun dump_polls :: "(polled \<times> bool) list \<Rightarrow> dump \<times> u8 list list \<Rightarrow> (dump \<times> u8 list list) \<times> polled list" where
  "dump_polls [] st = (st, [])"
| "dump_polls (p # ps) st =
     (let (st1, out) = poll_frame p st; (st2, outs) = dump_polls ps st1 in (st2, out # outs))"

definition bytes_of :: "(polled \<times> bool) list \<Rightarrow> u8 list" where
  "bytes_of ps = concat (map (\<lambda>(p, _). case p of Body_frame (Data bs) \<Rightarrow> bs | _ \<Rightarrow> []) ps)"

definition ends_at :: "polled \<times> bool \<Rightarrow> bool" where
  "ends_at = (\<lambda>(p, end_stream). p = Body_over \<or> end_stream)"

text \<open>The polls up to the first one that ends the stream.\<close>

definition until_end :: "(polled \<times> bool) list \<Rightarrow> (polled \<times> bool) list" where
  "until_end ps = takeWhile (\<lambda>p. \<not> ends_at p) ps @ take 1 (dropWhile (\<lambda>p. \<not> ends_at p) ps)"

lemma dump_polls_outs: "snd (dump_polls ps st) = map fst ps"
  by (induction ps arbitrary: st) (auto simp: poll_frame_def Let_def case_prod_beta)

lemma poll_logged:
  "dp_logged d \<Longrightarrow> fst (poll_frame p (d, ls)) = (d\<lparr>dp_buffer := dp_buffer d @ bytes_of [p]\<rparr>, ls)"
  by (cases p) (auto simp: poll_frame_def dump_log_def bytes_of_def Let_def split: polled.splits frame.splits)

lemma dump_polls_logged:
  "dp_logged d \<Longrightarrow> \<exists>buf. fst (dump_polls ps (d, ls)) = (d\<lparr>dp_buffer := buf\<rparr>, ls)"
proof (induction ps arbitrary: d)
  case Nil
  show ?case by (intro exI [of _ "dp_buffer d"]) simp
next
  case (Cons p ps)
  show ?case
    using poll_logged [OF Cons.prems, of p ls] Cons.IH [of "d\<lparr>dp_buffer := dp_buffer d @ bytes_of [p]\<rparr>"] Cons.prems
    by (simp add: case_prod_beta)
qed

lemma poll_step:
  assumes "\<not> dp_logged d"
  shows "fst (poll_frame p (d, ls)) = (if ends_at p
     then (d\<lparr>dp_buffer := dp_buffer d @ bytes_of [p], dp_logged := True\<rparr>, ls @ [dp_buffer d @ bytes_of [p]])
     else (d\<lparr>dp_buffer := dp_buffer d @ bytes_of [p]\<rparr>, ls))"
  using assms
  by (cases p) (auto simp: poll_frame_def dump_log_def ends_at_def bytes_of_def Let_def split: polled.splits frame.splits)

lemma bytes_of_Cons: "bytes_of (p # ps) = bytes_of [p] @ bytes_of ps"
  by (simp add: bytes_of_def)

lemma dump_life:
  assumes "\<not> dp_logged d"
  shows "snd (dump_drop (fst (dump_polls ps (d, ls)))) =
    ls @ (if list_ex ends_at ps \<or> dp_buffer d @ bytes_of ps \<noteq> [] then [dp_buffer d @ bytes_of (until_end ps)] else [])"
  using assms
proof (induction ps arbitrary: d)
  case Nil
  then show ?case by (simp add: dump_drop_def dump_log_def bytes_of_def until_end_def)
next
  case (Cons p ps)
  let ?b = "dp_buffer d @ bytes_of [p]"
  show ?case
  proof (cases "ends_at p")
    case True
    let ?d = "d\<lparr>dp_buffer := ?b, dp_logged := True\<rparr>"
    obtain buf where "fst (dump_polls ps (?d, ls @ [?b])) = (?d\<lparr>dp_buffer := buf\<rparr>, ls @ [?b])"
      using dump_polls_logged [of ?d ps "ls @ [?b]"] by auto
    moreover have "bytes_of (until_end (p # ps)) = bytes_of [p]" using True by (simp add: until_end_def)
    ultimately show ?thesis
      using True poll_step [OF Cons.prems, of p ls] by (simp add: case_prod_beta dump_drop_def dump_log_def)
  next
    case False
    let ?d = "d\<lparr>dp_buffer := ?b\<rparr>"
    have "until_end (p # ps) = p # until_end ps" using False by (simp add: until_end_def)
    then show ?thesis
      using False poll_step [OF Cons.prems, of p ls] Cons.IH [of ?d] Cons.prems
      by (simp add: case_prod_beta bytes_of_Cons [of p ps] bytes_of_Cons [of p "until_end ps"])
  qed
qed

section \<open>The method a path names (method_for)\<close>

text \<open>The pool of descriptors gives the methods of a service by its full name.\<close>

definition method_for :: "(string \<Rightarrow> ('m \<times> string) list option) \<Rightarrow> string \<Rightarrow> 'm option" where
  "method_for pool path =
     Option.bind (strip_prefix ''/'' path) (\<lambda>rest.
     Option.bind (split_once (CHR ''/'') rest) (\<lambda>(service, meth).
     Option.bind (pool service) (\<lambda>ms. map_option fst (List.find (\<lambda>(_, name). name = meth) ms))))"

section \<open>The layer (BodyDump)\<close>

text \<open>
  Nothing is wrapped unless lines of the level are written and the path names a method. \<open>wrap\<close> makes the
  body that copies itself, of the descriptor and the label of its line.
\<close>

definition body_dump_call ::
  "bool \<Rightarrow> (string \<Rightarrow> ('m \<times> string) list option) \<Rightarrow> ('m \<Rightarrow> 'd) \<Rightarrow> ('m \<Rightarrow> 'd) \<Rightarrow> ('d \<Rightarrow> string \<Rightarrow> 'b \<Rightarrow> 'b) \<Rightarrow>
     ('q \<times> 'b \<Rightarrow> 'e + 'p \<times> 'b) \<Rightarrow> string \<Rightarrow> 'q \<times> 'b \<Rightarrow> 'e + 'p \<times> 'b" where
  "body_dump_call debug pool input_of output_of wrap inner path request =
     (case (if debug then method_for pool path else None) of
        None \<Rightarrow> inner request
      | Some m \<Rightarrow>
          (case inner (fst request, wrap (input_of m) ''rpc request'' (snd request)) of
             Inl e \<Rightarrow> Inl e
           | Inr response \<Rightarrow> Inr (fst response, wrap (output_of m) ''rpc response'' (snd response))))"

text \<open>A service that sees of a body only what polling it gives answers the same through the layer.\<close>

lemma body_dump_unseen:
  assumes wrap: "\<And>d label b. polls (wrap d label b) = polls b"
    and inner: "\<And>parts b b'. polls b = polls b' \<Longrightarrow>
      map_sum id (map_prod id polls) (inner (parts, b)) = map_sum id (map_prod id polls) (inner (parts, b'))"
  shows "map_sum id (map_prod id polls) (body_dump_call debug pool input_of output_of wrap inner path request) =
    map_sum id (map_prod id polls) (inner request)"
proof (cases "if debug then method_for pool path else None")
  case None
  then show ?thesis by (simp add: body_dump_call_def)
next
  case (Some m)
  have "map_sum id (map_prod id polls) (body_dump_call debug pool input_of output_of wrap inner path request) =
      map_sum id (map_prod id polls) (inner (fst request, wrap (input_of m) ''rpc request'' (snd request)))"
    unfolding body_dump_call_def Some by (simp add: wrap map_prod_def case_prod_beta split: sum.split)
  also have "\<dots> = map_sum id (map_prod id polls) (inner request)"
    using inner [OF wrap, of "fst request" "input_of m" "''rpc request''" "snd request"] by simp
  finally show ?thesis .
qed

section \<open>Request ids and outcomes (rpc_context.rs)\<close>

definition REQUEST_ID :: string where "REQUEST_ID = ''x-request-id''"
definition GRPC_STATUS :: string where "GRPC_STATUS = ''grpc-status''"

text \<open>
  Header values are \<open>http\<close>'s: \<open>to_str\<close> reads one as text where it is visible ASCII, \<open>from_str\<close> makes
  one of a text where it may. \<open>new_id\<close> is the version 4 UUID that would be drawn.
\<close>

definition rpc_request_id :: "('v \<Rightarrow> string option) \<Rightarrow> string \<Rightarrow> (string \<rightharpoonup> 'v) \<Rightarrow> string" where
  "rpc_request_id to_str new_id headers =
     (case Option.bind (headers REQUEST_ID) to_str of Some ident \<Rightarrow> ident | None \<Rightarrow> new_id)"

definition stamp :: "(string \<Rightarrow> 'v option) \<Rightarrow> string \<Rightarrow> (string \<rightharpoonup> 'v) \<Rightarrow> (string \<rightharpoonup> 'v)" where
  "stamp from_str ident headers =
     (case from_str ident of Some value \<Rightarrow> headers(REQUEST_ID \<mapsto> value) | None \<Rightarrow> headers)"

definition grpc_code_of :: "('v \<Rightarrow> string option) \<Rightarrow> (string \<rightharpoonup> 'v) \<Rightarrow> int option" where
  "grpc_code_of to_str headers = Option.bind (Option.bind (headers GRPC_STATUS) to_str) parse_i32"

definition rpc_context_call ::
  "('v \<Rightarrow> string option) \<Rightarrow> (string \<Rightarrow> 'v option) \<Rightarrow> string \<Rightarrow> ((string \<rightharpoonup> 'v) \<Rightarrow> 'e + (string \<rightharpoonup> 'v)) \<Rightarrow>
     (string \<rightharpoonup> 'v) \<Rightarrow> 'e + rpc_outcome \<times> (string \<rightharpoonup> 'v)" where
  "rpc_context_call to_str from_str new_id inner headers =
     (let ident = rpc_request_id to_str new_id headers in
      case inner (stamp from_str ident headers) of
        Inl e \<Rightarrow> Inl e
      | Inr response \<Rightarrow> Inr (outcome_of (grpc_code_of to_str response), stamp from_str ident response))"

section \<open>The outcome of an HTTP request (request_context.rs)\<close>

datatype http_outcome = Request_failed nat | Request_rejected nat | Request_completed nat

definition http_outcome_of :: "nat \<Rightarrow> http_outcome" where
  "http_outcome_of status =
     (if 500 \<le> status \<and> status < 600 then Request_failed status
      else if 400 \<le> status \<and> status < 500 then Request_rejected status
      else Request_completed status)"

text \<open>What the span of a request carries: the route, the id and the address, each with its default.\<close>

definition request_span ::
  "string option \<Rightarrow> ('v \<Rightarrow> string option) \<Rightarrow> (string \<rightharpoonup> 'v) \<Rightarrow> string option \<Rightarrow> string \<times> string \<times> string" where
  "request_span matched to_str headers address =
     (case matched of Some p \<Rightarrow> p | None \<Rightarrow> ''none'',
      case Option.bind (headers REQUEST_ID) to_str of Some ident \<Rightarrow> ident | None \<Rightarrow> '''',
      case address of Some a \<Rightarrow> a | None \<Rightarrow> '''')"

section \<open>Facts on ids and outcomes\<close>

lemma request_id_kept:
  assumes "\<forall>v s. to_str v = Some s \<longrightarrow> from_str s = Some v" "headers REQUEST_ID = Some v" "to_str v = Some s"
  shows "rpc_context_call to_str from_str new_id inner headers =
    (case inner headers of Inl e \<Rightarrow> Inl e
     | Inr response \<Rightarrow> Inr (outcome_of (grpc_code_of to_str response), response(REQUEST_ID \<mapsto> v)))"
proof -
  have "from_str s = Some v" using assms(1,3) by blast
  moreover from this have "stamp from_str s headers = headers"
    using assms(2) by (simp add: stamp_def map_upd_triv)
  ultimately show ?thesis
    using assms(2,3) by (simp add: rpc_context_call_def rpc_request_id_def stamp_def split: sum.split)
qed

text \<open>The number of a status code on the wire.\<close>

fun grpc_number :: "grpc_code \<Rightarrow> int" where
  "grpc_number Code_InvalidArgument = 3"
| "grpc_number Code_NotFound = 5"
| "grpc_number Code_AlreadyExists = 6"
| "grpc_number Code_PermissionDenied = 7"
| "grpc_number Code_Unimplemented = 12"
| "grpc_number Code_Internal = 13"
| "grpc_number Code_Unavailable = 14"
| "grpc_number Code_Unauthenticated = 16"

lemma outcomes_agree:
  "is_server_fault (grpc_number (transport_code_for code)) \<longleftrightarrow>
     (\<exists>n. http_outcome_of (status_for code) = Request_failed n) \<and> code \<noteq> UNIMPLEMENTED"
  by (simp add: is_server_fault_def transport_code_for_def status_for_def http_outcome_of_def)

end
