(* ===== verification/Emailer.thy ===== *)
theory Emailer
  imports Config
begin

text \<open>
  Mails, \<^verbatim>\<open>package/emailer/mod.rs\<close>: a template is filled by replacing each key of a \<open>HashMap\<close> in
  turn, so a map is the list of its entries in the order an iteration happens to visit them. The
  one template is \<^verbatim>\<open>templates/password-reset.html\<close>, which the build embeds. Parsing an address,
  building a message and sending it are lettre's, arguments. \<open>render_mail_fills\<close> shows that a template
  is filled as meant in any order, as long as no value holds a brace.
\<close>

section \<open>Filling a template\<close>

text \<open>\<open>str::replace\<close> of a pattern that is not empty: leftmost matches that do not overlap.\<close>

function str_replace :: "string \<Rightarrow> string \<Rightarrow> string \<Rightarrow> string" where
  "str_replace pat rep [] = []"
| "str_replace pat rep (c # cs) =
     (if take (length pat) (c # cs) = pat then rep @ str_replace pat rep (drop (length pat - 1) cs)
      else c # str_replace pat rep cs)"
  by pat_completeness auto
termination
  by (relation "measure (\<lambda>(_, _, s). length s)") auto

declare str_replace.simps(2) [simp del]

definition placeholder :: "string \<Rightarrow> string" where
  "placeholder key = ''{{'' @ key @ ''}}''"

datatype emailer_error = TemplateNotFound string | Build_failed string | Bad_address string | Transport_failed string

definition render_mail :: "(string \<times> string) list \<Rightarrow> string \<Rightarrow> (string \<times> string) list \<Rightarrow> emailer_error + string" where
  "render_mail templates template_name data =
     (case List.find (\<lambda>(name, _). name = template_name) templates of
        None \<Rightarrow> Inl (TemplateNotFound template_name)
      | Some (_, template) \<Rightarrow>
          Inr (foldl (\<lambda>body (key, value). str_replace (placeholder key) value body) template data))"

section \<open>The template of a recovery mail\<close>

definition password_reset_html :: "string list" where
  "password_reset_html =
    [''<!DOCTYPE html>'',
     ''<html lang=\"en\">'',
     '''',
     ''<head>'',
     ''    <meta charset=\"UTF-8\">'',
     ''    <meta name=\"viewport\" content=\"width=device-width, initial-scale=1.0\">'',
     ''    <title>Password Recovery</title>'',
     ''    <style>'',
     ''        body {'',
     ''            font-family: Arial, Helvetica, sans-serif;'',
     ''            margin: 0;'',
     ''            padding: 0;'',
     ''            background-color: #f9f9f9;'',
     ''        }'',
     '''',
     ''        .container {'',
     ''            max-width: 640px;'',
     ''            margin: 0 auto;'',
     ''        }'',
     '''',
     ''        .image-header {'',
     ''            text-align: center;'',
     ''            padding-bottom: 20px;'',
     ''        }'',
     ''    </style>'',
     ''</head>'',
     '''',
     ''<body>'',
     ''    <!-- Header -->'',
     ''    <div style=\"background-color: #f9f9f9; margin: 50px auto 20px auto; box-shadow: 3px 4px 15px 0 lightgray; border-radius: 5px; max-width: 650px;\">'',
     ''        <!-- Body -->'',
     ''        <div style=\"margin: 0px auto; max-width: 640px; border-radius: 4px; padding: 10px 30px 30px 30px;\">'',
     ''            <div style=\"margin: 0px auto; max-width: 640px; \">'',
     ''                <h2 style=\"text-align: center;\">Resetting your password?</h2>'',
     ''                <!-- <h2 style=\"font-weight: 500; font-size: 20px; color: #4f545c; letter-spacing: 0.27px;\"> Hey {{username}},</h2> -->'',
     ''                <!-- <p style=\"color:#737f8d;font-family:Helvetica Neue,Helvetica,Arial,Lucida Grande,sans-serif;font-size:16px;line-height:24px;text-align:left\">Your password can be reset by clicking the button below. If you did not request a new password, please ignore this email.</p> -->'',
     '''',
     ''                <p style=\"color:#737f8d;font-family:Helvetica Neue,Helvetica,Arial,Lucida Grande,sans-serif;font-size:16px;line-height:24px;text-align:center\">Hey {{username}}, Your password can be reset by clicking the button below. If you did not request a new password, please ignore this email.</p>'',
     '''',
     ''                <div style=\"text-align: center; padding: 20px 0;\">'',
     ''                    <a href=\"{{callbackURI}}\" style=\"background-color: #0073e6; color: #ffffff; border: none; border-radius: 8px; padding: 15px 40px; cursor: pointer; text-decoration: none; \">Reset my password</a>'',
     ''                </div>'',
     ''            </div>'',
     ''        </div>'',
     ''    </div>'',
     ''    <!-- Footer -->'',
     ''    <div style=\"margin: 0px auto; max-width: 640px; background: transparent;\">'',
     ''        <div style=\"text-align: center;\">'',
     ''            <p style=\"font-size: 1=2px; text-align: center; color: #aeaeae;\">This is an automated message, please do not reply.</p>'',
     ''        </div>'',
     ''    </div>'',
     ''</body>'',
     '''',
     ''</html>'',
     '''']"

definition TEMPLATES :: "(string \<times> string) list" where
  "TEMPLATES = [(''password-reset'', join [CHR 0x0A] password_reset_html)]"

section \<open>Sending\<close>

record 'a mailer =
  ml_from :: string
  ml_parse :: "string \<Rightarrow> emailer_error + 'a"
  ml_transport :: "'a \<Rightarrow> 'a \<Rightarrow> string \<Rightarrow> string \<Rightarrow> emailer_error + unit"

definition smtp_from :: "string \<Rightarrow> string \<Rightarrow> string" where
  "smtp_from from_name from_address = from_name @ '' <'' @ from_address @ ''>''"

record smtp_settings =
  sm_host :: string
  sm_port :: u16
  sm_credentials :: "(string \<times> string) option"
  sm_from :: string

definition smtp_new :: "mail_config \<Rightarrow> smtp_settings" where
  "smtp_new cfg =
     \<lparr>sm_host = mc_host cfg, sm_port = mc_port cfg,
      sm_credentials = (if mc_username cfg \<noteq> '''' then Some (mc_username cfg, mc_password cfg) else None),
      sm_from = smtp_from (mc_from_name cfg) (mc_from_address cfg)\<rparr>"

text \<open>The builder is given the sender first, so its address is parsed first.\<close>

definition smtp_send_html ::
  "(string \<times> string) list \<Rightarrow> 'a mailer \<Rightarrow> string \<Rightarrow> string \<Rightarrow> string \<Rightarrow> (string \<times> string) list \<Rightarrow> emailer_error + unit" where
  "smtp_send_html templates m to subject template_name data =
     (case render_mail templates template_name data of
        Inl e \<Rightarrow> Inl e
      | Inr body \<Rightarrow>
          (case ml_parse m (ml_from m) of
             Inl e \<Rightarrow> Inl e
           | Inr sender \<Rightarrow>
               (case ml_parse m to of
                  Inl e \<Rightarrow> Inl e
                | Inr receiver \<Rightarrow> ml_transport m sender receiver subject body)))"

section \<open>A template as literals and slots\<close>

datatype piece = Lit string | Slot string

fun piece_text :: "piece \<Rightarrow> string" where
  "piece_text (Lit s) = s"
| "piece_text (Slot key) = placeholder key"

definition template_text :: "piece list \<Rightarrow> string" where
  "template_text ps = concat (map piece_text ps)"

definition no_brace :: "string \<Rightarrow> bool" where
  "no_brace s = list_all (\<lambda>c. c \<noteq> CHR ''{'' \<and> c \<noteq> CHR ''}'') s"

text \<open>A literal may hold a brace, but no two opening ones in a row and none at its end.\<close>

fun open_free :: "string \<Rightarrow> bool" where
  "open_free [] = True"
| "open_free [c] = (c \<noteq> CHR ''{'')"
| "open_free (c # d # cs) = (\<not> (c = CHR ''{'' \<and> d = CHR ''{'') \<and> open_free (d # cs))"

fun clean_piece :: "piece \<Rightarrow> bool" where
  "clean_piece (Lit s) = open_free s"
| "clean_piece (Slot key) = no_brace key"

fun fill1 :: "string \<Rightarrow> string \<Rightarrow> piece \<Rightarrow> piece" where
  "fill1 key value (Slot k) = (if k = key then Lit value else Slot k)"
| "fill1 key value (Lit s) = Lit s"

fun fill :: "(string \<times> string) list \<Rightarrow> piece \<Rightarrow> piece" where
  "fill data (Slot k) = (case map_of data k of Some v \<Rightarrow> Lit v | None \<Rightarrow> Slot k)"
| "fill data (Lit s) = Lit s"

lemma open_free_tl: "open_free (c # s) \<Longrightarrow> open_free s"
  by (cases s) auto

lemma no_brace_open_free: "no_brace s \<Longrightarrow> open_free s"
  by (induction s rule: open_free.induct) (auto simp: no_brace_def)

lemma no_match:
  "take (length (placeholder key)) s = placeholder key \<Longrightarrow> \<exists>r. s = CHR ''{'' # CHR ''{'' # r"
  by (cases s; cases "tl s") (auto simp: placeholder_def)

lemma str_replace_other:
  "(\<And>r. c # s \<noteq> CHR ''{'' # CHR ''{'' # r) \<Longrightarrow>
     str_replace (placeholder key) v (c # s) = c # str_replace (placeholder key) v s"
  by (metis no_match str_replace.simps(2))

lemma str_replace_literal:
  "open_free u \<Longrightarrow> str_replace (placeholder key) v (u @ s) = u @ str_replace (placeholder key) v s"
proof (induction u rule: open_free.induct)
  case (2 c)
  then show ?case by (simp add: str_replace_other)
next
  case (3 c d cs)
  then show ?case using str_replace_other [of c "d # cs @ s" key v] by auto
qed simp

lemma prefix_until: "p \<notin> set u \<Longrightarrow> p \<notin> set v \<Longrightarrow> take (Suc (length u)) (v @ p # w) = u @ [p] \<Longrightarrow> u = v"
proof (induction u arbitrary: v)
  case Nil
  then show ?case by (cases v) auto
next
  case (Cons c u)
  then show ?case by (cases v) auto
qed

lemma str_replace_slot:
  assumes "no_brace k" "no_brace key"
  shows "str_replace (placeholder key) v (placeholder k @ s) =
    (if k = key then v else placeholder k) @ str_replace (placeholder key) v s"
proof (cases "k = key")
  case True
  have "str_replace (placeholder key) v (CHR ''{'' # CHR ''{'' # key @ ''}}'' @ s) =
      v @ str_replace (placeholder key) v (drop (length (placeholder key) - 1) (CHR ''{'' # key @ ''}}'' @ s))"
    by (subst str_replace.simps(2)) (simp add: placeholder_def)
  then show ?thesis using True by (simp add: placeholder_def)
next
  case False
  have braces: "CHR ''}'' \<notin> set k" "CHR ''}'' \<notin> set key" using assms by (auto simp: no_brace_def list_all_iff)
  have "take (length (placeholder key)) (placeholder k @ s) \<noteq> placeholder key"
  proof
    assume eq: "take (length (placeholder key)) (placeholder k @ s) = placeholder key"
    define x where "x = k @ CHR ''}'' # CHR ''}'' # s"
    have "take (length key + 2) x = key @ ''}}''"
      using eq by (simp add: placeholder_def x_def)
    then have "take (Suc (length key)) (take (length key + 2) x) = key @ ''}''"
      by simp
    then have "take (Suc (length key)) x = key @ ''}''" by (simp add: min_def)
    then show False using prefix_until [OF braces(2,1), of "CHR ''}'' # s"] False unfolding x_def by simp
  qed
  then have "str_replace (placeholder key) v (placeholder k @ s) =
      CHR ''{'' # str_replace (placeholder key) v (CHR ''{'' # k @ ''}}'' @ s)"
    by (simp add: placeholder_def str_replace.simps(2))
  also have "\<dots> = CHR ''{'' # CHR ''{'' # str_replace (placeholder key) v ((k @ ''}}'') @ s)"
    using assms(1) by (subst str_replace_other) (auto simp: no_brace_def append_eq_Cons_conv)
  also have "open_free (k @ ''}}'')"
    using no_brace_open_free [OF assms(1)] by (induction k rule: open_free.induct) auto
  then have "str_replace (placeholder key) v ((k @ ''}}'') @ s) = (k @ ''}}'') @ str_replace (placeholder key) v s"
    by (rule str_replace_literal)
  finally show ?thesis using False by (simp add: placeholder_def)
qed

lemma str_replace_template:
  "list_all clean_piece ps \<Longrightarrow> no_brace key \<Longrightarrow>
     str_replace (placeholder key) v (template_text ps) = template_text (map (fill1 key v) ps)"
proof (induction ps)
  case (Cons p ps)
  then show ?case
    by (cases p) (simp_all add: template_text_def str_replace_literal str_replace_slot)
qed (simp add: template_text_def)

lemma clean_fill1: "clean_piece p \<Longrightarrow> no_brace v \<Longrightarrow> clean_piece (fill1 key v p)"
  by (cases p) (simp_all add: no_brace_open_free)

lemma fill_Cons: "no_brace v \<Longrightarrow> clean_piece p \<Longrightarrow> fill data (fill1 key v p) = fill ((key, v) # data) p"
  by (cases p) auto

lemma render_template:
  assumes "list_all clean_piece ps" "list_all (\<lambda>(k, v). no_brace k \<and> no_brace v) data"
  shows "foldl (\<lambda>body (key, value). str_replace (placeholder key) value body) (template_text ps) data =
    template_text (map (fill data) ps)"
  using assms
proof (induction data arbitrary: ps)
  case Nil
  have "fill [] = id" by (rule ext, rename_tac p, case_tac p) simp_all
  then show ?case by simp
next
  case (Cons x data)
  obtain key v where x: "x = (key, v)" by (cases x)
  have "list_all clean_piece (map (fill1 key v) ps)"
    using Cons.prems clean_fill1 by (auto simp: x list_all_iff)
  moreover have "map (fill data) (map (fill1 key v) ps) = map (fill ((key, v) # data)) ps"
    using Cons.prems by (auto simp: x fill_Cons list_all_iff)
  moreover have "str_replace (placeholder key) v (template_text ps) = template_text (map (fill1 key v) ps)"
    using Cons.prems by (intro str_replace_template) (simp_all add: x)
  ultimately show ?case using Cons.IH [of "map (fill1 key v) ps"] Cons.prems(2) by (simp only: x foldl.simps prod.case list.pred_inject)
qed

lemma render_mail_fills:
  assumes "(name, template_text ps) \<in> set templates" "distinct (map fst templates)" "list_all clean_piece ps"
    and "list_all (\<lambda>(k, v). no_brace k \<and> no_brace v) data"
  shows "render_mail templates name data = Inr (template_text (map (fill data) ps))"
proof -
  have "List.find (\<lambda>(n, _). n = name) templates = Some (name, template_text ps)"
    using assms(1,2) by (induction templates) (auto simp: image_iff)
  then show ?thesis using render_template [OF assms(3,4)] by (simp add: render_mail_def)
qed

lemma render_mail_any_order:
  assumes "set data' = set data" "distinct (map fst data')" "distinct (map fst data)"
  shows "template_text (map (fill data') ps) = template_text (map (fill data) ps)"
proof -
  have same: "map_of data' = map_of data" using assms map_of_eqI [of data' data] by (metis map_of_inject_set)
  have "fill data' = fill data"
  proof
    show "fill data' p = fill data p" for p by (cases p) (simp_all add: same)
  qed
  then show ?thesis by (rule arg_cong [where f = "\<lambda>f. template_text (map f ps)"])
qed

lemma render_mail_order:
  assumes "(name, template_text ps) \<in> set templates" "distinct (map fst templates)" "list_all clean_piece ps"
    and "list_all (\<lambda>(k, v). no_brace k \<and> no_brace v) data" "distinct (map fst data)"
    and "set order = set data" "distinct (map fst order)"
  shows "render_mail templates name order = Inr (template_text (map (fill data) ps))"
proof -
  have "list_all (\<lambda>(k, v). no_brace k \<and> no_brace v) order" using assms(4,6) by (simp add: list_all_iff)
  with assms(1-3) have "render_mail templates name order = Inr (template_text (map (fill order) ps))"
    by (rule render_mail_fills)
  then show ?thesis using render_mail_any_order [OF assms(6,7,5)] by simp
qed

end
