(* ===== verification/Recovery_Mail.thy ===== *)
theory Recovery_Mail
  imports Emailer Auth_Correct
begin

text \<open>
  The mail of a password recovery: what the auth service hands to the mailer, filled into the
  template, is the template with the name of the user and the link in their places.
\<close>

section \<open>The template cut at its slots\<close>

definition reset_head :: string where
  "reset_head = join [CHR 0x0A] (take 34 password_reset_html @ [''                <!-- <h2 style=\"font-weight: 500; font-size: 20px; color: #4f545c; letter-spacing: 0.27px;\"> Hey ''])"

definition reset_middle :: string where
  "reset_middle = join [CHR 0x0A] (['',</h2> -->''] @ take 2 (drop 35 password_reset_html) @ [''                <p style=\"color:#737f8d;font-family:Helvetica Neue,Helvetica,Arial,Lucida Grande,sans-serif;font-size:16px;line-height:24px;text-align:center\">Hey ''])"

definition reset_button :: string where
  "reset_button = join [CHR 0x0A] (['', Your password can be reset by clicking the button below. If you did not request a new password, please ignore this email.</p>''] @ take 2 (drop 38 password_reset_html) @ [''                    ''])"

definition reset_tail :: string where
  "reset_tail = join [CHR 0x0A] (['' style=\"background-color: #0073e6; color: #ffffff; border: none; border-radius: 8px; padding: 15px 40px; cursor: pointer; text-decoration: none; \">Reset my password</a>''] @ drop 41 password_reset_html)"

definition reset_pieces :: "piece list" where
  "reset_pieces = [Lit reset_head, Slot ''username'', Lit reset_middle, Slot ''username'',
     Lit (reset_button @ ''<a href=\"''), Slot ''callbackURI'', Lit (''\"'' @ reset_tail)]"

lemma reset_pieces_text: "template_text reset_pieces = join [CHR 0x0A] password_reset_html"
  by code_simp

lemma reset_pieces_clean: "list_all clean_piece reset_pieces"
  by code_simp

lemma templates_cut:
  "TEMPLATES = [(''password-reset'', reset_head @ ''{{username}}'' @ reset_middle @ ''{{username}}'' @ reset_button @
     ''<a href=\"{{callbackURI}}\"'' @ reset_tail)]"
  unfolding TEMPLATES_def reset_pieces_text [symmetric] by (simp add: reset_pieces_def template_text_def placeholder_def)

lemma reset_body:
  assumes "no_brace name" "no_brace uri"
    and "set order = set [(''username'', name), (''callbackURI'', uri)]" "distinct (map fst order)"
  shows "render_mail TEMPLATES ''password-reset'' order =
    Inr (reset_head @ name @ reset_middle @ name @ reset_button @ ''<a href=\"'' @ uri @ ''\"'' @ reset_tail)"
proof -
  have "render_mail TEMPLATES ''password-reset'' order =
      Inr (template_text (map (fill [(''username'', name), (''callbackURI'', uri)]) reset_pieces))"
    using reset_pieces_clean _ _ assms(3,4)
    by (rule render_mail_order [rotated 2]) (use assms in \<open>simp_all add: TEMPLATES_def reset_pieces_text no_brace_def\<close>)
  then show ?thesis by (simp add: reset_pieces_def template_text_def)
qed

lemma recovery_mail:
  assumes "password_recovery svc rq email uri w = (Inr x, w')"
    and "no_brace uri" "no_brace (random_token (as_crypto svc) (rq_bytes rq))"
    and "\<forall>r \<in> set (db_users (w_iam w)). us_email r = email \<longrightarrow> no_brace (us_user_name r)"
  shows "\<exists>m r a b c d. w_outbox w' = w_outbox w @ [m] \<and> mail_to m = email \<and>
    r \<in> set (db_users (w_iam w)) \<and> us_email r = email \<and>
    TEMPLATES = [(mail_template m,
      a @ ''{{username}}'' @ b @ ''{{username}}'' @ c @ ''<a href=\"{{callbackURI}}\"'' @ d)] \<and>
    (\<forall>order. set order = set (mail_data m) \<and> distinct (map fst order) \<longrightarrow>
      render_mail TEMPLATES (mail_template m) order =
        Inr (a @ us_user_name r @ b @ us_user_name r @ c @ ''<a href=\"'' @ uri @
          random_token (as_crypto svc) (rq_bytes rq) @ ''\"'' @ d))"
proof -
  let ?token = "random_token (as_crypto svc) (rq_bytes rq)"
  define m where "m user = \<lparr>mail_to = email, mail_subject = ''Password Recovery'', mail_template = ''password-reset'',
      mail_data = [(''username'', us_user_name user), (''callbackURI'', uri @ ?token)]\<rparr>" for user :: user_row
  obtain r where r: "r \<in> set (db_users (w_iam w))" "us_email r = email" "w_outbox w' = w_outbox w @ [m r]"
    using recovery_effects [OF assms(1)] unfolding m_def by blast
  have braces: "no_brace (us_user_name r)" "no_brace (uri @ ?token)"
    using r(1,2) assms(2-4) by (auto simp: no_brace_def)
  have "render_mail TEMPLATES (mail_template (m r)) order =
      Inr (reset_head @ us_user_name r @ reset_middle @ us_user_name r @ reset_button @ ''<a href=\"'' @ uri @ ?token @ ''\"'' @ reset_tail)"
    if "set order = set (mail_data (m r))" "distinct (map fst order)" for order
    using reset_body [OF braces, of order] that by (simp add: m_def)
  moreover have "mail_to (m r) = email" "mail_template (m r) = ''password-reset''" by (simp_all add: m_def)
  ultimately show ?thesis using r templates_cut by metis
qed

end
