(* ===== verification/Sql_Lex.thy ===== *)
theory Sql_Lex
  imports Sql_Scan
begin

text \<open>
  The scanner of \<open>Sql_Scan\<close> seen as a function on text: a text is chopped into lexemes from the
  left, and the statements and layout hints are read off the list of lexemes. \<open>scan_lexemes\<close>
  shows that this is what the scanner computes; \<open>lexes\<close> then gives the rules by which the lexemes
  of a script are found piece by piece.
\<close>

section \<open>Chopping a text into lexemes\<close>

datatype lexeme = LToken token | LLine string | LEnd

definition first_lexeme :: "string \<Rightarrow> lexeme list \<times> nat" where
  "first_lexeme rest =
     (let c = hd rest in
      if c = CHR '';'' then ([LEnd], 1)
      else if c = CHR ''-'' \<and> looks_at ''--'' rest then
        (let line = takeWhile (\<lambda>c. c \<noteq> CHR 0x0A) rest in ([LLine line], length line))
      else if c = CHR ''/'' \<and> looks_at ''/*'' rest then ([], block_length 0 rest)
      else if c = CHR 0x27 then
        (let (v, n) = quoted_loop (CHR 0x27) (tl rest) in ([LToken (TText v)], 1 + n))
      else if c = CHR ''\"'' then
        (let (v, n) = quoted_loop (CHR ''\"'') (tl rest) in ([LToken (TQuoted v)], 1 + n))
      else if c = CHR ''$'' \<and> dollar_tag_loop (tl rest) \<noteq> None then
        (let d = ''$'' @ the (dollar_tag_loop (tl rest)) @ ''$'';
             v = until_delimiter d (drop (length d) rest)
         in ([LToken (TText v)], length d + length v + length d))
      else if is_whitespace c then ([], 1)
      else if is_ascii_digit c then
        (let v = takeWhile (\<lambda>c. is_ascii_digit c \<or> c = CHR ''.'') rest
         in ([LToken (TNumber v)], length v))
      else if is_name_start c then
        (let v = takeWhile is_name_char rest in ([LToken (TWord (to_lowercase v))], length v))
      else ([LToken (TPunct c)], 1))"

lemma looks_at_length: "looks_at p rest \<Longrightarrow> length p \<le> length rest"
  unfolding looks_at_def by (metis length_take min.absorb_iff2 min.cobounded2)

lemma first_lexeme_moves: "rest \<noteq> [] \<Longrightarrow> 0 < snd (first_lexeme rest)"
  by (cases rest)
    (auto simp: first_lexeme_def Let_def block_length_pos is_name_start_char split: prod.splits)

function lexemes :: "string \<Rightarrow> lexeme list" where
  "lexemes rest =
     (if rest = [] then []
      else fst (first_lexeme rest) @ lexemes (drop (snd (first_lexeme rest)) rest))"
  by auto

termination
  by (relation "measure length") (auto simp: first_lexeme_moves)

declare lexemes.simps [simp del]

lemma lexemes_Nil [simp]: "lexemes [] = []"
  by (simp add: lexemes.simps)

section \<open>What the lexemes amount to\<close>

type_synonym scan_view = "token list \<times> token list list \<times> layout_hint list"

fun absorb :: "lexeme \<Rightarrow> scan_view \<Rightarrow> scan_view" where
  "absorb (LToken t) (ts, sts, hs) = (ts @ [t], sts, hs)"
| "absorb LEnd (ts, sts, hs) = ([], if ts = [] then sts else sts @ [ts], hs)"
| "absorb (LLine line) (ts, sts, hs) =
     (ts, sts, case read_layout_hint line of
                 None \<Rightarrow> hs
               | Some h \<Rightarrow> hs @ [if ts = [] then h\<lparr>above := Some (length sts)\<rparr> else h])"

definition scan_view :: "scanner \<Rightarrow> scan_view" where
  "scan_view s = (sc_tokens s, map st_tokens (sc_statements s), sc_hints s)"

lemma scan_view_fields [simp]:
  "scan_view (s\<lparr>token_at := i\<rparr>) = scan_view s" "scan_view (s\<lparr>sc_at := i\<rparr>) = scan_view s"
  "scan_view (advance n s) = scan_view s"
  "scan_view (push_token t s) = absorb (LToken t) (scan_view s)"
  "scan_view (finish s) = absorb LEnd (scan_view s)"
  by (simp_all add: scan_view_def finish_def)

lemma remaining_fields [simp]:
  "remaining (s\<lparr>token_at := i\<rparr>) = remaining s"
  "remaining (advance n s) = drop n (remaining s)"
  "remaining (push_token t s) = remaining s"
  "remaining (finish s) = remaining s"
  by (simp_all add: remaining_def add.commute)

lemma line_comment_view:
  "scan_view (line_comment s) = absorb (LLine (takeWhile (\<lambda>c. c \<noteq> CHR 0x0A) (remaining s))) (scan_view s)"
  by (simp add: line_comment_def Let_def scan_view_def split: option.split)

lemma line_comment_remaining:
  "remaining (line_comment s) = drop (length (takeWhile (\<lambda>c. c \<noteq> CHR 0x0A) (remaining s))) (remaining s)"
  by (simp add: line_comment_def Let_def remaining_def add.commute split: option.split)

lemma dollar_quoted_lexeme:
  assumes "dollar_tag s = Some tag"
  defines "d \<equiv> ''$'' @ tag @ ''$''"
  defines "v \<equiv> until_delimiter d (drop (length d) (remaining s))"
  shows "scan_view (dollar_quoted s) = absorb (LToken (TText v)) (scan_view s)"
    "remaining (dollar_quoted s) = drop (length d + length v + length d) (remaining s)"
  using assms(1)
  by (simp_all add: dollar_quoted_def Let_def d_def v_def remaining_def add_ac min_def)

lemma if_image:
  "(b \<Longrightarrow> f x = g u) \<Longrightarrow> (\<not> b \<Longrightarrow> f y = g v) \<Longrightarrow> f (if b then x else y) = g (if b then u else v)"
  by simp

lemma scan_step_lexeme:
  assumes "remaining s = c # cs"
  shows "scan_view (scan_step c s) = fold absorb (fst (first_lexeme (c # cs))) (scan_view s)"
    and "remaining (scan_step c s) = drop (snd (first_lexeme (c # cs))) (c # cs)"
proof -
  let ?s = "s\<lparr>token_at := sc_at s\<rparr>"
  have rest: "remaining ?s = c # cs" using assms by simp
  then have tag: "dollar_tag ?s = dollar_tag_loop cs" by (simp add: dollar_tag_def)
  note step = scan_step_def first_lexeme_def Let_def list.sel rest tag
  note pieces = line_comment_view line_comment_remaining block_comment_def scan_quoted_def
    scan_number_def scan_word_def assms Let_def
  show "scan_view (scan_step c s) = fold absorb (fst (first_lexeme (c # cs))) (scan_view s)"
    unfolding step
    by (intro if_image [where f = scan_view and g = "\<lambda>x. fold absorb (fst x) (scan_view s)"])
      (auto simp add: pieces dollar_quoted_lexeme(1) tag case_prod_beta)
  show "remaining (scan_step c s) = drop (snd (first_lexeme (c # cs))) (c # cs)"
    unfolding step
    by (intro if_image [where f = remaining and g = "\<lambda>x. drop (snd x) (c # cs)"])
      (auto simp add: pieces dollar_quoted_lexeme(2) tag case_prod_beta)
qed

lemma scan_run_lexemes:
  "(let (sts, hs) = scan_run s in (map st_tokens sts, hs)) =
     snd (absorb LEnd (fold absorb (lexemes (remaining s)) (scan_view s)))"
proof (induction s rule: scan_run.induct)
  case (1 s)
  show ?case
  proof (cases "sc_at s < length (sc_chars s)")
    case True
    define c where "c = sc_chars s ! sc_at s"
    have rest: "remaining s = c # drop (Suc (sc_at s)) (sc_chars s)"
      using True by (simp add: remaining_def c_def Cons_nth_drop_Suc)
    have "fold absorb (lexemes (remaining s)) (scan_view s) =
        fold absorb (lexemes (remaining (scan_step c s))) (scan_view (scan_step c s))"
      using scan_step_lexeme [OF rest] rest by (subst lexemes.simps) simp
    then show ?thesis using 1 True by (subst scan_run.simps) (simp add: c_def)
  next
    case False
    then have "scan_run s = (sc_statements (finish s), sc_hints (finish s))" "remaining s = []"
      by (simp_all add: scan_run.simps remaining_def Let_def)
    then show ?thesis using scan_view_fields(5) [of s] by (simp add: scan_view_def)
  qed
qed

lemma scan_lexemes:
  "map st_tokens (fst (scan sql)) = fst (snd (absorb LEnd (fold absorb (lexemes sql) ([], [], []))))"
  "snd (scan sql) = snd (snd (absorb LEnd (fold absorb (lexemes sql) ([], [], []))))"
  using scan_run_lexemes [of "scanner_new sql"]
  by (simp_all add: scan_def scanner_new_def remaining_def scan_view_def case_prod_beta Let_def prod_eq_iff)

section \<open>The lexemes of a piece of text inside a longer one\<close>

definition lexes :: "string \<Rightarrow> lexeme list \<Rightarrow> string \<Rightarrow> bool" where
  "lexes u ls w \<longleftrightarrow> lexemes (u @ w) = ls @ lexemes w"

named_theorems lexing \<open>the lexemes of the pieces a script is made of\<close>

lemma lexes_Nil [lexing]: "lexes [] [] w"
  by (simp add: lexes_def)

lemma lexes_append: "lexes u ls (v @ w) \<Longrightarrow> lexes v ms w \<Longrightarrow> lexes (u @ v) (ls @ ms) w"
  by (simp add: lexes_def)

lemma lexes_chop: "first_lexeme (u @ w) = (ls, length u) \<Longrightarrow> u \<noteq> [] \<Longrightarrow> lexes u ls w"
  unfolding lexes_def by (subst lexemes.simps) simp

text \<open>What may follow a word, a number or a character that is a token by itself.\<close>

definition starts :: "(char \<Rightarrow> bool) \<Rightarrow> string \<Rightarrow> bool" where
  "starts p w = (case w of [] \<Rightarrow> False | c # _ \<Rightarrow> p c)"

lemma starts_simps [simp]: "starts p [] = False" "starts p (c # w) = p c"
  by (simp_all add: starts_def)

lemma takeWhile_stops: "list_all p u \<Longrightarrow> \<not> starts p w \<Longrightarrow> takeWhile p (u @ w) = u"
  by (induction u) (cases w; simp)+

definition punctuation :: "char \<Rightarrow> bool" where
  "punctuation c = (c \<noteq> CHR '';'' \<and> c \<noteq> CHR 0x27 \<and> c \<noteq> CHR ''\"'' \<and> \<not> is_whitespace c
     \<and> \<not> is_ascii_digit c \<and> \<not> is_name_start c)"

definition lone :: "char \<Rightarrow> string \<Rightarrow> bool" where
  "lone c w = ((c = CHR ''-'' \<longrightarrow> \<not> starts (\<lambda>d. d = CHR ''-'') w)
     \<and> (c = CHR ''/'' \<longrightarrow> \<not> starts (\<lambda>d. d = CHR ''*'') w)
     \<and> (c = CHR ''$'' \<longrightarrow> dollar_tag_loop w = None))"

lemma looks_at_two: "looks_at [a, b] (c # w) \<longleftrightarrow> c = a \<and> starts (\<lambda>d. d = b) w"
  by (cases w) (auto simp: looks_at_def)

lemma lexes_punct:
  assumes "punctuation c" "lone c w"
  shows "lexes [c] [LToken (TPunct c)] w"
proof -
  have "\<not> (c = CHR ''-'' \<and> looks_at ''--'' (c # w))" "\<not> (c = CHR ''/'' \<and> looks_at ''/*'' (c # w))"
    "\<not> (c = CHR ''$'' \<and> dollar_tag_loop w \<noteq> None)"
    using assms(2) unfolding lone_def looks_at_two by blast+
  then have "first_lexeme (c # w) = ([LToken (TPunct c)], 1)"
    using assms(1) unfolding punctuation_def first_lexeme_def Let_def list.sel by simp
  then show ?thesis by (intro lexes_chop) simp_all
qed

lemma lexes_end [lexing]: "lexes '';'' [LEnd] w"
  by (rule lexes_chop) (simp_all add: first_lexeme_def)

lemma space_is_plain:
  "is_whitespace c \<Longrightarrow> c \<noteq> CHR '';'' \<and> c \<noteq> CHR ''-'' \<and> c \<noteq> CHR ''/'' \<and> c \<noteq> CHR 0x27 \<and> c \<noteq> CHR ''\"'' \<and> c \<noteq> CHR ''$''"
  by (auto simp: is_whitespace_def code_point_def)

lemma lexes_space1: "is_whitespace c \<Longrightarrow> lexes [c] [] w"
  using space_is_plain [of c] by (intro lexes_chop) (auto simp: first_lexeme_def)

lemma lexes_space: "list_all is_whitespace u \<Longrightarrow> lexes u [] w"
proof (induction u)
  case (Cons c u)
  then show ?case using lexes_append [of "[c]" "[]" u w "[]"] lexes_space1 by simp
qed (simp add: lexing)

lemma digit_is_plain:
  "is_ascii_digit c \<Longrightarrow> c \<noteq> CHR '';'' \<and> c \<noteq> CHR ''-'' \<and> c \<noteq> CHR ''/'' \<and> c \<noteq> CHR 0x27 \<and> c \<noteq> CHR ''\"'' \<and> c \<noteq> CHR ''$''
     \<and> \<not> is_whitespace c"
  by (auto simp: is_ascii_digit_def is_whitespace_def code_point_def Let_def)

definition number_char :: "char \<Rightarrow> bool" where
  "number_char c = (is_ascii_digit c \<or> c = CHR ''.'')"

lemma lexes_number:
  assumes "starts is_ascii_digit u" "list_all number_char u" "\<not> starts number_char w"
  shows "lexes u [LToken (TNumber u)] w"
proof (rule lexes_chop)
  show "u \<noteq> []" using assms(1) by auto
  then obtain c cs where u: "u = c # cs" by (cases u) auto
  have "takeWhile (\<lambda>c. is_ascii_digit c \<or> c = CHR ''.'') (u @ w) = u"
    using takeWhile_stops [OF assms(2,3)] by (simp add: number_char_def [abs_def])
  then show "first_lexeme (u @ w) = ([LToken (TNumber u)], length u)"
    using assms(1) digit_is_plain [of c] by (auto simp: first_lexeme_def u Let_def)
qed

lemma name_is_plain:
  "is_name_start c \<Longrightarrow> c \<noteq> CHR '';'' \<and> c \<noteq> CHR ''-'' \<and> c \<noteq> CHR ''/'' \<and> c \<noteq> CHR 0x27 \<and> c \<noteq> CHR ''\"'' \<and> c \<noteq> CHR ''$''
     \<and> \<not> is_whitespace c \<and> \<not> is_ascii_digit c"
  by (auto simp: is_name_start_def is_alphabetic_def is_uppercase_def is_lowercase_def is_ascii_digit_def
      is_whitespace_def code_point_def Let_def)

lemma lexes_word:
  assumes "starts is_name_start u" "list_all is_name_char u" "\<not> starts is_name_char w"
  shows "lexes u [LToken (TWord (to_lowercase u))] w"
proof (rule lexes_chop)
  show "u \<noteq> []" using assms(1) by auto
  then obtain c cs where u: "u = c # cs" by (cases u) auto
  then show "first_lexeme (u @ w) = ([LToken (TWord (to_lowercase u))], length u)"
    using assms(1) name_is_plain [of c] takeWhile_stops [OF assms(2,3)] by (auto simp: first_lexeme_def Let_def)
qed

lemma quoted_loop_replace:
  "\<not> starts (\<lambda>c. c = q) w \<Longrightarrow>
     quoted_loop q (replace_char q [q, q] v @ q # w) = (v, Suc (length (replace_char q [q, q] v)))"
proof (induction v)
  case Nil
  then show ?case by (cases w) (simp_all add: replace_char_def)
next
  case (Cons c v)
  let ?r = "replace_char q [q, q] v @ q # w"
  obtain d r where r: "?r = d # r" by (cases ?r) auto
  have "quoted_loop q (c # ?r) = (let (v, n) = quoted_loop q ?r in (c # v, n + 1))" if "c \<noteq> q"
    using that r by simp
  then show ?case using Cons by (simp add: replace_char_def)
qed

lemma lexes_text [lexing]:
  "\<not> starts (\<lambda>c. c = CHR 0x27) w \<Longrightarrow>
     lexes ([CHR 0x27] @ replace_char (CHR 0x27) [CHR 0x27, CHR 0x27] v @ [CHR 0x27]) [LToken (TText v)] w"
  by (rule lexes_chop) (simp_all add: first_lexeme_def quoted_loop_replace Let_def)

lemma lexes_name [lexing]:
  "\<not> starts (\<lambda>c. c = CHR ''\"'') w \<Longrightarrow>
     lexes (''\"'' @ replace_char (CHR ''\"'') ''\"\"'' v @ ''\"'') [LToken (TQuoted v)] w"
  by (rule lexes_chop) (simp_all add: first_lexeme_def quoted_loop_replace Let_def)

lemma lexes_line:
  assumes "CHR 0x0A \<notin> set u" "w = [] \<or> starts (\<lambda>c. c = CHR 0x0A) w"
  shows "lexes (''--'' @ u) [LLine (''--'' @ u)] w"
proof (rule lexes_chop)
  have "takeWhile (\<lambda>c. c \<noteq> CHR 0x0A) ((''--'' @ u) @ w) = ''--'' @ u"
    using assms by (intro takeWhile_stops) (auto simp: list_all_iff starts_def split: list.splits)
  then show "first_lexeme ((''--'' @ u) @ w) = ([LLine (''--'' @ u)], length (''--'' @ u))"
    by (simp add: first_lexeme_def Let_def looks_at_def)
qed simp

end
