(* ===== verification/Script_Lex.thy ===== *)
theory Script_Lex
  imports Sql_Lex Sql_Table Generator
begin

text \<open>
  What the scanner makes of a generated script. Each statement of the generator has the tokens it
  is meant to have: \<open>lexemes_generate\<close> shows that a script is scanned into exactly these
  statements, whatever its names and descriptions hold, as long as no table name breaks the line
  that carries its position and every default value is written the way the reader renders one.
\<close>

section \<open>Rendered tokens\<close>

text \<open>The separators of a script: what may follow a word, a number or an expression.\<close>

definition separator :: "char \<Rightarrow> bool" where
  "separator c = (c \<in> {CHR '' '', CHR '','', CHR ''('', CHR '')'', CHR 0x0A})"

definition delimited :: "string \<Rightarrow> bool" where
  "delimited w = (w = [] \<or> starts separator w)"

lemma separator_is_plain:
  "separator c \<Longrightarrow> \<not> is_name_char c \<and> \<not> number_char c \<and> c \<noteq> CHR ''-'' \<and> c \<noteq> CHR ''*'' \<and> c \<noteq> CHR ''$''
     \<and> c \<noteq> CHR 0x27 \<and> c \<noteq> CHR ''\"''"
  by (auto simp: separator_def number_char_def is_name_char_def text_simps)

lemma delimited_plain:
  assumes "delimited w"
  shows "\<not> starts is_name_char w" "\<not> starts number_char w" "\<not> starts (\<lambda>c. c = CHR 0x27) w"
    "\<not> starts (\<lambda>c. c = CHR ''\"'') w" "lone c w"
  using assms separator_is_plain by (cases w; auto simp: delimited_def lone_def)+

lemma delimited_simps [simp]:
  "delimited []" "delimited (CHR '' '' # w)" "delimited (CHR '','' # w)" "delimited (CHR ''('' # w)"
  "delimited (CHR '')'' # w)" "delimited (CHR 0x0A # w)"
  by (simp_all add: delimited_def separator_def)

text \<open>The tokens a scan can give, in the spelling it gives them.\<close>

fun lexical :: "token \<Rightarrow> bool" where
  "lexical (TWord v) = (starts is_name_start v \<and> list_all is_name_char v \<and> to_lowercase v = v)"
| "lexical (TNumber v) = (starts is_ascii_digit v \<and> list_all number_char v)"
| "lexical (TPunct c) = punctuation c"
| "lexical _ = True"

lemma lexes_piece:
  assumes "lexical t" "delimited w"
  shows "lexes (render_piece t) [LToken t] w"
proof (cases t)
  case (TWord v)
  then show ?thesis using assms lexes_word [of v w] delimited_plain(1) by simp
next
  case (TNumber v)
  then show ?thesis using assms lexes_number [of v w] delimited_plain(2) by simp
next
  case (TPunct c)
  then show ?thesis using assms lexes_punct [of c w] delimited_plain(5) by simp
qed (use assms in \<open>simp_all add: lexes_text [simplified] lexes_name [simplified] delimited_plain\<close>)

lemma lexes_open: "lexes ''('' [LToken (TPunct (CHR ''(''))] w"
  by (rule lexes_punct) (simp_all add: punctuation_def lone_def is_name_start_def text_simps)

lemma lower_char_keeps:
  "is_name_char c \<Longrightarrow> is_name_char (lower_char c)" "is_name_start c \<Longrightarrow> is_name_start (lower_char c)"
  "lower_char (lower_char c) = lower_char c"
proof -
  have cp: "code_point (lower_char c) = (if is_uppercase c then code_point c + 32 else code_point c)"
    by (auto simp: lower_char_def code_point_def is_uppercase_def Let_def)
  show low: "lower_char (lower_char c) = lower_char c"
    using cp by (auto simp: lower_char_def [of "lower_char c"] is_uppercase_def Let_def split: if_splits)
  have alpha: "is_lowercase (lower_char c)" if "is_uppercase c"
    using cp that by (auto simp: is_uppercase_def is_lowercase_def Let_def)
  show "is_name_char c \<Longrightarrow> is_name_char (lower_char c)"
    using alpha by (cases "is_uppercase c") (auto simp: is_name_char_def is_alphanumeric_def is_alphabetic_def lower_char_def)
  show "is_name_start c \<Longrightarrow> is_name_start (lower_char c)"
    using alpha by (cases "is_uppercase c") (auto simp: is_name_start_def is_alphabetic_def lower_char_def)
qed

lemma first_lexeme_lexical:
  assumes "rest \<noteq> []" "LToken t \<in> set (fst (first_lexeme rest))"
  shows "lexical t"
proof -
  obtain c cs where rest: "rest = c # cs" using assms(1) by (cases rest) auto
  have word: "lexical (TWord (to_lowercase (c # takeWhile is_name_char cs)))" if "is_name_start c"
  proof -
    have "list_all is_name_char (takeWhile is_name_char cs)"
      by (auto simp: list_all_iff dest: set_takeWhileD)
    then show ?thesis
      using that is_name_start_char [OF that] lower_char_keeps by (simp add: to_lowercase_def list_all_iff)
  qed
  have number: "lexical (TNumber (c # takeWhile (\<lambda>c. is_ascii_digit c \<or> c = CHR ''.'') cs))" if "is_ascii_digit c"
    using that by (auto simp: number_char_def list_all_iff dest: set_takeWhileD)
  show ?thesis
    using assms(2) unfolding rest first_lexeme_def Let_def list.sel
    by (simp add: word number punctuation_def is_name_start_char case_prod_beta del: lexical.simps(1,2)
        split: if_splits)
qed

lemma lexemes_lexical: "LToken t \<in> set (lexemes sql) \<Longrightarrow> lexical t"
proof (induction sql rule: lexemes.induct)
  case (1 rest)
  show ?case
  proof (cases "rest = []")
    case False
    then have "LToken t \<in> set (fst (first_lexeme rest)) \<union> set (lexemes (drop (snd (first_lexeme rest)) rest))"
      using 1(2) by (subst (asm) lexemes.simps) simp
    then show ?thesis using 1(1) [OF False] first_lexeme_lexical [OF False] by blast
  qed (use 1(2) in simp)
qed

lemma render_snoc: "render (ts @ [t]) = render_step (render ts) t"
  by (simp add: render_def)

lemma last_render_open:
  assumes "lexical t" "last (render_step out t) = CHR ''(''"
  shows "t = TPunct (CHR ''('')"
proof -
  have "render_piece t \<noteq> []" using assms(1) by (cases t) auto
  then have last: "last (render_piece t) = CHR ''(''"
    using assms(2) by (simp add: render_step_def Let_def last_appendR)
  have not_open: "\<not> is_name_char (CHR ''('')" "\<not> number_char (CHR ''('')"
    using separator_is_plain [of "CHR ''(''"] by (auto simp: separator_def)
  show ?thesis
  proof (cases t)
    case (TWord v)
    then have "is_name_char (last v)"
      using assms(1) by (cases v rule: rev_cases) auto
    then show ?thesis using last TWord not_open by simp
  next
    case (TNumber v)
    then have "number_char (last v)"
      using assms(1) by (cases v rule: rev_cases) auto
    then show ?thesis using last TNumber not_open by simp
  qed (use last in auto)
qed

lemma lexes_render:
  assumes "list_all lexical ts" "delimited w \<or> ts = [] \<or> last (render ts) = CHR ''(''"
  shows "lexes (render ts) (map LToken ts) w"
  using assms
proof (induction ts arbitrary: w rule: rev_induct)
  case Nil
  then show ?case by (simp add: render_def lexing)
next
  case (snoc t ts)
  define out where "out = render ts"
  have lexical: "lexical t" "list_all lexical ts" using snoc.prems(1) by simp_all
  have piece: "lexes (render_piece t) [LToken t] w"
  proof (cases "delimited w")
    case True
    then show ?thesis using lexes_piece lexical(1) by simp
  next
    case False
    then have "t = TPunct (CHR ''('')"
      using snoc.prems(2) last_render_open [OF lexical(1), of out] by (simp add: render_snoc out_def)
    then show ?thesis using lexes_open by simp
  qed
  have empty: "out = [] \<Longrightarrow> ts = []"
  proof (rule ccontr)
    assume "out = []" "ts \<noteq> []"
    then obtain us u where us: "ts = us @ [u]" by (cases ts rule: rev_cases) auto
    then have "lexical u" using lexical by simp
    then have "render_piece u \<noteq> []" by (cases u) auto
    then show False using \<open>out = []\<close> by (simp add: out_def us render_snoc render_step_def Let_def)
  qed
  show ?case
  proof (cases "out \<noteq> [] \<and> render_piece t \<notin> {'')'', '','', ''(''} \<and> last out \<noteq> CHR ''(''")
    case True
    have "lexes out (map LToken ts) ('' '' @ render_piece t @ w)"
      using snoc.IH [OF lexical(2)] by (simp add: out_def)
    moreover have "lexes '' '' [] (render_piece t @ w)" by (rule lexes_space) (simp add: text_simps)
    ultimately have "lexes (out @ '' '' @ render_piece t) (map LToken ts @ [] @ [LToken t]) w"
      using piece by (intro lexes_append) simp_all
    then show ?thesis using True by (simp add: render_snoc render_step_def Let_def out_def)
  next
    case False
    have "lexes out (map LToken ts) (render_piece t @ w)"
    proof (cases "render_piece t \<in> {'')'', '','', ''(''}")
      case True
      then show ?thesis using snoc.IH [OF lexical(2)] by (auto simp: out_def)
    next
      case not_tight: False
      then show ?thesis using snoc.IH [OF lexical(2)] False empty by (auto simp: out_def)
    qed
    then have "lexes (out @ render_piece t) (map LToken ts @ [LToken t]) w"
      using piece by (intro lexes_append) simp_all
    then show ?thesis using False by (auto simp: render_snoc render_step_def Let_def out_def)
  qed
qed

section \<open>The tokens a script is meant to have\<close>

abbreviation word :: "string \<Rightarrow> token" where "word w \<equiv> TWord w"

definition name_token :: "string \<Rightarrow> token" where
  "name_token name = TQuoted (trim name)"

fun commas :: "token list list \<Rightarrow> token list" where
  "commas [] = []"
| "commas [ts] = ts"
| "commas (ts # us # uss) = ts @ TPunct (CHR '','') # commas (us # uss)"

definition in_parens :: "token list \<Rightarrow> token list" where
  "in_parens ts = TPunct (CHR ''('') # ts @ [TPunct (CHR '')'')]"

definition number_token :: "u32 \<Rightarrow> token" where
  "number_token n = TNumber (show_u32 n)"

definition kind_words :: "data_type_kind \<Rightarrow> string list" where
  "kind_words k = (if k = DoublePrecision then [''double'', ''precision''] else [kind_as_str k])"

definition type_numbers :: "data_type \<Rightarrow> u32 list" where
  "type_numbers t =
     (if takes_length (dt_kind t) then (case dt_length t of Some n \<Rightarrow> [n] | None \<Rightarrow> [])
      else if takes_precision (dt_kind t) then
        (case (dt_precision t, dt_scale t) of (Some p, Some s) \<Rightarrow> [p, s] | (Some p, None) \<Rightarrow> [p] | _ \<Rightarrow> [])
      else [])"

definition type_tokens :: "data_type \<Rightarrow> token list" where
  "type_tokens t = map TWord (kind_words (dt_kind t)) @
     (if type_numbers t = [] then [] else in_parens (commas (map (\<lambda>n. [number_token n]) (type_numbers t))))"

definition default_tokens :: "string \<Rightarrow> token list" where
  "default_tokens d = concat (map (\<lambda>l. case l of LToken t \<Rightarrow> [t] | _ \<Rightarrow> []) (lexemes d))"

text \<open>
  A default value in the spelling the reader stores one in: it consists of tokens, reads as one
  expression up to the next clause of the column, and is what rendering its tokens gives.
\<close>

definition default_readable :: "string \<Rightarrow> bool" where
  "default_readable d \<longleftrightarrow>
     lexemes d = map LToken (default_tokens d) \<and> default_tokens d \<noteq> [] \<and> render (default_tokens d) = d \<and>
     take_until_separator AFTER_TYPE (default_tokens d @ [TPunct (CHR '','')]) =
       (default_tokens d, [TPunct (CHR '','')])"

definition column_tokens :: "attribute \<Rightarrow> token list" where
  "column_tokens a = [name_token (attr_name a)] @ type_tokens (attr_data_type a)
     @ (if \<not> attr_nullable a then [word ''not'', word ''null''] else [])
     @ (case attr_default_value a of Some d \<Rightarrow> word ''default'' # default_tokens d | None \<Rightarrow> [])
     @ (if attr_unique a \<and> \<not> attr_primary_key a then [word ''unique''] else [])"

definition key_tokens :: "entity \<Rightarrow> token list list" where
  "key_tokens e = (if primary_key e = [] then []
     else [[word ''primary'', word ''key''] @ in_parens (commas (map (\<lambda>a. [name_token (attr_name a)]) (primary_key e)))])"

definition table_tokens :: "entity \<Rightarrow> token list" where
  "table_tokens e = [word ''create'', word ''table'', name_token (ent_name e)]
     @ in_parens (commas (map column_tokens (ent_attributes e) @ key_tokens e))"

definition foreign_key_tokens :: "entity \<Rightarrow> attribute \<Rightarrow> entity \<Rightarrow> attribute \<Rightarrow> token list" where
  "foreign_key_tokens e a target key =
     [word ''alter'', word ''table'', name_token (ent_name e), word ''add'', word ''constraint'',
      name_token (constraint_name (ent_name e) (attr_name a)), word ''foreign'', word ''key'']
     @ in_parens [name_token (attr_name a)] @ [word ''references'', name_token (ent_name target)]
     @ in_parens [name_token (attr_name key)]"

definition entity_comment_tokens :: "entity \<Rightarrow> token list" where
  "entity_comment_tokens e = [word ''comment'', word ''on'', word ''table'', name_token (ent_name e),
     word ''is'', TText (trim (ent_description e))]"

definition attribute_comment_tokens :: "entity \<Rightarrow> attribute \<Rightarrow> token list" where
  "attribute_comment_tokens e a = [word ''comment'', word ''on'', word ''column'', name_token (ent_name e),
     TPunct (CHR ''.''), name_token (attr_name a), word ''is'', TText (trim (attr_description a))]"

section \<open>Columns and tables\<close>

lemma lexes_keyword:
  assumes "delimited w" "starts is_name_start u" "list_all is_name_char u" "to_lowercase u = v"
  shows "lexes u [LToken (TWord v)] w"
  using lexes_word [OF assms(2,3)] assms(1,4) delimited_plain(1) by blast

lemma lexes_quote: "\<not> starts (\<lambda>c. c = CHR ''\"'') w \<Longrightarrow> lexes (quote n) [LToken (name_token n)] w"
  unfolding quote_def name_token_def by (rule lexes_name)

lemma lexes_literal: "\<not> starts (\<lambda>c. c = CHR 0x27) w \<Longrightarrow> lexes (literal n) [LToken (TText (trim n))] w"
  unfolding literal_def apostrophe_def by (rule lexes_text)

lemma lexes_marks:
  "lexes '')'' [LToken (TPunct (CHR '')''))] w" "lexes '','' [LToken (TPunct (CHR '',''))] w"
  "lexes ''.'' [LToken (TPunct (CHR ''.''))] w"
  by (rule lexes_punct; simp add: punctuation_def lone_def is_name_start_def text_simps)+

lemmas keyword_simps = is_name_start_def is_name_char_def text_simps

lemma lexes_blank: "lexes '' '' [] w"
  by (rule lexes_space) (simp add: text_simps)

lemma lexes_spaced: "lexes u [LToken t] (CHR '' '' # w) \<Longrightarrow> lexes (u @ '' '') [LToken t] w"
  using lexes_append [of u "[LToken t]" "'' ''" w "[]"] lexes_blank by simp

lemma lexes_after_blank: "lexes u ls w \<Longrightarrow> lexes ('' '' @ u) ls w"
  using lexes_append [of "'' ''" "[]" u w ls] lexes_blank by simp

lemma to_ascii_uppercase_append [simp]: "to_ascii_uppercase (u @ v) = to_ascii_uppercase u @ to_ascii_uppercase v"
  by (simp add: to_ascii_uppercase_def)

lemma to_ascii_uppercase_show_u32 [simp]: "to_ascii_uppercase (show_u32 n) = show_u32 n"
  unfolding to_ascii_uppercase_def show_u32_def
proof (rule map_idI)
  fix c assume "c \<in> set (show_nat (unat n))"
  then have "is_ascii_digit c" by (rule show_nat_all)
  then show "upper_ascii c = c" by (auto simp: is_ascii_digit_def is_ascii_lower_def upper_ascii_def Let_def)
qed

lemma lexes_show_u32: "delimited w \<Longrightarrow> lexes (show_u32 n) [LToken (number_token n)] w"
proof -
  obtain c cs where s: "show_nat (unat n) = c # cs" by (meson list.exhaust show_nat_nonempty)
  show "lexes (show_u32 n) [LToken (number_token n)] w" if "delimited w"
    unfolding number_token_def show_u32_def
    using delimited_plain(2) [OF that] show_nat_all [of _ "unat n"] s
    by (intro lexes_number) (auto simp: list_all_iff number_char_def)
qed

lemma lexes_kind: "delimited w \<Longrightarrow> lexes (to_ascii_uppercase (kind_as_str k)) (map LToken (map TWord (kind_words k))) w"
proof (cases "k = DoublePrecision")
  case True
  assume "delimited w"
  then have "lexes (''DOUBLE'' @ '' '' @ ''PRECISION'')
      ([LToken (TWord ''double'')] @ [] @ [LToken (TWord ''precision'')]) w"
    by (intro lexes_append lexes_keyword lexes_blank) (simp_all add: keyword_simps)
  then show ?thesis using True by (simp add: kind_words_def text_simps)
next
  case False
  assume "delimited w"
  then have "lexes (to_ascii_uppercase (kind_as_str k)) [LToken (TWord (kind_as_str k))] w"
    using False by (intro lexes_keyword) (cases k; simp add: keyword_simps)+
  then show ?thesis using False by (simp add: kind_words_def)
qed

lemma lexes_type:
  assumes "delimited w"
  shows "lexes (to_ascii_uppercase (data_type_fmt t)) (map LToken (type_tokens t)) w"
proof -
  let ?kind = "to_ascii_uppercase (kind_as_str (dt_kind t))"
  let ?words = "map LToken (map TWord (kind_words (dt_kind t)))"
  have none: "lexes ?kind ?words w" using lexes_kind assms .
  have one: "lexes (?kind @ ''('' @ show_u32 n @ '')'')
      (?words @ [LToken (TPunct (CHR ''(''))] @ [LToken (number_token n)] @ [LToken (TPunct (CHR '')''))]) w" for n
    by (intro lexes_append lexes_kind lexes_open lexes_show_u32 lexes_marks) simp_all
  have two: "lexes (?kind @ ''('' @ show_u32 n @ '','' @ '' '' @ show_u32 m @ '')'')
      (?words @ [LToken (TPunct (CHR ''(''))] @ [LToken (number_token n)] @ [LToken (TPunct (CHR '',''))]
        @ [] @ [LToken (number_token m)] @ [LToken (TPunct (CHR '')''))]) w" for n m
    by (intro lexes_append lexes_kind lexes_open lexes_show_u32 lexes_marks lexes_blank) simp_all
  have marks: "to_ascii_uppercase (CHR ''('' # s) = CHR ''('' # to_ascii_uppercase s"
    "to_ascii_uppercase (CHR '','' # s) = CHR '','' # to_ascii_uppercase s"
    "to_ascii_uppercase (CHR '' '' # s) = CHR '' '' # to_ascii_uppercase s"
    "to_ascii_uppercase '')'' = '')''" for s
    by (simp_all add: text_simps)
  show ?thesis
    using none one two
    by (auto simp: data_type_fmt_def type_tokens_def type_numbers_def in_parens_def marks split: option.splits)
qed

text \<open>The clauses of a column, each delimited on its right.\<close>

lemma lexes_clause:
  "delimited w \<Longrightarrow> lexes (if b then '' NOT NULL'' else '''') (map LToken (if b then [word ''not'', word ''null''] else [])) w"
  "delimited w \<Longrightarrow> lexes (if b then '' UNIQUE'' else '''') (map LToken (if b then [word ''unique''] else [])) w"
proof -
  assume w: "delimited w"
  have "lexes ('' '' @ ''NOT'' @ '' '' @ ''NULL'') ([] @ [LToken (word ''not'')] @ [] @ [LToken (word ''null'')]) w"
    using w by (intro lexes_append lexes_blank lexes_keyword) (simp_all add: keyword_simps)
  then show "lexes (if b then '' NOT NULL'' else '''') (map LToken (if b then [word ''not'', word ''null''] else [])) w"
    by (simp add: lexes_Nil)
  have "lexes ('' '' @ ''UNIQUE'') ([] @ [LToken (word ''unique'')]) w"
    using w by (intro lexes_append lexes_blank lexes_keyword) (simp_all add: keyword_simps)
  then show "lexes (if b then '' UNIQUE'' else '''') (map LToken (if b then [word ''unique''] else [])) w"
    by (simp add: lexes_Nil)
qed

lemma default_tokens_lexical: "lexemes d = map LToken (default_tokens d) \<Longrightarrow> list_all lexical (default_tokens d)"
  using lexemes_lexical [of _ d] by (auto simp: list_all_iff)

lemma lexes_default:
  assumes "delimited w" "\<And>d. v = Some d \<Longrightarrow> default_readable d"
  shows "lexes (case v of Some d \<Rightarrow> '' DEFAULT '' @ d | None \<Rightarrow> '''')
    (map LToken (case v of Some d \<Rightarrow> word ''default'' # default_tokens d | None \<Rightarrow> [])) w"
proof (cases v)
  case (Some d)
  then have d: "lexemes d = map LToken (default_tokens d)" "render (default_tokens d) = d"
    using assms(2) by (simp_all add: default_readable_def)
  have "lexes d (map LToken (default_tokens d)) w"
    using lexes_render [OF default_tokens_lexical [OF d(1)]] assms(1) d(2) by simp
  then have "lexes ('' '' @ ''DEFAULT'' @ '' '' @ d)
      ([] @ [LToken (word ''default'')] @ [] @ map LToken (default_tokens d)) w"
    by (intro lexes_append lexes_blank lexes_keyword) (simp_all add: keyword_simps)
  then show ?thesis by (simp add: Some)
qed (simp add: lexes_Nil)

lemma delimited_clause:
  "delimited w \<Longrightarrow> delimited ((if b then '' NOT NULL'' else '''') @ w)"
  "delimited w \<Longrightarrow> delimited ((if b then '' UNIQUE'' else '''') @ w)"
  "delimited w \<Longrightarrow> delimited ((case v of Some d \<Rightarrow> '' DEFAULT '' @ d | None \<Rightarrow> '''') @ w)"
  by (simp_all split: option.split)

lemma lexes_column:
  assumes "delimited w" "\<And>d. attr_default_value a = Some d \<Longrightarrow> default_readable d"
  shows "lexes (gen_column a) (map LToken (column_tokens a)) w"
proof -
  have "lexes (gen_column a) ([LToken (name_token (attr_name a))] @ [] @ map LToken (type_tokens (attr_data_type a))
     @ map LToken (if \<not> attr_nullable a then [word ''not'', word ''null''] else [])
     @ map LToken (case attr_default_value a of Some d \<Rightarrow> word ''default'' # default_tokens d | None \<Rightarrow> [])
     @ map LToken (if attr_unique a \<and> \<not> attr_primary_key a then [word ''unique''] else [])) w"
    unfolding gen_column_def
    by (intro lexes_append lexes_quote lexes_blank lexes_type lexes_clause lexes_default assms
        delimited_clause [unfolded append_assoc]) (simp_all add: delimited_clause assms(1))
  then show ?thesis by (simp add: column_tokens_def)
qed

lemma lexes_join:
  assumes "\<And>x w. x \<in> set xs \<Longrightarrow> starts separator w \<Longrightarrow> lexes (f x) (map LToken (g x)) w"
    and "list_all is_whitespace blank" "starts separator w"
  shows "lexes (join ('','' @ blank) (map f xs)) (map LToken (commas (map g xs))) w"
  using assms(1)
proof (induction xs rule: induct_list012)
  case 1
  then show ?case by (simp add: lexes_Nil)
next
  case (2 x)
  then show ?case using assms(3) by simp
next
  case (3 x y zs)
  have "lexes (f x @ ('','' @ blank) @ join ('','' @ blank) (map f (y # zs)))
     (map LToken (g x) @ ([LToken (TPunct (CHR '',''))] @ []) @ map LToken (commas (map g (y # zs)))) w"
    using 3 by (intro lexes_append lexes_marks lexes_space assms(2)) (simp_all add: separator_def)
  then show ?case by simp
qed

lemma starts_separator: "starts separator w \<Longrightarrow> delimited w"
  by (simp add: delimited_def)

lemma lexes_names:
  "starts separator w \<Longrightarrow> lexes (join '', '' (map (\<lambda>a. quote (attr_name a)) as))
     (map LToken (commas (map (\<lambda>a. [name_token (attr_name a)]) as))) w"
  using lexes_join [of as "\<lambda>a. quote (attr_name a)" "\<lambda>a. [name_token (attr_name a)]" "'' ''" w]
    lexes_quote delimited_plain(4) [OF starts_separator]
  by (simp add: text_simps)

lemma lexes_primary_key:
  assumes "gen_primary_key e = Some c"
  shows "lexes c (map LToken (concat (key_tokens e))) w" "key_tokens e \<noteq> []"
proof -
  have key: "primary_key e \<noteq> []" "c = ''PRIMARY KEY ('' @ join '', '' (map (\<lambda>a. quote (attr_name a)) (primary_key e)) @ '')''"
    using assms by (auto simp: gen_primary_key_def Let_def split: if_splits)
  have "lexes (''PRIMARY'' @ '' '' @ ''KEY'' @ '' '' @ ''('' @ join '', '' (map (\<lambda>a. quote (attr_name a)) (primary_key e)) @ '')'')
     ([LToken (word ''primary'')] @ [] @ [LToken (word ''key'')] @ [] @ [LToken (TPunct (CHR ''(''))]
       @ map LToken (commas (map (\<lambda>a. [name_token (attr_name a)]) (primary_key e))) @ [LToken (TPunct (CHR '')''))]) w"
    by (intro lexes_append lexes_blank lexes_keyword lexes_open lexes_marks lexes_names)
      (simp_all add: keyword_simps separator_def)
  then show "lexes c (map LToken (concat (key_tokens e))) w" "key_tokens e \<noteq> []"
    by (simp_all add: key key_tokens_def in_parens_def)
qed

definition statement_lexemes :: "token list \<Rightarrow> lexeme list" where
  "statement_lexemes ts = map LToken ts @ [LEnd]"

lemma lexes_create_table:
  assumes "\<And>a d. a \<in> set (ent_attributes e) \<Longrightarrow> attr_default_value a = Some d \<Longrightarrow> default_readable d"
  shows "lexes (create_table e) (statement_lexemes (table_tokens e)) w"
proof -
  define key where "key = (case gen_primary_key e of Some c \<Rightarrow> [(c, concat (key_tokens e))] | None \<Rightarrow> [])"
  define xs where "xs = map (\<lambda>a. (gen_column a, column_tokens a)) (ent_attributes e) @ key"
  have lines: "map fst xs = map gen_column (ent_attributes e) @ (case gen_primary_key e of Some c \<Rightarrow> [c] | None \<Rightarrow> [])"
    by (simp add: xs_def key_def split: option.split)
  have "key_tokens e = map snd key"
    by (auto simp: key_def key_tokens_def gen_primary_key_def Let_def)
  then have tokens: "map snd xs = map column_tokens (ent_attributes e) @ key_tokens e"
    by (simp add: xs_def)
  have "lexes (fst x) (map LToken (snd x)) w'" if "x \<in> set xs" "starts separator w'" for x w'
    using that lexes_column [OF starts_separator] assms lexes_primary_key(1)
    by (auto simp: xs_def key_def split: option.splits)
  then have body: "lexes (join ('','' @ [newline] @ ''    '') (map fst xs)) (map LToken (commas (map snd xs)))
      ([newline] @ '')'' @ '';'' @ w)"
    by (intro lexes_join) (simp_all add: newline_def separator_def text_simps)
  have blank: "lexes ([newline] @ ''    '') [] v" "lexes [newline] [] v" for v
    by (rule lexes_space; simp add: newline_def text_simps)+
  note intros = lexes_append lexes_keyword lexes_blank lexes_quote lexes_open lexes_marks lexes_end blank
  show ?thesis
  proof (cases "xs = []")
    case True
    have "lexes (''CREATE'' @ '' '' @ ''TABLE'' @ '' '' @ quote (ent_name e) @ '' '' @ ''('' @ '')'' @ '';'')
       ([LToken (word ''create'')] @ [] @ [LToken (word ''table'')] @ [] @ [LToken (name_token (ent_name e))] @ []
         @ [LToken (TPunct (CHR ''(''))] @ [LToken (TPunct (CHR '')''))] @ [LEnd]) w"
      by (intro intros) (simp_all add: keyword_simps)
    then show ?thesis
      using True
      unfolding create_table_def Let_def table_tokens_def in_parens_def statement_lexemes_def
        lines [symmetric] tokens [symmetric] by simp
  next
    case False
    have "lexes (''CREATE'' @ '' '' @ ''TABLE'' @ '' '' @ quote (ent_name e) @ '' '' @ ''('' @ ([newline] @ ''    '')
         @ join ('','' @ [newline] @ ''    '') (map fst xs) @ [newline] @ '')'' @ '';'')
       ([LToken (word ''create'')] @ [] @ [LToken (word ''table'')] @ [] @ [LToken (name_token (ent_name e))] @ []
         @ [LToken (TPunct (CHR ''(''))] @ [] @ map LToken (commas (map snd xs)) @ []
         @ [LToken (TPunct (CHR '')''))] @ [LEnd]) w"
      by (intro intros body) (use body in \<open>simp_all add: keyword_simps\<close>)
    then show ?thesis
      using False
      unfolding create_table_def Let_def table_tokens_def in_parens_def statement_lexemes_def
        lines [symmetric] tokens [symmetric] by simp
  qed
qed

section \<open>Foreign keys and comments\<close>

lemma lexes_foreign_key:
  "lexes (foreign_key_statement e a target key) (statement_lexemes (foreign_key_tokens e a target key)) w"
proof -
  have blank: "lexes ([newline] @ ''    '') [] v" for v
    by (rule lexes_space; simp add: newline_def text_simps)
  have "lexes (''ALTER'' @ '' '' @ ''TABLE'' @ '' '' @ quote (ent_name e) @ ([newline] @ ''    '') @ ''ADD'' @ '' ''
       @ ''CONSTRAINT'' @ '' '' @ quote (constraint_name (ent_name e) (attr_name a)) @ '' '' @ ''FOREIGN'' @ '' ''
       @ ''KEY'' @ '' '' @ ''('' @ quote (attr_name a) @ '')'' @ '' '' @ ''REFERENCES'' @ '' '' @ quote (ent_name target)
       @ '' '' @ ''('' @ quote (attr_name key) @ '')'' @ '';'')
     ([LToken (word ''alter'')] @ [] @ [LToken (word ''table'')] @ [] @ [LToken (name_token (ent_name e))] @ []
       @ [LToken (word ''add'')] @ [] @ [LToken (word ''constraint'')] @ []
       @ [LToken (name_token (constraint_name (ent_name e) (attr_name a)))] @ [] @ [LToken (word ''foreign'')] @ []
       @ [LToken (word ''key'')] @ [] @ [LToken (TPunct (CHR ''(''))] @ [LToken (name_token (attr_name a))]
       @ [LToken (TPunct (CHR '')''))] @ [] @ [LToken (word ''references'')] @ []
       @ [LToken (name_token (ent_name target))] @ [] @ [LToken (TPunct (CHR ''(''))]
       @ [LToken (name_token (attr_name key))] @ [LToken (TPunct (CHR '')''))] @ [LEnd]) w"
    by (intro lexes_append lexes_keyword lexes_blank lexes_quote lexes_open lexes_marks lexes_end blank)
      (simp_all add: keyword_simps newline_def)
  then show ?thesis
    by (simp add: foreign_key_statement_def foreign_key_tokens_def in_parens_def statement_lexemes_def)
qed

definition entity_comment :: "entity \<Rightarrow> string" where
  "entity_comment e =
     ''COMMENT ON TABLE '' @ quote (ent_name e) @ '' IS '' @ literal (ent_description e) @ '';''"

definition attribute_comment :: "entity \<Rightarrow> attribute \<Rightarrow> string" where
  "attribute_comment e a =
     ''COMMENT ON COLUMN '' @ quote (ent_name e) @ ''.'' @ quote (attr_name a) @ '' IS ''
       @ literal (attr_description a) @ '';''"

lemma lexes_entity_comment:
  "lexes (entity_comment e) (statement_lexemes (entity_comment_tokens e)) w"
proof -
  have "lexes (''COMMENT'' @ '' '' @ ''ON'' @ '' '' @ ''TABLE'' @ '' '' @ quote (ent_name e) @ '' '' @ ''IS'' @ '' ''
       @ literal (ent_description e) @ '';'')
     ([LToken (word ''comment'')] @ [] @ [LToken (word ''on'')] @ [] @ [LToken (word ''table'')] @ []
       @ [LToken (name_token (ent_name e))] @ [] @ [LToken (word ''is'')] @ []
       @ [LToken (TText (trim (ent_description e)))] @ [LEnd]) w"
    by (intro lexes_append lexes_keyword lexes_blank lexes_quote lexes_literal lexes_end)
      (simp_all add: keyword_simps)
  then show ?thesis by (simp add: entity_comment_def entity_comment_tokens_def statement_lexemes_def)
qed

lemma lexes_attribute_comment:
  "lexes (attribute_comment e a) (statement_lexemes (attribute_comment_tokens e a)) w"
proof -
  have "lexes (''COMMENT'' @ '' '' @ ''ON'' @ '' '' @ ''COLUMN'' @ '' '' @ quote (ent_name e) @ ''.''
       @ quote (attr_name a) @ '' '' @ ''IS'' @ '' '' @ literal (attr_description a) @ '';'')
     ([LToken (word ''comment'')] @ [] @ [LToken (word ''on'')] @ [] @ [LToken (word ''column'')] @ []
       @ [LToken (name_token (ent_name e))] @ [LToken (TPunct (CHR ''.''))] @ [LToken (name_token (attr_name a))]
       @ [] @ [LToken (word ''is'')] @ [] @ [LToken (TText (trim (attr_description a)))] @ [LEnd]) w"
    by (intro lexes_append lexes_keyword lexes_blank lexes_quote lexes_literal lexes_end lexes_marks)
      (simp_all add: keyword_simps)
  then show ?thesis by (simp add: attribute_comment_def attribute_comment_tokens_def statement_lexemes_def)
qed

section \<open>The whole script\<close>

definition references_of :: "schema \<Rightarrow> (entity \<times> attribute \<times> entity \<times> attribute) list" where
  "references_of s = concat (map (\<lambda>e. concat (map (\<lambda>a.
     case attr_foreign_key a of
       None \<Rightarrow> []
     | Some ref \<Rightarrow>
         (case resolve s (fk_entity_id ref) (fk_attribute_id ref) of
            None \<Rightarrow> []
          | Some (target, key) \<Rightarrow> [(e, a, target, key)]))
     (ent_attributes e))) (sch_entities s))"

definition comment_tokens :: "schema \<Rightarrow> token list list" where
  "comment_tokens s = concat (map (\<lambda>e.
     (if ent_is_documented e then [entity_comment_tokens e] else []) @
     concat (map (\<lambda>a. if attr_is_documented a then [attribute_comment_tokens e a] else []) (ent_attributes e)))
     (sch_entities s))"

definition block_lexemes :: "generate_options \<Rightarrow> entity \<Rightarrow> lexeme list" where
  "block_lexemes options e =
     (if include_positions options then [LLine (layout_position e)] else []) @ statement_lexemes (table_tokens e)"

definition reference_tokens :: "entity \<times> attribute \<times> entity \<times> attribute \<Rightarrow> token list" where
  "reference_tokens = (\<lambda>(e, a, target, key). foreign_key_tokens e a target key)"

definition script_lexemes :: "schema \<Rightarrow> generate_options \<Rightarrow> lexeme list" where
  "script_lexemes s options = concat (map (block_lexemes options) (sch_entities s))
     @ concat (map (statement_lexemes \<circ> reference_tokens) (references_of s))
     @ (if include_comments options then concat (map statement_lexemes (comment_tokens s)) else [])"

text \<open>
  What a schema must hold for its script to be scanned as meant: its default values are readable
  and, where positions are written, no table name breaks the line.
\<close>

definition scannable :: "generate_options \<Rightarrow> schema \<Rightarrow> bool" where
  "scannable options s \<longleftrightarrow>
     list_all (\<lambda>e. (include_positions options \<longrightarrow> newline \<notin> set (trim (ent_name e))) \<and>
       list_all (\<lambda>a. case attr_default_value a of None \<Rightarrow> True | Some d \<Rightarrow> default_readable d) (ent_attributes e))
     (sch_entities s)"

lemma newline_not_in_quote: "newline \<notin> set (trim n) \<Longrightarrow> newline \<notin> set (quote n)"
  by (auto simp: quote_def replace_char_def newline_def split: if_splits)

lemma newline_not_in_show_int: "newline \<notin> set (show_int i)"
proof -
  have "\<not> is_ascii_digit newline" by (simp add: newline_def text_simps)
  then have "newline \<notin> set (show_nat n)" for n using show_nat_all by blast
  then show ?thesis by (simp add: show_int_def newline_def)
qed

lemma lexes_layout:
  assumes "newline \<notin> set (trim (ent_name e))"
  shows "lexes (layout_position e @ [newline]) [LLine (layout_position e)] w"
proof -
  define u where "u = '' @table '' @ quote (ent_name e) @ '' ''
     @ show_int (f64_round_as_i64 (pos_x (ent_position e))) @ '' ''
     @ show_int (f64_round_as_i64 (pos_y (ent_position e)))"
  have u: "layout_position e = ''--'' @ u" by (simp add: layout_position_def u_def)
  have "newline \<notin> set u"
    using newline_not_in_quote [OF assms] newline_not_in_show_int by (simp add: u_def newline_def)
  then have "lexes (''--'' @ u) [LLine (''--'' @ u)] ([newline] @ w)"
    by (intro lexes_line) (simp_all add: newline_def)
  moreover have "lexes [newline] [] w" by (rule lexes_space) (simp add: newline_def text_simps)
  ultimately show ?thesis using lexes_append by (fastforce simp: u)
qed

lemma lexes_block:
  assumes "scannable options s" "e \<in> set (sch_entities s)"
  shows "lexes (gen_block options e) (block_lexemes options e) w"
proof -
  have "lexes (create_table e) (statement_lexemes (table_tokens e)) w"
    using assms by (intro lexes_create_table) (fastforce simp: scannable_def list_all_iff)
  moreover have "include_positions options \<Longrightarrow>
      lexes (layout_position e @ [newline]) [LLine (layout_position e)] (create_table e @ w)"
    using assms by (intro lexes_layout) (auto simp: scannable_def list_all_iff)
  ultimately show ?thesis
    using lexes_append [of "layout_position e @ [newline]" "[LLine (layout_position e)]" "create_table e" w]
    by (auto simp: gen_block_def block_lexemes_def)
qed

lemma lexes_blocks:
  assumes "list_all is_whitespace sep" "\<And>x w. x \<in> set xs \<Longrightarrow> lexes (fst x) (snd x) w"
  shows "lexes (join sep (map fst xs)) (concat (map snd xs)) w"
  using assms(2)
proof (induction xs rule: induct_list012)
  case (3 x y zs)
  have "lexes (fst x @ sep @ join sep (map fst (y # zs))) (snd x @ [] @ concat (map snd (y # zs))) w"
    using 3 by (intro lexes_append lexes_space assms(1)) simp_all
  then show ?case by simp
qed (simp_all add: lexes_Nil)

lemma gen_foreign_keys_eq:
  "gen_foreign_keys s = map (\<lambda>(e, a, target, key). foreign_key_statement e a target key) (references_of s)"
  unfolding gen_foreign_keys_def references_of_def map_concat map_map comp_def
  by (intro arg_cong [where f = concat] map_cong refl) (simp split: option.split)

definition comment_pairs :: "schema \<Rightarrow> (string \<times> lexeme list) list" where
  "comment_pairs s = concat (map (\<lambda>e.
     (if ent_is_documented e then [(entity_comment e, statement_lexemes (entity_comment_tokens e))] else []) @
     concat (map (\<lambda>a.
       if attr_is_documented a then [(attribute_comment e a, statement_lexemes (attribute_comment_tokens e a))]
       else []) (ent_attributes e))) (sch_entities s))"

lemma comment_pairs:
  "comments s = map fst (comment_pairs s)"
  "map statement_lexemes (comment_tokens s) = map snd (comment_pairs s)"
  "x \<in> set (comment_pairs s) \<Longrightarrow> lexes (fst x) (snd x) w"
proof -
  show "comments s = map fst (comment_pairs s)"
    unfolding comments_def comment_pairs_def map_concat map_map comp_def
    by (intro arg_cong [where f = concat] map_cong refl)
      (simp add: map_concat comp_def if_distrib [of "map fst"] entity_comment_def attribute_comment_def cong: if_cong)
  show "map statement_lexemes (comment_tokens s) = map snd (comment_pairs s)"
    unfolding comment_tokens_def comment_pairs_def map_concat map_map comp_def
    by (intro arg_cong [where f = concat] map_cong refl)
      (simp add: map_concat comp_def if_distrib [of "map snd"] if_distrib [of "map statement_lexemes"] cong: if_cong)
  show "lexes (fst x) (snd x) w" if "x \<in> set (comment_pairs s)"
    using that lexes_entity_comment lexes_attribute_comment by (auto simp: comment_pairs_def split: if_splits)
qed

theorem lexemes_generate:
  assumes "scannable options s"
  shows "lexemes (generate s options) = script_lexemes s options"
proof -
  define comment_block where "comment_block = (if include_comments options \<and> comments s \<noteq> []
    then [(join [newline] (comments s), concat (map statement_lexemes (comment_tokens s)))] else [])"
  define xs where "xs = map (\<lambda>e. (gen_block options e, block_lexemes options e)) (sch_entities s)
    @ map (\<lambda>(e, a, target, key). (foreign_key_statement e a target key,
        statement_lexemes (foreign_key_tokens e a target key))) (references_of s) @ comment_block"
  have texts: "gen_blocks s options = map fst xs"
    by (simp add: gen_blocks_def xs_def comment_block_def gen_foreign_keys_eq comp_def case_prod_beta)
  have "comment_tokens s = [] \<longleftrightarrow> comments s = []"
    using comment_pairs(1,2) [of s] by (metis map_is_Nil_conv)
  then have lexemes: "concat (map snd xs) = script_lexemes s options"
    by (auto simp: script_lexemes_def xs_def comment_block_def comp_def case_prod_beta reference_tokens_def)
  have blank: "list_all is_whitespace [newline]" "list_all is_whitespace [newline, newline]"
    by (simp_all add: newline_def text_simps)
  have "lexes (join [newline] (comments s)) (concat (map statement_lexemes (comment_tokens s))) w" for w
    unfolding comment_pairs(1,2) by (intro lexes_blocks blank comment_pairs(3))
  then have "lexes (fst x) (snd x) w" if "x \<in> set xs" for x w
    using that lexes_block [OF assms] lexes_foreign_key
    by (auto simp: xs_def comment_block_def split: if_splits)
  then have "lexes (join [newline, newline] (map fst xs)) (concat (map snd xs)) []"
    by (intro lexes_blocks blank)
  then show ?thesis by (simp add: lexes_def generate_def texts lexemes)
qed

section \<open>The statements and hints of a script\<close>

lemma absorb_statement:
  "ts \<noteq> [] \<Longrightarrow> fold absorb (statement_lexemes ts) ([], sts, hs) = ([], sts @ [ts], hs)"
proof -
  have "fold absorb (map LToken ts) (us, sts, hs) = (us @ ts, sts, hs)" for us
    by (induction ts arbitrary: us) simp_all
  then show "ts \<noteq> [] \<Longrightarrow> ?thesis" by (simp add: statement_lexemes_def)
qed

lemma absorb_statements:
  "[] \<notin> set tss \<Longrightarrow> fold absorb (concat (map statement_lexemes tss)) ([], sts, hs) = ([], sts @ tss, hs)"
  by (induction tss arbitrary: sts) (auto simp: absorb_statement)

definition whole_coordinate :: "f64 \<Rightarrow> f64" where
  "whole_coordinate x = (let i = f64_round_as_i64 x in f64_of_ratio (i < 0) (nat \<bar>i\<bar>) 1)"

definition position_hint :: "nat \<Rightarrow> entity \<Rightarrow> layout_hint" where
  "position_hint n e = \<lparr>hint_table = trim (ent_name e), hint_x = whole_coordinate (pos_x (ent_position e)),
     hint_y = whole_coordinate (pos_y (ent_position e)), above = Some n\<rparr>"

lemma split_quoted_replace:
  "\<not> starts (\<lambda>c. c = CHR ''\"'') w \<Longrightarrow>
     split_quoted (replace_char (CHR ''\"'') ''\"\"'' v @ CHR ''\"'' # w) = Some (v, w)"
proof (induction v)
  case Nil
  then show ?case by (cases w) (simp_all add: replace_char_def)
qed (auto simp: replace_char_def)

lemma dropWhile_id: "\<not> starts p w \<Longrightarrow> dropWhile p w = w"
  by (cases w) simp_all

lemma trim_id: "\<not> starts is_whitespace w \<Longrightarrow> w \<noteq> [] \<Longrightarrow> \<not> is_whitespace (last w) \<Longrightarrow> trim w = w"
  by (cases w rule: rev_cases) (auto simp: trim_def trim_start_def trim_end_def dropWhile_id)

lemma trim_blank: "trim (CHR '' '' # w) = trim w"
  by (simp add: trim_def trim_start_def is_whitespace_def code_point_def)

lemma show_int_shape: "show_int i \<noteq> []" "c \<in> set (show_int i) \<Longrightarrow> \<not> is_whitespace c"
  "\<not> starts (\<lambda>c. c = CHR ''\"'') (show_int i)"
proof -
  have sign: "\<not> is_whitespace (CHR ''-'')" by (simp add: text_simps)
  have digits: "c \<in> set (show_nat n) \<Longrightarrow> \<not> is_whitespace c \<and> c \<noteq> CHR ''\"''" for c n
    using show_nat_all digit_is_plain by blast
  show "show_int i \<noteq> []" by (simp add: show_int_def)
  show "c \<in> set (show_int i) \<Longrightarrow> \<not> is_whitespace c"
    using sign digits by (auto simp: show_int_def split: if_splits)
  show "\<not> starts (\<lambda>c. c = CHR ''\"'') (show_int i)"
    using digits [of _ "nat i"] by (cases "show_nat (nat i)") (auto simp: show_int_def)
qed

lemma split_whitespace_word:
  assumes "u \<noteq> []" "\<And>c. c \<in> set u \<Longrightarrow> \<not> is_whitespace c"
  shows "split_whitespace (u @ CHR '' '' # w) = u # split_whitespace w" "split_whitespace u = [u]"
proof -
  obtain c cs where u: "u = c # cs" using assms(1) by (cases u) auto
  have blank: "is_whitespace (CHR '' '')" by (simp add: text_simps)
  have "takeWhile (\<lambda>x. \<not> is_whitespace x) (cs @ CHR '' '' # w) = cs"
    "dropWhile (\<lambda>x. \<not> is_whitespace x) (cs @ CHR '' '' # w) = CHR '' '' # w"
    using assms(2) u blank by (auto simp: takeWhile_append dropWhile_append)
  then show "split_whitespace (u @ CHR '' '' # w) = u # split_whitespace w"
    using assms(2) blank by (simp add: u)
  have "takeWhile (\<lambda>x. \<not> is_whitespace x) cs = cs" "dropWhile (\<lambda>x. \<not> is_whitespace x) cs = []"
    using assms(2) u by (auto simp: takeWhile_eq_all_conv)
  then show "split_whitespace u = [u]" using assms(2) [of c] by (simp add: u del: dropWhile_eq_Nil_conv)
qed

lemma read_layout_position:
  "read_layout_hint (layout_position e) = Some ((position_hint n e)\<lparr>above := None\<rparr>)"
proof -
  let ?x = "show_int (f64_round_as_i64 (pos_x (ent_position e)))"
  let ?y = "show_int (f64_round_as_i64 (pos_y (ent_position e)))"
  let ?numbers = "CHR '' '' # ?x @ CHR '' '' # ?y"
  let ?quoted = "quote (ent_name e) @ ?numbers"
  have last: "\<not> is_whitespace (last ?y)" by (rule show_int_shape(2) [OF last_in_set [OF show_int_shape(1)]])
  have 1: "trim (CHR ''@'' # ''table '' @ ?quoted) = CHR ''@'' # ''table '' @ ?quoted"
    using last show_int_shape(1) by (intro trim_id) (simp_all add: text_simps)
  have 2: "trim ?quoted = ?quoted"
    using last show_int_shape(1) by (intro trim_id) (simp_all add: quote_def text_simps)
  have 3: "dropWhile (\<lambda>c. c = CHR ''-'') (layout_position e) = CHR '' '' # CHR ''@'' # ''table '' @ ?quoted"
    by (simp add: layout_position_def)
  have 4: "hint_name ?quoted = Some (trim (ent_name e), ?numbers)"
    unfolding hint_name_def quote_def by (simp add: split_quoted_replace)
  have 5: "split_whitespace ?numbers = [?x, ?y]"
    using split_whitespace_word(1) [OF show_int_shape(1,2)] split_whitespace_word(2) [OF show_int_shape(1,2)]
    by (simp add: is_whitespace_def code_point_def)
  have 6: "strip_prefix ''@table'' (CHR ''@'' # ''table '' @ ?quoted) = Some (CHR '' '' # ?quoted)" by simp
  show ?thesis
    unfolding read_layout_hint_def 3 trim_blank 1 6 option.case 2 4 prod.case 5 list.case parse_f64_show_int
    by (simp add: position_hint_def whole_coordinate_def Let_def)
qed

lemma table_tokens_Nil [simp]: "table_tokens e \<noteq> []"
  by (simp add: table_tokens_def)

lemma absorb_blocks:
  "fold absorb (concat (map (block_lexemes options) es)) ([], sts, hs) =
     ([], sts @ map table_tokens es,
      hs @ (if include_positions options then map (\<lambda>(n, e). position_hint n e) (enumerate (length sts) es) else []))"
proof (induction es arbitrary: sts hs)
  case (Cons e es)
  have "fold absorb (block_lexemes options e) ([], sts, hs) = ([], sts @ [table_tokens e],
      hs @ (if include_positions options then [position_hint (length sts) e] else []))"
    using read_layout_position [of e "length sts"]
    by (simp add: block_lexemes_def absorb_statement position_hint_def)
  then show ?case by (simp add: Cons.IH)
qed simp

theorem scan_generate:
  assumes "scannable options s"
  shows "map st_tokens (fst (scan (generate s options))) =
      map table_tokens (sch_entities s) @ map reference_tokens (references_of s)
        @ (if include_comments options then comment_tokens s else [])"
    and "snd (scan (generate s options)) =
      (if include_positions options then map (\<lambda>(n, e). position_hint n e) (enumerate 0 (sch_entities s)) else [])"
proof -
  have "[] \<notin> set (map reference_tokens (references_of s))" "[] \<notin> set (comment_tokens s)"
    by (auto simp: reference_tokens_def foreign_key_tokens_def comment_tokens_def entity_comment_tokens_def
        attribute_comment_tokens_def split: if_splits)
  then have "fold absorb (script_lexemes s options) ([], [], []) =
      ([], map table_tokens (sch_entities s) @ map reference_tokens (references_of s)
        @ (if include_comments options then comment_tokens s else []),
       if include_positions options then map (\<lambda>(n, e). position_hint n e) (enumerate 0 (sch_entities s)) else [])"
    using absorb_statements [of "map reference_tokens (references_of s)"]
    by (simp add: script_lexemes_def absorb_blocks absorb_statements)
  then show "map st_tokens (fst (scan (generate s options))) =
      map table_tokens (sch_entities s) @ map reference_tokens (references_of s)
        @ (if include_comments options then comment_tokens s else [])"
    "snd (scan (generate s options)) =
      (if include_positions options then map (\<lambda>(n, e). position_hint n e) (enumerate 0 (sch_entities s)) else [])"
    unfolding scan_lexemes lexemes_generate [OF assms] by simp_all
qed

section \<open>A name that breaks the line\<close>

text \<open>
  A line comment ends at the first line break, and a quoted name keeps its own: what follows a line
  break in a table name is read as SQL from the line that was meant to carry the position.
\<close>

lemma replace_char_append: "replace_char c r (u @ v) = replace_char c r u @ replace_char c r v"
  by (simp add: replace_char_def)

lemma replace_char_none: "c \<notin> set s \<Longrightarrow> replace_char c r s = s"
  by (induction s) (auto simp: replace_char_def)

lemma layout_breaks:
  assumes "trim (ent_name e) = u @ newline # v" "newline \<notin> set u"
  shows "\<exists>line rest. lexemes (layout_position e @ w) =
    LLine line # lexemes (replace_char (CHR ''\"'') ''\"\"'' v @ CHR ''\"'' # CHR '' '' # rest)"
proof -
  define u' where "u' = '' @table '' @ ''\"'' @ replace_char (CHR ''\"'') ''\"\"'' u"
  define v' where "v' = replace_char (CHR ''\"'') ''\"\"'' v @ CHR ''\"'' # CHR '' ''
     # show_int (f64_round_as_i64 (pos_x (ent_position e))) @ '' ''
     @ show_int (f64_round_as_i64 (pos_y (ent_position e))) @ w"
  have "layout_position e @ w = (''--'' @ u') @ [newline] @ v'"
    using assms(1)
    by (simp add: layout_position_def quote_def replace_char_append u'_def v'_def) (simp add: replace_char_def newline_def)
  moreover have "newline \<notin> set u'"
    using assms(2) by (auto simp: u'_def replace_char_def newline_def split: if_splits)
  then have "lexes (''--'' @ u') [LLine (''--'' @ u')] ([newline] @ v')"
    by (intro lexes_line) (simp_all add: newline_def)
  moreover have "lexes [newline] [] v'" by (rule lexes_space) (simp add: newline_def text_simps)
  ultimately have "lexemes (layout_position e @ w) = LLine (''--'' @ u') # lexemes v'"
    by (simp add: lexes_def)
  then show ?thesis unfolding v'_def by blast
qed

lemma generate_starts:
  assumes "include_positions options" "sch_entities s = e # es"
  shows "\<exists>w. generate s options = layout_position e @ w"
proof -
  have "gen_blocks s options = (layout_position e @ newline # create_table e) # tl (gen_blocks s options)"
    using assms by (simp add: gen_blocks_def gen_block_def)
  then show ?thesis unfolding generate_def by (cases "tl (gen_blocks s options)") (metis append_assoc join.simps(2,3))+
qed

lemma absorb_keeps: "\<exists>more. fst (snd (fold absorb ls (ts, sts, hs))) = sts @ more"
proof (induction ls arbitrary: ts sts hs)
  case (Cons l ls)
  obtain ts' sts' hs' where l: "absorb l (ts, sts, hs) = (ts', sts', hs')" by (metis prod_cases3)
  have "\<exists>more. sts' = sts @ more" using l by (cases l) (auto split: if_splits)
  then show ?case using Cons [of ts' sts' hs'] by (auto simp: l)
qed simp

definition plain_words :: "string list \<Rightarrow> bool" where
  "plain_words ws \<longleftrightarrow> ws \<noteq> [] \<and> list_all (\<lambda>v. lexical (TWord v)) ws"

lemma lexes_words:
  "plain_words ws \<Longrightarrow> lexes (join '' '' ws @ '';'') (map LToken (map TWord ws) @ [LEnd]) w"
proof (induction ws rule: induct_list012)
  case (2 v)
  have stop: "\<not> is_name_char (CHR '';'')" by (simp add: keyword_simps)
  have "lexes v [LToken (TWord v)] ('';'' @ w)"
    using lexes_word [of v "'';'' @ w"] 2 stop by (simp add: plain_words_def)
  then show ?case using lexes_append [OF _ lexes_end] by fastforce
next
  case (3 v x ws)
  have "lexes (v @ '' '' @ join '' '' (x # ws) @ '';'')
      ([LToken (TWord v)] @ [] @ map LToken (map TWord (x # ws)) @ [LEnd]) w"
    using 3 by (intro lexes_append [of v] lexes_append [of "'' ''"] lexes_keyword lexes_blank) (simp_all add: plain_words_def)
  then show ?case by simp
qed (simp add: plain_words_def)

theorem name_breaks_out:
  assumes "include_positions options" "sch_entities s = e # es" "plain_words ws"
    and "trim (ent_name e) = u @ newline # join '' '' ws @ ''; --''" "newline \<notin> set u"
  shows "\<exists>more. map st_tokens (fst (scan (generate s options))) = map TWord ws # more"
proof -
  obtain w where w: "generate s options = layout_position e @ w" using generate_starts [OF assms(1,2)] by blast
  have "\<not> is_name_char (CHR ''\"'')" by (simp add: keyword_simps)
  then have "CHR ''\"'' \<notin> set v" if "v \<in> set ws" for v
    using that assms(3) by (auto simp: plain_words_def list_all_iff)
  then have "CHR ''\"'' \<notin> set (join '' '' ws @ ''; --'')"
    by (induction ws rule: induct_list012) auto
  then have "replace_char (CHR ''\"'') ''\"\"'' (join '' '' ws @ ''; --'') = join '' '' ws @ ''; --''"
    by (rule replace_char_none)
  then obtain line rest where "lexemes (generate s options) = LLine line # lexemes ((join '' '' ws @ '';'') @ rest)"
    using layout_breaks [OF assms(4,5), of w] w by auto
  then have "lexemes (generate s options) = LLine line # statement_lexemes (map TWord ws) @ lexemes rest"
    using lexes_words [OF assms(3), of rest] by (simp add: lexes_def statement_lexemes_def)
  moreover have "absorb (LLine line) ([], [], []) = ([], [], snd (snd (absorb (LLine line) ([], [], []))))" by simp
  ultimately have "fold absorb (lexemes (generate s options)) ([], [], []) =
      fold absorb (lexemes rest) ([], [map TWord ws], snd (snd (absorb (LLine line) ([], [], []))))"
    using assms(3) absorb_statement [of "map TWord ws"] by (simp add: plain_words_def)
  then show ?thesis
    unfolding scan_lexemes
    using absorb_keeps [of "lexemes rest @ [LEnd]" "[]" "[map TWord ws]"] by fastforce
qed

end
