(* ===== verification/Script_Read.thy ===== *)
theory Script_Read
  imports Script_Lex Sql_Read Verifier_Checks
begin

text \<open>
  What the reader makes of the statements of a generated script: each \<open>CREATE TABLE\<close> becomes the
  table it was written from, each \<open>ALTER TABLE\<close> its foreign key and each \<open>COMMENT\<close> its text
  (\<open>sort_generated\<close>), for a schema whose names the verifier accepts.
\<close>

section \<open>Columns\<close>

definition shown_type :: "data_type \<Rightarrow> data_type" where
  "shown_type t =
     (let ns = type_numbers t; first = (case ns of [] \<Rightarrow> None | n # _ \<Rightarrow> Some n);
          second = (case ns of _ # n # _ \<Rightarrow> Some n | _ \<Rightarrow> None)
      in \<lparr>dt_kind = dt_kind t,
          dt_length = (if takes_length (dt_kind t) then first else None),
          dt_precision = (if takes_precision (dt_kind t) then first else None),
          dt_scale = (if takes_precision (dt_kind t) then second else None)\<rparr>)"

definition read_column :: "attribute \<Rightarrow> parsed_column" where
  "read_column a = \<lparr>pc_name = trim (attr_name a), pc_data_type = shown_type (attr_data_type a),
     pc_nullable = attr_nullable a, pc_primary_key = False, pc_unique = (attr_unique a \<and> \<not> attr_primary_key a),
     pc_default_value = attr_default_value a\<rparr>"

text \<open>An item of a table ends at a comma or at the parenthesis that closes the table.\<close>

definition item_ends :: "cursor \<Rightarrow> bool" where
  "item_ends c = (at_punct (CHR '','') c \<or> at_punct (CHR '')'') c)"

definition clause_ends :: "cursor \<Rightarrow> bool" where
  "clause_ends c = (item_ends c \<or> (\<exists>w rest. c = TWord w # rest \<and> w \<in> set AFTER_TYPE))"

lemma item_ends_clause: "item_ends c \<Longrightarrow> clause_ends c"
  by (simp add: clause_ends_def)

lemma is_punct_iff: "is_punct p t \<longleftrightarrow> t = TPunct p"
  by (cases t) auto

lemma at_simps [simp]:
  "at_word w (t # c) = is_word w t" "at_punct p (t # c) = is_punct p t" "\<not> at_word w []" "\<not> at_punct p []"
  by (simp_all add: at_word_def at_punct_def peek_def)

lemma item_ends_cases: "item_ends c \<longleftrightarrow> (\<exists>rest. c = TPunct (CHR '','') # rest \<or> c = TPunct (CHR '')'') # rest)"
  by (cases c) (auto simp: item_ends_def is_punct_iff)

lemma type_words_stop: "clause_ends c \<Longrightarrow> type_words c = ([], c)"
  by (auto simp: clause_ends_def item_ends_cases)

lemma type_words_open: "type_words (TPunct p # c) = ([], TPunct p # c)"
  by simp

lemma type_words_words:
  "list_all (\<lambda>w. w \<notin> set AFTER_TYPE) ws \<Longrightarrow> type_words c = ([], c) \<Longrightarrow> type_words (map TWord ws @ c) = (ws, c)"
  by (induction ws) auto

lemma kind_words_join: "join '' '' (kind_words k) = kind_as_str k"
  by (simp add: kind_words_def)

lemma kind_words_plain: "list_all (\<lambda>w. w \<notin> set AFTER_TYPE) (kind_words k)"
  by (cases k) (simp_all add: kind_words_def AFTER_TYPE_def)

lemma type_name_kind: "type_words c = ([], c) \<Longrightarrow> type_name (map TWord (kind_words k) @ c) = (kind_as_str k, c)"
  by (simp add: type_name_def type_words_words [OF kind_words_plain] kind_words_join)

lemma parameter_numbers_commas:
  "ns \<noteq> [] \<Longrightarrow> parameter_numbers (commas (map (\<lambda>n. [number_token n]) ns) @ TPunct (CHR '')'') # c) =
     (ns, TPunct (CHR '')'') # c)"
  by (induction ns rule: induct_list012) (simp_all add: number_token_def)

lemma parameters_type:
  assumes "clause_ends c"
  shows "parameters (dt_kind t) ((if type_numbers t = [] then []
       else in_parens (commas (map (\<lambda>n. [number_token n]) (type_numbers t)))) @ c) =
     ((dt_length (shown_type t), dt_precision (shown_type t), dt_scale (shown_type t)), c)"
proof (cases "type_numbers t = []")
  case True
  have "\<not> at_punct (CHR ''('') c" using assms by (auto simp: clause_ends_def item_ends_cases)
  then show ?thesis
    using True type_words_stop [OF assms]
    by (simp add: parameters_def eat_punct_def shown_type_def Let_def)
next
  case False
  have "eat_punct (CHR ''('') (in_parens ts @ c) = (True, ts @ TPunct (CHR '')'') # c)" for ts
    by (simp add: eat_punct_def in_parens_def)
  then show ?thesis
    using False type_words_stop [OF assms] parameter_numbers_commas [OF False, of c]
    by (auto simp: parameters_def eat_punct_def shown_type_def Let_def takes_length_def takes_precision_def
        split: data_type_kind.splits)
qed

lemma take_until_closed:
  assumes "take_until n stop (ts @ [TPunct (CHR '','')]) = (ts, [TPunct (CHR '','')])"
    and "item_ends c \<or> (\<exists>w rest. c = TWord w # rest \<and> w \<in> set stop)"
  shows "take_until n stop (ts @ c) = (ts, c)"
  using assms(1)
proof (induction ts arbitrary: n)
  case Nil
  then have "n = 0" by (auto split: if_splits)
  then show ?case using assms(2) by (auto simp: item_ends_cases)
next
  case (Cons t ts)
  then show ?case by (auto simp: case_prod_beta prod_eq_iff split: if_splits)
qed

lemma constraints_ends: "item_ends c \<Longrightarrow> constraints c col = (c, col)"
  by (subst constraints.simps) (auto simp: item_ends_def)

lemma constraints_unique: "constraints (word ''unique'' # c) col = constraints c (col\<lparr>pc_unique := True\<rparr>)"
  by (subst constraints.simps) (simp add: cur_done_def eat_words_def)

lemma constraints_not_null:
  "constraints (word ''not'' # word ''null'' # c) col = constraints c (col\<lparr>pc_nullable := False\<rparr>)"
  by (subst constraints.simps) (simp add: cur_done_def eat_words_def)

lemma constraints_default:
  assumes "default_readable d" "clause_ends c"
  shows "constraints (word ''default'' # default_tokens d @ c) col =
    constraints c (col\<lparr>pc_default_value := Some d\<rparr>)"
proof -
  have "take_until_separator AFTER_TYPE (default_tokens d @ c) = (default_tokens d, c)"
    using assms take_until_closed [of 0 AFTER_TYPE "default_tokens d" c]
    by (auto simp: default_readable_def take_until_separator_def clause_ends_def)
  then show ?thesis
    using assms(1) by (subst constraints.simps) (simp add: cur_done_def eat_words_def default_readable_def)
qed

lemma clause_ends_words [simp]:
  "clause_ends (word ''not'' # c)" "clause_ends (word ''default'' # c)" "clause_ends (word ''unique'' # c)"
  by (simp_all add: clause_ends_def AFTER_TYPE_def)

lemma column_reads:
  assumes "item_ends c" "\<And>d. attr_default_value a = Some d \<Longrightarrow> default_readable d"
  shows "column (column_tokens a @ c) = (Inr (read_column a), c)"
proof -
  define u where "u = (if attr_unique a \<and> \<not> attr_primary_key a then [word ''unique''] else []) @ c"
  define d where "d = (case attr_default_value a of Some d \<Rightarrow> word ''default'' # default_tokens d | None \<Rightarrow> []) @ u"
  define n where "n = (if \<not> attr_nullable a then [word ''not'', word ''null''] else []) @ d"
  define ps where "ps = (if type_numbers (attr_data_type a) = [] then []
     else in_parens (commas (map (\<lambda>n. [number_token n]) (type_numbers (attr_data_type a)))))"
  let ?k = "dt_kind (attr_data_type a)" and ?t = "shown_type (attr_data_type a)"
  have ends: "clause_ends u" "clause_ends d" "clause_ends n"
    using item_ends_clause [OF assms(1)] by (auto simp: u_def d_def n_def split: option.split)
  have "type_words (ps @ n) = ([], ps @ n)"
    using type_words_stop [OF ends(3)] by (simp add: ps_def in_parens_def)
  then have name: "type_name (map TWord (kind_words ?k) @ ps @ n) = (kind_as_str ?k, ps @ n)"
    by (rule type_name_kind)
  have params: "parameters ?k (ps @ n) = ((dt_length ?t, dt_precision ?t, dt_scale ?t), n)"
    unfolding ps_def by (rule parameters_type [OF ends(3)])
  have tokens: "column_tokens a @ c = name_token (attr_name a) # map TWord (kind_words ?k) @ ps @ n"
    by (simp add: column_tokens_def type_tokens_def ps_def n_def d_def u_def)
  have "constraints n col = constraints d (col\<lparr>pc_nullable := pc_nullable col \<and> attr_nullable a\<rparr>)" for col
    by (simp add: n_def constraints_not_null)
  moreover have "constraints d col = constraints u (col\<lparr>pc_default_value :=
      (case attr_default_value a of Some d \<Rightarrow> Some d | None \<Rightarrow> pc_default_value col)\<rparr>)" for col
    using assms(2) ends(1) by (simp add: d_def constraints_default split: option.split)
  moreover have "constraints u col = (c, col\<lparr>pc_unique :=
      pc_unique col \<or> (attr_unique a \<and> \<not> attr_primary_key a)\<rparr>)" for col
    by (cases "attr_unique a \<and> \<not> attr_primary_key a")
      (auto simp: u_def constraints_unique constraints_ends [OF assms(1)])
  ultimately show ?thesis
    unfolding tokens column_def
    by (simp add: peek_def name_token_def name kind_of_as_str params not_serial read_column_def shown_type_def Let_def
        split: option.split)
qed

section \<open>Tables\<close>

definition add_column :: "parsed_column \<Rightarrow> parsed_table \<Rightarrow> parsed_table" where
  "add_column col t = t\<lparr>pt_columns := pt_columns t @ [col]\<rparr>"

lemma item_column:
  assumes "item_ends c" "\<And>d. attr_default_value a = Some d \<Longrightarrow> default_readable d"
  shows "item (column_tokens a @ c) t = (c, add_column (read_column a) t)"
proof -
  obtain ts where ts: "column_tokens a @ c = TQuoted (trim (attr_name a)) # ts"
    by (simp add: column_tokens_def name_token_def)
  have "\<not> at_word ''references'' c" using assms(1) by (auto simp: item_ends_cases)
  then have "column_item (column_tokens a @ c) t = (c, add_column (read_column a) t)"
    by (simp add: column_item_def column_reads [OF assms] inline_reference_def add_column_def)
  then show ?thesis by (simp add: item_def item_body_def ts eat_words_def Let_def)
qed

lemma name_list_loop_commas:
  "ns \<noteq> [] \<Longrightarrow> name_list_loop (commas (map (\<lambda>n. [name_token n]) ns) @ TPunct (CHR '')'') # c) = (Some (map trim ns), c)"
  by (induction ns rule: induct_list012) (simp_all add: name_token_def)

lemma name_list_names:
  "ns \<noteq> [] \<Longrightarrow> name_list (in_parens (commas (map (\<lambda>n. [name_token n]) ns)) @ c) = (Some (map trim ns), c)"
  using name_list_loop_commas [of ns c] by (simp add: name_list_def in_parens_def eat_punct_def)

lemma item_key:
  assumes "ks \<in> set (key_tokens e)"
  shows "item (ks @ c) t = (c, mark_primary (map (trim \<circ> attr_name) (primary_key e)) t)"
proof -
  have key: "primary_key e \<noteq> []"
    "ks = [word ''primary'', word ''key''] @ in_parens (commas (map (\<lambda>n. [name_token n]) (map attr_name (primary_key e))))"
    using assms by (auto simp: key_tokens_def comp_def split: if_splits)
  then have "name_list (drop 2 ks @ c) = (Some (map (trim \<circ> attr_name) (primary_key e)), c)"
    using name_list_names [of "map attr_name (primary_key e)" c] by simp
  then show ?thesis by (simp add: item_def item_body_def key(2) eat_words_def Let_def)
qed

lemma items_commas:
  assumes "\<And>x c t. x \<in> set xs \<Longrightarrow> item_ends c \<Longrightarrow> item (fst x @ c) t = (c, snd x t)"
    and "\<And>x. x \<in> set xs \<Longrightarrow> \<exists>w ts. fst x = TWord w # ts \<or> fst x = TQuoted w # ts"
  shows "items (commas (map fst xs) @ [TPunct (CHR '')'')]) t = fold snd xs t"
  using assms
proof (induction xs arbitrary: t rule: induct_list012)
  case 1
  then show ?case by (simp add: items.simps)
next
  case (2 x)
  have "item (fst x @ [TPunct (CHR '')'')]) t = ([TPunct (CHR '')'')], snd x t)"
    using 2 by (simp add: item_ends_def)
  moreover have "\<not> (cur_done (fst x @ c) \<or> at_punct (CHR '')'') (fst x @ c))" for c
    using 2(2) [of x] by (auto simp: cur_done_def)
  ultimately show ?case by (subst items.simps) simp
next
  case (3 x y zs)
  let ?c = "commas (map fst (y # zs)) @ [TPunct (CHR '')'')]"
  have "item (fst x @ TPunct (CHR '','') # ?c) t = (TPunct (CHR '','') # ?c, snd x t)"
    using 3(3) by (simp add: item_ends_def)
  moreover have "\<not> (cur_done (fst x @ c) \<or> at_punct (CHR '')'') (fst x @ c))" for c
    using 3(4) [of x] by (auto simp: cur_done_def)
  ultimately have "items (fst x @ TPunct (CHR '','') # ?c) t = items ?c (snd x t)"
    by (subst items.simps) simp
  also have "\<dots> = fold snd (y # zs) (snd x t)" using 3 by (intro 3(2)) simp_all
  finally show ?case by simp
qed

text \<open>Marking the key: with distinct names, exactly the columns of the key change.\<close>

lemma change_first_map:
  "distinct (map k xs) \<Longrightarrow> change_first (\<lambda>y. k y = v) f xs = map (\<lambda>y. if k y = v then f y else y) xs"
proof (induction xs)
  case (Cons x xs)
  have "map (\<lambda>y. if k y = v then f y else y) xs = xs" if "k x = v"
    using Cons.prems that by (intro map_idI) (auto simp: image_iff)
  then show ?case using Cons by simp
qed simp

lemma mark_primary_map:
  assumes "distinct (map (to_ascii_lowercase \<circ> pc_name) (pt_columns t))"
  shows "mark_primary ns t = t\<lparr>pt_columns := map (\<lambda>c.
     if to_ascii_lowercase (pc_name c) \<in> to_ascii_lowercase ` set ns
     then c\<lparr>pc_primary_key := True, pc_nullable := False\<rparr> else c) (pt_columns t)\<rparr>"
  using assms
proof (induction ns arbitrary: t)
  case Nil
  then show ?case by (simp add: mark_primary_def)
next
  case (Cons n ns)
  let ?f = "\<lambda>c. c\<lparr>pc_primary_key := True, pc_nullable := False\<rparr>"
  define t' where "t' = change_column n ?f t"
  have t': "t' = t\<lparr>pt_columns := map (\<lambda>c. if to_ascii_lowercase (pc_name c) = to_ascii_lowercase n then ?f c else c)
      (pt_columns t)\<rparr>"
    using change_first_map [OF Cons.prems, of "to_ascii_lowercase n" ?f]
    by (simp add: t'_def change_column_def eq_ignore_ascii_case_def)
  have "map (to_ascii_lowercase \<circ> pc_name) (pt_columns t') = map (to_ascii_lowercase \<circ> pc_name) (pt_columns t)"
    by (simp add: t')
  then have "mark_primary ns t' = t'\<lparr>pt_columns := map (\<lambda>c.
     if to_ascii_lowercase (pc_name c) \<in> to_ascii_lowercase ` set ns then ?f c else c) (pt_columns t')\<rparr>"
    using Cons.prems by (intro Cons.IH) metis
  moreover have "mark_primary (n # ns) t = mark_primary ns t'" by (simp add: mark_primary_def t'_def)
  ultimately show ?case by (auto simp: t')
qed

definition parsed_column_of :: "attribute \<Rightarrow> parsed_column" where
  "parsed_column_of a = \<lparr>pc_name = trim (attr_name a), pc_data_type = shown_type (attr_data_type a),
     pc_nullable = (attr_nullable a \<and> \<not> attr_primary_key a), pc_primary_key = attr_primary_key a,
     pc_unique = (attr_unique a \<and> \<not> attr_primary_key a), pc_default_value = attr_default_value a\<rparr>"

definition parsed_table_of :: "entity \<Rightarrow> parsed_table" where
  "parsed_table_of e = \<lparr>pt_name = trim (ent_name e), pt_columns = map parsed_column_of (ent_attributes e),
     pt_foreign_keys = [], pt_skipped = []\<rparr>"

definition folded :: "string \<Rightarrow> string" where
  "folded n = to_ascii_lowercase (trim n)"

lemma fold_add_column: "fold add_column cols t = t\<lparr>pt_columns := pt_columns t @ cols\<rparr>"
  by (induction cols arbitrary: t) (simp_all add: add_column_def)

lemma key_columns:
  assumes "distinct (map (folded \<circ> attr_name) as)"
  shows "map (\<lambda>c. if to_ascii_lowercase (pc_name c) \<in> to_ascii_lowercase ` set (map (trim \<circ> attr_name) (filter attr_primary_key as))
       then c\<lparr>pc_primary_key := True, pc_nullable := False\<rparr> else c) (map read_column as) = map parsed_column_of as"
proof -
  have "to_ascii_lowercase (trim (attr_name a)) \<in> to_ascii_lowercase ` set (map (trim \<circ> attr_name) (filter attr_primary_key as))
      \<longleftrightarrow> attr_primary_key a" if "a \<in> set as" for a
    using that assms unfolding distinct_map inj_on_def by (auto simp: folded_def)
  then show ?thesis by (auto simp: read_column_def parsed_column_of_def)
qed

lemma parse_table_tokens:
  assumes "\<And>a d. a \<in> set (ent_attributes e) \<Longrightarrow> attr_default_value a = Some d \<Longrightarrow> default_readable d"
    and "distinct (map (folded \<circ> attr_name) (ent_attributes e))"
  shows "parse_table (table_tokens e) = Some (parsed_table_of e)"
proof -
  let ?mark = "mark_primary (map (trim \<circ> attr_name) (primary_key e))"
  let ?t = "\<lparr>pt_name = trim (ent_name e), pt_columns = [], pt_foreign_keys = [], pt_skipped = []\<rparr>"
  define xs where "xs = map (\<lambda>a. (column_tokens a, add_column (read_column a))) (ent_attributes e)
     @ map (\<lambda>ks. (ks, ?mark)) (key_tokens e)"
  have "items (commas (map fst xs) @ [TPunct (CHR '')'')]) ?t = fold snd xs ?t"
  proof (rule items_commas)
    show "item (fst x @ c) t = (c, snd x t)" if "x \<in> set xs" "item_ends c" for x c t
      using that item_column item_key assms(1) by (auto simp: xs_def)
    show "\<exists>w ts. fst x = TWord w # ts \<or> fst x = TQuoted w # ts" if "x \<in> set xs" for x
      using that by (auto simp: xs_def column_tokens_def name_token_def key_tokens_def split: if_splits)
  qed
  moreover have "fold snd xs ?t = fold (\<lambda>ks. ?mark) (key_tokens e) (fold add_column (map read_column (ent_attributes e)) ?t)"
    by (simp add: xs_def fold_map comp_def)
  moreover have "fold (\<lambda>ks. ?mark) (key_tokens e) = ?mark"
    by (auto simp: key_tokens_def mark_primary_def)
  moreover have "?mark (?t\<lparr>pt_columns := map read_column (ent_attributes e)\<rparr>) = parsed_table_of e"
    using assms(2) key_columns [OF assms(2)]
    by (subst mark_primary_map) (simp_all add: primary_key_def parsed_table_of_def read_column_def folded_def comp_def)
  ultimately have "items (commas (map column_tokens (ent_attributes e) @ key_tokens e) @ [TPunct (CHR '')'')]) ?t
      = parsed_table_of e"
    by (simp add: fold_add_column xs_def comp_def)
  then show ?thesis
    by (simp add: parse_table_def table_tokens_def in_parens_def name_token_def qualified_name_def eat_words_def Let_def)
qed

section \<open>Foreign keys and comments\<close>

definition parsed_key_of :: "entity \<times> attribute \<times> entity \<times> attribute \<Rightarrow> string \<times> parsed_foreign_key" where
  "parsed_key_of = (\<lambda>(e, a, target, key). (trim (ent_name e), \<lparr>pfk_column = trim (attr_name a),
     pfk_table = trim (ent_name target), pfk_target = Some (trim (attr_name key))\<rparr>))"

lemma alter_reads: "alter (reference_tokens x) = Some (parsed_key_of x)"
  by (simp add: alter_def reference_tokens_def foreign_key_tokens_def parsed_key_of_def in_parens_def name_token_def
      eat_word_def eat_words_def qualified_name_def name_list_def eat_punct_def first_name_def Let_def split: prod.split)

definition entity_comment_of :: "entity \<Rightarrow> sql_comment" where
  "entity_comment_of e = \<lparr>com_table = trim (ent_name e), com_column = None, com_text = trim (ent_description e)\<rparr>"

definition attribute_comment_of :: "entity \<Rightarrow> attribute \<Rightarrow> sql_comment" where
  "attribute_comment_of e a = \<lparr>com_table = trim (ent_name e), com_column = Some (trim (attr_name a)),
     com_text = trim (attr_description a)\<rparr>"

lemma rsplit_once_last: "c \<notin> set v \<Longrightarrow> rsplit_once c (u @ c # v) = Some (u, v)"
  by (simp add: rsplit_once_def split_once_def dropWhile_append takeWhile_append)

lemma comment_entity_reads: "comment (entity_comment_tokens e) = Some (entity_comment_of e)"
  by (simp add: comment_def entity_comment_tokens_def entity_comment_of_def name_token_def eat_word_def
      qualified_name_def Let_def)

lemma comment_attribute_reads:
  "CHR ''.'' \<notin> set (trim (attr_name a)) \<Longrightarrow> comment (attribute_comment_tokens e a) = Some (attribute_comment_of e a)"
  by (simp add: comment_def attribute_comment_tokens_def attribute_comment_of_def name_token_def eat_word_def
      qualified_name_def rsplit_once_last Let_def)

definition comments_of :: "entity list \<Rightarrow> sql_comment list" where
  "comments_of es = concat (map (\<lambda>e.
     (if ent_is_documented e then [entity_comment_of e] else []) @
     map (attribute_comment_of e) (filter attr_is_documented (ent_attributes e))) es)"

text \<open>A comment names its column after the last full stop, so a documented column has none in its name.\<close>

definition comments_readable :: "generate_options \<Rightarrow> schema \<Rightarrow> bool" where
  "comments_readable options s \<longleftrightarrow> (include_comments options \<longrightarrow>
     list_all (\<lambda>e. list_all (\<lambda>a. attr_is_documented a \<longrightarrow> CHR ''.'' \<notin> set (trim (attr_name a)))
       (ent_attributes e)) (sch_entities s))"

lemma comment_tokens_read:
  assumes "comments_readable options s" "include_comments options"
  shows "map comment (comment_tokens s) = map Some (comments_of (sch_entities s))"
proof -
  have part: "map comment (concat (map (\<lambda>a. if attr_is_documented a then [attribute_comment_tokens e a] else [])
      as)) = map Some (map (attribute_comment_of e) (filter attr_is_documented as))"
    if "list_all (\<lambda>a. attr_is_documented a \<longrightarrow> CHR ''.'' \<notin> set (trim (attr_name a))) as" for e as
    using that by (induction as) (auto simp: comment_attribute_reads)
  show ?thesis
    unfolding comment_tokens_def comments_of_def map_concat map_map comp_def
    using assms part
    by (intro arg_cong [where f = concat] map_cong refl)
      (auto simp: comments_readable_def list_all_iff comment_entity_reads)
qed

section \<open>Sorting the statements\<close>

lemma sort_tables:
  assumes "map st_tokens sts = map table_tokens es" "\<And>e. e \<in> set es \<Longrightarrow> parse_table (table_tokens e) = Some (parsed_table_of e)"
  shows "fold sort_statement (enumerate n sts) p = p\<lparr>part_tables := part_tables p @ map parsed_table_of es,
    part_table_at := part_table_at p @ [n..<n + length es]\<rparr>"
  using assms
proof (induction es arbitrary: sts n p)
  case (Cons e es)
  then obtain st sts' where sts: "sts = st # sts'" "st_tokens st = table_tokens e" "map st_tokens sts' = map table_tokens es"
    by (cases sts) auto
  have "classify st = Read_table (parsed_table_of e)"
    using Cons.prems(2) by (simp add: classify_def sts(2) Let_def) (simp add: table_tokens_def)
  then have "fold sort_statement (enumerate n sts) p = fold sort_statement (enumerate (Suc n) sts')
      (p\<lparr>part_table_at := part_table_at p @ [n], part_tables := part_tables p @ [parsed_table_of e]\<rparr>)"
    by (simp add: sts(1) sort_statement_def)
  moreover have "[n..<n + length (e # es)] = n # [Suc n..<Suc n + length es]"
    using upt_conv_Cons [of n "n + Suc (length es)"] by (simp del: upt_Suc)
  ultimately show ?case using Cons.IH [OF sts(3)] Cons.prems(2) by (simp del: upt_Suc)
qed simp

lemma sort_keys:
  assumes "map st_tokens sts = map reference_tokens xs"
  shows "fold sort_statement (enumerate n sts) p = p\<lparr>part_late_keys := part_late_keys p @ map parsed_key_of xs\<rparr>"
  using assms
proof (induction xs arbitrary: sts n p)
  case (Cons x xs)
  then obtain st sts' where sts: "sts = st # sts'" "st_tokens st = reference_tokens x" "map st_tokens sts' = map reference_tokens xs"
    by (cases sts) auto
  have "at_word ''alter'' (reference_tokens x)" "\<not> at_word ''create'' (reference_tokens x)"
    by (simp_all add: reference_tokens_def foreign_key_tokens_def split: prod.split)
  then have "classify st = Read_foreign_key (parsed_key_of x)"
    by (simp add: classify_def sts(2) alter_reads Let_def)
  then show ?case using Cons.IH [OF sts(3)] by (simp add: sts(1) sort_statement_def)
qed simp

lemma sort_comments:
  assumes "map st_tokens sts = tss" "map comment tss = map Some cs" "\<And>ts. ts \<in> set tss \<Longrightarrow> hd ts = word ''comment'' \<and> ts \<noteq> []"
  shows "fold sort_statement (enumerate n sts) p = p\<lparr>part_comments := part_comments p @ cs\<rparr>"
  using assms
proof (induction sts arbitrary: tss cs n p)
  case (Cons st sts)
  then obtain c cs' where cs: "cs = c # cs'" "comment (st_tokens st) = Some c" "map comment (map st_tokens sts) = map Some cs'"
    by (cases cs) auto
  have "at_word ''comment'' (st_tokens st)" "\<not> at_word ''create'' (st_tokens st)" "\<not> at_word ''alter'' (st_tokens st)"
    using Cons.prems(1,3) by (cases "st_tokens st"; force)+
  then have "classify st = Read_comment c" by (simp add: classify_def cs(2) Let_def)
  then have "sort_statement (n, st) p = p\<lparr>part_comments := part_comments p @ [c]\<rparr>"
    by (simp add: sort_statement_def)
  moreover have "hd ts = word ''comment'' \<and> ts \<noteq> []" if "ts \<in> set (map st_tokens sts)" for ts
    using that Cons.prems(1,3) by auto
  ultimately show ?case using Cons.IH [OF refl cs(3)] by (simp add: cs(1))
qed simp

text \<open>Names that stay apart when case is ignored.\<close>

definition names_apart :: "schema \<Rightarrow> bool" where
  "names_apart s \<longleftrightarrow> distinct (map (folded \<circ> ent_name) (sch_entities s)) \<and>
     list_all (\<lambda>e. distinct (map (folded \<circ> attr_name) (ent_attributes e))) (sch_entities s)"

lemma sort_generated:
  assumes "scannable options s" "comments_readable options s" "names_apart s"
  shows "sort_statements (fst (scan (generate s options))) =
    \<lparr>part_tables = map parsed_table_of (sch_entities s), part_table_at = [0..<length (sch_entities s)],
     part_comments = (if include_comments options then comments_of (sch_entities s) else []),
     part_late_keys = map parsed_key_of (references_of s), part_report = report_default\<rparr>"
proof -
  define cts where "cts = (if include_comments options then comment_tokens s else [])"
  obtain ts vs where 1: "fst (scan (generate s options)) = ts @ vs"
    "map table_tokens (sch_entities s) = map st_tokens ts" "map reference_tokens (references_of s) @ cts = map st_tokens vs"
    using scan_generate(1) [OF assms(1), folded cts_def] unfolding map_eq_append_conv by blast
  obtain ks cs where 2: "vs = ks @ cs" "map reference_tokens (references_of s) = map st_tokens ks" "cts = map st_tokens cs"
    using 1(3) [symmetric] unfolding map_eq_append_conv by blast
  have split: "fst (scan (generate s options)) = ts @ ks @ cs" "map st_tokens ts = map table_tokens (sch_entities s)"
    "map st_tokens ks = map reference_tokens (references_of s)" "map st_tokens cs = cts"
    using 1 2 by simp_all
  have tables: "parse_table (table_tokens e) = Some (parsed_table_of e)" if "e \<in> set (sch_entities s)" for e
    using assms(1,3) that by (intro parse_table_tokens) (fastforce simp: scannable_def names_apart_def list_all_iff)+
  have "map comment cts = map Some (if include_comments options then comments_of (sch_entities s) else [])"
    using comment_tokens_read [OF assms(2)] by (simp add: cts_def)
  moreover have "hd ts = word ''comment'' \<and> ts \<noteq> []" if "ts \<in> set cts" for ts
    using that by (auto simp: cts_def comment_tokens_def entity_comment_tokens_def attribute_comment_tokens_def split: if_splits)
  ultimately show ?thesis
    by (simp add: sort_statements_def split(1) enumerate_append_eq sort_tables [OF split(2) tables] sort_keys [OF split(3)]
        sort_comments [OF split(4)])
qed

end
