(* ===== verification/Script_Import.thy ===== *)
theory Script_Import
  imports Script_Read
begin

text \<open>
  The draft the reader builds from a generated script. The entities are followed through the
  three passes of the reader - drawing the tables, linking the foreign keys, attaching the
  comments - as a picture of the entities the script was written from, with fresh identifiers
  (\<open>import_generated\<close>); \<open>outline\<close> then forgets the identifiers, and a schema and what becomes of it
  through its script have the same outline (\<open>outline_generated\<close>).
\<close>

lemma find_index_key: "distinct (map k xs) \<Longrightarrow> i < length xs \<Longrightarrow> find_index (\<lambda>y. k y = k (xs ! i)) xs = Some i"
proof (induction xs arbitrary: i)
  case (Cons y xs)
  show ?case
  proof (cases i)
    case (Suc j)
    then have "k (xs ! j) \<in> k ` set xs" using Cons.prems(2) by simp
    then have "k y \<noteq> k (xs ! j)" using Cons.prems(1) by auto
    then show ?thesis using Cons Suc by simp
  qed simp
qed simp

lemma map_update_distinct:
  "distinct xs \<Longrightarrow> i < length xs \<Longrightarrow> (map f xs)[i := y] = map (\<lambda>x. if x = xs ! i then y else f x) xs"
  by (rule nth_equalityI) (auto simp: nth_list_update nth_eq_iff_index_eq)

section \<open>Pictures of the entities\<close>

fun numbered :: "nat \<Rightarrow> entity list \<Rightarrow> (nat \<times> entity) list" where
  "numbered n [] = []"
| "numbered n (e # es) = (n, e) # numbered (Suc n + length (ent_attributes e)) es"

type_synonym links = "entity \<times> attribute \<Rightarrow> foreign_key_ref option"

record labels =
  of_entity :: "entity \<Rightarrow> string"
  of_attribute :: "entity \<times> attribute \<Rightarrow> string"

definition pic_attribute :: "(nat \<Rightarrow> string) \<Rightarrow> links \<Rightarrow> labels \<Rightarrow> entity \<Rightarrow> nat \<times> attribute \<Rightarrow> attribute" where
  "pic_attribute ids f l e = (\<lambda>(i, a).
     \<lparr>attr_id = fresh ids ''a'' i, attr_name = trim (attr_name a), attr_description = of_attribute l (e, a),
      attr_data_type = shown_type (attr_data_type a), attr_nullable = (attr_nullable a \<and> \<not> attr_primary_key a),
      attr_primary_key = attr_primary_key a, attr_unique = (attr_unique a \<or> attr_primary_key a),
      attr_foreign_key = f (e, a), attr_default_value = attr_default_value a\<rparr>)"

definition pic_entity :: "(nat \<Rightarrow> string) \<Rightarrow> links \<Rightarrow> labels \<Rightarrow> nat \<times> entity \<Rightarrow> entity" where
  "pic_entity ids f l = (\<lambda>(n, e).
     \<lparr>ent_id = fresh ids ''e'' n, ent_name = trim (ent_name e), ent_description = of_entity l e,
      ent_attributes = map (pic_attribute ids f l e) (enumerate (Suc n) (ent_attributes e)),
      ent_position = position_default\<rparr>)"

definition pic :: "(nat \<Rightarrow> string) \<Rightarrow> links \<Rightarrow> labels \<Rightarrow> relationship list \<Rightarrow> entity list \<Rightarrow> schema_draft" where
  "pic ids f l rs es = \<lparr>draft_name = '''', draft_description = '''',
     draft_entities = map (pic_entity ids f l) (numbered 0 es), draft_relationships = rs\<rparr>"

definition no_labels :: labels where
  "no_labels = \<lparr>of_entity = \<lambda>_. '''', of_attribute = \<lambda>_. ''''\<rparr>"

lemma map_snd_numbered [simp]: "map snd (numbered n es) = es"
  by (induction n es rule: numbered.induct) simp_all

lemma map_numbered: "map (\<lambda>x. f (snd x)) (numbered n es) = map f es"
  using map_map [of f snd "numbered n es"] by (simp add: comp_def)

lemma length_numbered [simp]: "length (numbered n es) = length es"
  using map_snd_numbered [of n es] by (metis length_map)

lemma nth_numbered: "i < length es \<Longrightarrow> snd (numbered n es ! i) = es ! i"
  using nth_map [of i "numbered n es" snd] by simp

lemma numbered_index: "(n, e) \<in> set (numbered m es) \<Longrightarrow> \<exists>i < length es. numbered m es ! i = (n, e)"
  unfolding in_set_conv_nth by simp

lemma numbered_member: "(n, e) \<in> set (numbered m es) \<Longrightarrow> e \<in> set es"
  by (induction m es rule: numbered.induct) auto

lemma member_numbered: "e \<in> set es \<Longrightarrow> \<exists>n. (n, e) \<in> set (numbered m es)"
  by (induction m es rule: numbered.induct) auto

lemma numbered_ge: "(n, e) \<in> set (numbered m es) \<Longrightarrow> m \<le> n"
  by (induction m es rule: numbered.induct) auto

lemma distinct_numbers: "distinct (map fst (numbered m es))"
proof (induction m es rule: numbered.induct)
  case (2 n e es)
  then show ?case by (auto dest: numbered_ge)
qed simp

lemma enumerate_member: "(i, a) \<in> set (enumerate n as) \<Longrightarrow> a \<in> set as"
  using map_snd_enumerate [of n as] by (metis image_eqI list.set_map snd_conv)

lemma member_enumerate: "a \<in> set as \<Longrightarrow> \<exists>i. (i, a) \<in> set (enumerate n as)"
  using map_snd_enumerate [of n as] by (metis imageE list.set_map prod.collapse)

lemma distinct_of_map: "distinct (map f xs) \<Longrightarrow> distinct xs"
  by (simp add: distinct_map)

lemma draw_tables:
  "fold (draw_table ids) (map parsed_table_of es) (d, r, n) =
     (d\<lparr>draft_entities := draft_entities d @ map (pic_entity ids (\<lambda>_. None) no_labels) (numbered n es)\<rparr>, r,
      n + sum_list (map (\<lambda>e. Suc (length (ent_attributes e))) es))"
proof (induction es arbitrary: d n)
  case (Cons e es)
  have "map (\<lambda>(i, col). attribute_from ids i col) (enumerate m (map parsed_column_of as)) =
      map (pic_attribute ids (\<lambda>_. None) no_labels e) (enumerate m as)" for m as
    by (induction as arbitrary: m)
      (auto simp: attribute_from_def attribute_new_def parsed_column_of_def pic_attribute_def no_labels_def)
  then have "entity_from ids n (parsed_table_of e) =
      (pic_entity ids (\<lambda>_. None) no_labels (n, e), Suc n + length (ent_attributes e))"
    by (simp add: entity_from_def parsed_table_of_def pic_entity_def with_attributes_def entity_new_def no_labels_def)
  then have "draw_table ids (parsed_table_of e) (d, r, n) =
      (d\<lparr>draft_entities := draft_entities d @ [pic_entity ids (\<lambda>_. None) no_labels (n, e)]\<rparr>, r,
       Suc n + length (ent_attributes e))"
    by (simp add: draw_table_def parsed_table_of_def)
  then show ?case by (simp add: Cons.IH)
qed simp

section \<open>Finding a picture by its name\<close>

text \<open>The entities a script is written from have distinct names, as have the columns of each.\<close>

definition entities_apart :: "entity list \<Rightarrow> bool" where
  "entities_apart es \<longleftrightarrow> distinct (map (folded \<circ> ent_name) es) \<and>
     list_all (\<lambda>e. distinct (map (folded \<circ> attr_name) (ent_attributes e))) es"

lemma entities_apartD:
  assumes "entities_apart es"
  shows "distinct es" "distinct (map (\<lambda>e. to_ascii_lowercase (trim (ent_name e))) es)"
    "e \<in> set es \<Longrightarrow> distinct (ent_attributes e)"
    "e \<in> set es \<Longrightarrow> distinct (map (\<lambda>a. to_ascii_lowercase (trim (attr_name a))) (ent_attributes e))"
  using assms by (auto simp: entities_apart_def list_all_iff folded_def comp_def dest: distinct_of_map)

lemma find_table_pic:
  assumes "entities_apart es" "(n, e) \<in> set (numbered 0 es)"
  obtains i where "i < length es" "numbered 0 es ! i = (n, e)"
    "find_table (pic ids f l rs es) (trim (ent_name e)) = Some i"
proof -
  obtain i where i: "i < length es" "numbered 0 es ! i = (n, e)"
    using numbered_index [OF assms(2)] by blast
  let ?es = "draft_entities (pic ids f l rs es)" and ?k = "\<lambda>e. to_ascii_lowercase (ent_name e)"
  have "map ?k ?es = map (\<lambda>e. to_ascii_lowercase (trim (ent_name e))) es"
    using map_numbered [of "\<lambda>e. to_ascii_lowercase (trim (ent_name e))" 0 es]
    by (simp add: pic_def pic_entity_def comp_def case_prod_beta)
  then have "distinct (map ?k ?es)" using entities_apartD(2) [OF assms(1)] by simp
  then have "find_index (\<lambda>x. ?k x = ?k (?es ! i)) ?es = Some i"
    using i(1) by (intro find_index_key) (simp_all add: pic_def)
  moreover have "ent_name (?es ! i) = trim (ent_name e)" using i by (simp add: pic_def pic_entity_def)
  ultimately have "find_table (pic ids f l rs es) (trim (ent_name e)) = Some i"
    by (simp add: find_table_def eq_ignore_ascii_case_def)
  then show ?thesis using i that by blast
qed

lemma attribute_id_of_pic:
  assumes "distinct (map (\<lambda>a. to_ascii_lowercase (trim (attr_name a))) (ent_attributes e))"
    and "(i, a) \<in> set (enumerate (Suc n) (ent_attributes e))"
  shows "attribute_id_of (pic_entity ids f l (n, e)) (trim (attr_name a)) = Some (fresh ids ''a'' i)"
proof -
  let ?as = "map (pic_attribute ids f l e) (enumerate (Suc n) (ent_attributes e))"
  have "map (\<lambda>a. to_ascii_lowercase (attr_name a)) ?as =
      map (\<lambda>a. to_ascii_lowercase (trim (attr_name a))) (map snd (enumerate (Suc n) (ent_attributes e)))"
    unfolding map_map by (intro map_cong) (auto simp: pic_attribute_def)
  then have "distinct (map (\<lambda>a. to_ascii_lowercase (attr_name a)) ?as)" using assms(1) by simp
  moreover have "pic_attribute ids f l e (i, a) \<in> set ?as" using assms(2) by simp
  ultimately have "List.find (\<lambda>x. to_ascii_lowercase (attr_name x) =
      to_ascii_lowercase (attr_name (pic_attribute ids f l e (i, a)))) ?as = Some (pic_attribute ids f l e (i, a))"
    by (rule find_key)
  then show ?thesis
    by (simp add: attribute_id_of_def attribute_by_name_def eq_ignore_ascii_case_def pic_entity_def pic_attribute_def)
qed

lemma pic_update:
  assumes "entities_apart es" "i < length es" "numbered 0 es ! i = (n, e)"
    and "\<And>m x. (m, x) \<in> set (numbered 0 es) \<Longrightarrow> x \<noteq> e \<Longrightarrow> pic_entity ids f' l' (m, x) = pic_entity ids f l (m, x)"
    and "pic_entity ids f' l' (n, e) = y"
  shows "(draft_entities (pic ids f l rs es))[i := y] = draft_entities (pic ids f' l' rs' es)"
proof -
  have dist: "distinct (numbered 0 es)"
    using distinct_numbers [of 0 es] distinct_of_map by blast
  have other: "x \<noteq> e" if member: "(m, x) \<in> set (numbered 0 es)" "(m, x) \<noteq> (n, e)" for m x
  proof
    assume "x = e"
    obtain j where j: "j < length es" "numbered 0 es ! j = (m, x)"
      using numbered_index [OF member(1)] by blast
    have "es ! i = e" "es ! j = x"
      using nth_numbered [OF assms(2), of 0] nth_numbered [OF j(1), of 0] assms(3) j(2) by simp_all
    then have "i = j"
      using \<open>x = e\<close> assms(2) j(1) nth_eq_iff_index_eq [OF entities_apartD(1) [OF assms(1)]] by blast
    then show False using j assms(3) member(2) by simp
  qed
  have "(map (pic_entity ids f l) (numbered 0 es))[i := y] = map (pic_entity ids f' l') (numbered 0 es)"
  proof -
    have "pic_entity ids f' l' x = pic_entity ids f l x" if "x \<in> set (numbered 0 es)" "x \<noteq> (n, e)" for x
      using that other [of "fst x" "snd x"] assms(4) [of "fst x" "snd x"] by simp
    then show ?thesis
      using assms(2,3,5) map_update_distinct [OF dist, of i "pic_entity ids f l" y] by simp
  qed
  then show ?thesis by (simp add: pic_def)
qed

section \<open>The references of a schema\<close>

lemma find_in: "List.find p xs = Some x \<Longrightarrow> x \<in> set xs \<and> p x"
  by (induction xs) (auto split: if_splits)

lemma resolve_in: "resolve s i j = Some (t, k) \<Longrightarrow> t \<in> set (sch_entities s) \<and> k \<in> set (ent_attributes t)"
  by (auto simp: resolve_def schema_entity_def entity_attribute_def dest!: find_in split: option.splits)

lemma references_of_iff:
  "(e, a, t, k) \<in> set (references_of s) \<longleftrightarrow> e \<in> set (sch_entities s) \<and> a \<in> set (ent_attributes e) \<and>
     (\<exists>ref. attr_foreign_key a = Some ref \<and> resolve s (fk_entity_id ref) (fk_attribute_id ref) = Some (t, k))"
proof -
  have row: "(e, a, t, k) \<in> set (case attr_foreign_key a' of None \<Rightarrow> [] | Some ref \<Rightarrow>
      (case resolve s (fk_entity_id ref) (fk_attribute_id ref) of None \<Rightarrow> [] | Some (target, key) \<Rightarrow> [(e', a', target, key)]))
    \<longleftrightarrow> e = e' \<and> a = a' \<and> (\<exists>ref. attr_foreign_key a' = Some ref \<and>
      resolve s (fk_entity_id ref) (fk_attribute_id ref) = Some (t, k))" for e' a'
    by (cases "attr_foreign_key a'") (auto split: option.splits)
  show ?thesis unfolding references_of_def set_concat set_map UN_iff image_iff bex_simps row by blast
qed

section \<open>The three passes\<close>

definition key_ref :: "(nat \<Rightarrow> string) \<Rightarrow> entity list \<Rightarrow> entity \<Rightarrow> attribute \<Rightarrow> foreign_key_ref \<Rightarrow> bool" where
  "key_ref ids es target key ref \<longleftrightarrow> (\<exists>n i. (n, target) \<in> set (numbered 0 es) \<and>
     (i, key) \<in> set (enumerate (Suc n) (ent_attributes target)) \<and>
     ref = foreign_key_ref_new (fresh ids ''e'' n) (fresh ids ''a'' i))"

definition reference_in :: "entity list \<Rightarrow> entity \<times> attribute \<times> entity \<times> attribute \<Rightarrow> bool" where
  "reference_in es = (\<lambda>(e, a, target, key). e \<in> set es \<and> a \<in> set (ent_attributes e) \<and>
     target \<in> set es \<and> key \<in> set (ent_attributes target))"

lemma key_ref_exists: "reference_in es (e, a, target, key) \<Longrightarrow> \<exists>ref. key_ref ids es target key ref"
  using member_numbered [of target es 0] member_enumerate [of key "ent_attributes target"]
  by (fastforce simp: reference_in_def key_ref_def)

lemma fresh_eq: "inj ids \<Longrightarrow> fresh ids p i = fresh ids p j \<longleftrightarrow> i = j"
  by (simp add: fresh_def inj_eq)

lemma enumerate_functional:
  assumes "distinct as" "(i, a) \<in> set (enumerate n as)" "(j, b) \<in> set (enumerate n as)"
  shows "i = j \<longleftrightarrow> a = b"
proof -
  have "inj_on snd (set (enumerate n as))" "inj_on fst (set (enumerate n as))"
    using assms(1) distinct_map [of snd "enumerate n as"] distinct_map [of fst "enumerate n as"] by simp_all
  then show ?thesis using assms(2,3) unfolding inj_on_def by force
qed

lemma link_attribute:
  assumes "inj ids" "distinct (ent_attributes e)" "(i, a) \<in> set (enumerate (Suc n) (ent_attributes e))"
  shows "(pic_entity ids f l (n, e))\<lparr>ent_attributes := change_first (\<lambda>x. attr_id x = fresh ids ''a'' i)
      (\<lambda>x. x\<lparr>attr_foreign_key := Some ref\<rparr>) (ent_attributes (pic_entity ids f l (n, e)))\<rparr>
    = pic_entity ids (f((e, a) \<mapsto> ref)) l (n, e)"
proof -
  let ?en = "enumerate (Suc n) (ent_attributes e)"
  let ?as = "map (pic_attribute ids f l e) ?en"
  have "map attr_id ?as = map (fresh ids ''a'') (map fst ?en)"
    unfolding map_map by (intro map_cong) (auto simp: pic_attribute_def)
  moreover have "distinct (map (fresh ids ''a'') (map fst ?en))"
    by (simp add: distinct_map inj_on_def fresh_eq [OF assms(1)] del: upt_Suc)
  ultimately have "change_first (\<lambda>x. attr_id x = fresh ids ''a'' i) (\<lambda>x. x\<lparr>attr_foreign_key := Some ref\<rparr>) ?as =
      map (\<lambda>x. if attr_id x = fresh ids ''a'' i then x\<lparr>attr_foreign_key := Some ref\<rparr> else x) ?as"
    by (intro change_first_map) simp
  also have "\<dots> = map (pic_attribute ids (f((e, a) \<mapsto> ref)) l e) ?en"
    unfolding map_map comp_def
  proof (intro map_cong refl)
    fix x assume "x \<in> set ?en"
    then obtain j b where x: "x = (j, b)" "(j, b) \<in> set ?en" using prod.collapse by metis
    have "j = i \<longleftrightarrow> b = a" using enumerate_functional [OF assms(2) x(2) assms(3)] .
    then show "(if attr_id (pic_attribute ids f l e x) = fresh ids ''a'' i
        then (pic_attribute ids f l e x)\<lparr>attr_foreign_key := Some ref\<rparr> else pic_attribute ids f l e x) =
        pic_attribute ids (f((e, a) \<mapsto> ref)) l e x"
      using assms(1) by (auto simp: x pic_attribute_def fresh_eq)
  qed
  finally show ?thesis by (simp add: pic_entity_def)
qed

lemma pic_entity_other_link: "x \<noteq> e \<Longrightarrow> pic_entity ids (f((e, a) := v)) l (m, x) = pic_entity ids f l (m, x)"
  by (auto simp: pic_entity_def pic_attribute_def)

definition linked_relationship :: "string \<Rightarrow> foreign_key_ref \<Rightarrow> foreign_key_ref \<Rightarrow> relationship" where
  "linked_relationship ident target holder = relationship_new ident (fk_entity_id target, fk_attribute_id target)
     (fk_entity_id holder, fk_attribute_id holder) OneToMany"

lemma link_pic:
  assumes "inj ids" "entities_apart es" "reference_in es (e, a, target, key)"
    and "key_ref ids es target key ref" "key_ref ids es e a holder"
  shows "link ids (parsed_key_of (e, a, target, key)) (pic ids f l rs es, r, m) =
    (pic ids (f((e, a) \<mapsto> ref)) l (rs @ [linked_relationship (fresh ids ''r'' m) ref holder]) es, r, Suc m)"
proof -
  obtain n i where t: "(n, target) \<in> set (numbered 0 es)" "(i, key) \<in> set (enumerate (Suc n) (ent_attributes target))"
    "ref = foreign_key_ref_new (fresh ids ''e'' n) (fresh ids ''a'' i)"
    using assms(4) by (auto simp: key_ref_def)
  obtain n' j where h: "(n', e) \<in> set (numbered 0 es)" "(j, a) \<in> set (enumerate (Suc n') (ent_attributes e))"
    "holder = foreign_key_ref_new (fresh ids ''e'' n') (fresh ids ''a'' j)"
    using assms(5) by (auto simp: key_ref_def)
  let ?d = "pic ids f l rs es"
  obtain ti where ti: "ti < length es" "numbered 0 es ! ti = (n, target)"
    "find_table ?d (trim (ent_name target)) = Some ti" using find_table_pic [OF assms(2) t(1)] .
  obtain hi where hi: "hi < length es" "numbered 0 es ! hi = (n', e)"
    "find_table ?d (trim (ent_name e)) = Some hi" using find_table_pic [OF assms(2) h(1)] .
  have in_es: "e \<in> set es" "target \<in> set es" using assms(3) by (simp_all add: reference_in_def)
  have at: "draft_entities ?d ! ti = pic_entity ids f l (n, target)" "draft_entities ?d ! hi = pic_entity ids f l (n', e)"
    using ti hi by (simp_all add: pic_def)
  have ids: "attribute_id_of (pic_entity ids f l (n', e)) (trim (attr_name a)) = Some (fresh ids ''a'' j)"
    "attribute_id_of (pic_entity ids f l (n, target)) (trim (attr_name key)) = Some (fresh ids ''a'' i)"
    using attribute_id_of_pic entities_apartD(4) [OF assms(2)] in_es h(2) t(2) by blast+
  have changed: "(draft_entities ?d)[hi := pic_entity ids (f((e, a) \<mapsto> ref)) l (n', e)] =
      draft_entities (pic ids (f((e, a) \<mapsto> ref)) l (rs @ [linked_relationship (fresh ids ''r'' m) ref holder]) es)"
    using hi pic_entity_other_link by (intro pic_update [OF assms(2)]) simp_all
  have ref: "ent_id (pic_entity ids f l (n, target)) = fk_entity_id ref" "ent_id (pic_entity ids f l (n', e)) = fk_entity_id holder"
    "fresh ids ''a'' i = fk_attribute_id ref" "fresh ids ''a'' j = fk_attribute_id holder"
    by (simp_all add: t(3) h(3) pic_entity_def foreign_key_ref_new_def)
  have "link ids (parsed_key_of (e, a, target, key)) (?d, r, m) =
      (?d\<lparr>draft_entities := (draft_entities ?d)[hi := pic_entity ids (f((e, a) \<mapsto> ref)) l (n', e)],
          draft_relationships := rs @ [linked_relationship (fresh ids ''r'' m) ref holder]\<rparr>, r, Suc m)"
    using link_attribute [OF assms(1) entities_apartD(3) [OF assms(2) in_es(1)] h(2), where f = f and l = l and ref = ref]
    by (simp add: link_def parsed_key_of_def ti(3) hi(3) at ids ref linked_relationship_def Let_def)
      (simp add: pic_def t(3) foreign_key_ref_new_def)
  then show ?thesis by (simp add: changed) (simp add: pic_def)
qed

text \<open>Linking every reference, and attaching every comment.\<close>

definition link_of :: "(nat \<Rightarrow> string) \<Rightarrow> entity list \<Rightarrow> entity \<Rightarrow> attribute \<Rightarrow> foreign_key_ref" where
  "link_of ids es target key =
     (let n = fst (the (List.find (\<lambda>(n, e). e = target) (numbered 0 es)));
          i = fst (the (List.find (\<lambda>(i, a). a = key) (enumerate (Suc n) (ent_attributes target))))
      in foreign_key_ref_new (fresh ids ''e'' n) (fresh ids ''a'' i))"

lemma find_the: "x \<in> set xs \<Longrightarrow> p x \<Longrightarrow> \<exists>y \<in> set xs. p y \<and> List.find p xs = Some y"
  by (induction xs) auto

lemma key_ref_link_of:
  assumes "target \<in> set es" "key \<in> set (ent_attributes target)"
  shows "key_ref ids es target key (link_of ids es target key)"
proof -
  obtain n where n: "(n, target) \<in> set (numbered 0 es)" using member_numbered assms(1) by blast
  obtain m where m: "(m, target) \<in> set (numbered 0 es)" "List.find (\<lambda>(n, e). e = target) (numbered 0 es) = Some (m, target)"
    using find_the [OF n, of "\<lambda>(n, e). e = target"] by auto
  obtain i where i: "(i, key) \<in> set (enumerate (Suc m) (ent_attributes target))"
    using member_enumerate [OF assms(2)] by blast
  obtain j where j: "(j, key) \<in> set (enumerate (Suc m) (ent_attributes target))"
    "List.find (\<lambda>(i, a). a = key) (enumerate (Suc m) (ent_attributes target)) = Some (j, key)"
    using find_the [OF i, of "\<lambda>(i, a). a = key"] by auto
  have "link_of ids es target key = foreign_key_ref_new (fresh ids ''e'' m) (fresh ids ''a'' j)"
    by (simp add: link_of_def m(2) j(2) Let_def)
  then show ?thesis unfolding key_ref_def using m(1) j(1) by blast
qed

definition add_link :: "(nat \<Rightarrow> string) \<Rightarrow> entity list \<Rightarrow> entity \<times> attribute \<times> entity \<times> attribute \<Rightarrow> links \<Rightarrow> links" where
  "add_link ids es = (\<lambda>(e, a, target, key) f. f((e, a) \<mapsto> link_of ids es target key))"

definition relationship_of ::
  "(nat \<Rightarrow> string) \<Rightarrow> entity list \<Rightarrow> nat \<times> entity \<times> attribute \<times> entity \<times> attribute \<Rightarrow> relationship" where
  "relationship_of ids es = (\<lambda>(m, e, a, target, key).
     linked_relationship (fresh ids ''r'' m) (link_of ids es target key) (link_of ids es e a))"

lemma link_all:
  assumes "inj ids" "entities_apart es" "list_all (reference_in es) xs"
  shows "fold (link ids) (map parsed_key_of xs) (pic ids f l rs es, r, m) =
    (pic ids (fold (add_link ids es) xs f) l (rs @ map (relationship_of ids es) (enumerate m xs)) es, r, m + length xs)"
  using assms(3)
proof (induction xs arbitrary: f rs m)
  case (Cons x xs)
  obtain e a target key where x: "x = (e, a, target, key)" by (cases x) auto
  have here: "reference_in es (e, a, target, key)" using Cons.prems by (simp add: x)
  then have "key_ref ids es target key (link_of ids es target key)" "key_ref ids es e a (link_of ids es e a)"
    by (auto simp: reference_in_def intro: key_ref_link_of)
  from link_pic [OF assms(1,2) here this]
  have "link ids (parsed_key_of x) (pic ids f l rs es, r, m) =
      (pic ids (add_link ids es x f) l (rs @ [relationship_of ids es (m, x)]) es, r, Suc m)"
    by (simp add: x add_link_def relationship_of_def)
  then show ?case using Cons by simp
qed simp

lemma describe_entity_pic:
  assumes "entities_apart es" "e \<in> set es"
  shows "describe (entity_comment_of e) (pic ids f l rs es, r) =
    (pic ids f (l\<lparr>of_entity := (of_entity l)(e := trim (ent_description e))\<rparr>) rs es, r)"
proof -
  let ?l = "l\<lparr>of_entity := (of_entity l)(e := trim (ent_description e))\<rparr>"
  obtain n where n: "(n, e) \<in> set (numbered 0 es)" using member_numbered assms(2) by blast
  obtain i where i: "i < length es" "numbered 0 es ! i = (n, e)"
    "find_table (pic ids f l rs es) (trim (ent_name e)) = Some i" using find_table_pic [OF assms(1) n] .
  have "(draft_entities (pic ids f l rs es))[i := pic_entity ids f ?l (n, e)] = draft_entities (pic ids f ?l rs es)"
    using i by (intro pic_update [OF assms(1)]) (auto simp: pic_entity_def pic_attribute_def)
  moreover have "draft_entities (pic ids f l rs es) ! i = pic_entity ids f l (n, e)" using i by (simp add: pic_def)
  moreover have "(pic_entity ids f l (n, e))\<lparr>ent_description := trim (ent_description e)\<rparr> = pic_entity ids f ?l (n, e)"
    by (auto simp: pic_entity_def pic_attribute_def)
  ultimately show ?thesis
    by (simp add: describe_def entity_comment_of_def i(3) Let_def) (simp add: pic_def)
qed

lemma describe_attribute_pic:
  assumes "entities_apart es" "e \<in> set es" "a \<in> set (ent_attributes e)"
  shows "describe (attribute_comment_of e a) (pic ids f l rs es, r) =
    (pic ids f (l\<lparr>of_attribute := (of_attribute l)((e, a) := trim (attr_description a))\<rparr>) rs es, r)"
proof -
  let ?l = "l\<lparr>of_attribute := (of_attribute l)((e, a) := trim (attr_description a))\<rparr>"
  let ?k = "\<lambda>a. to_ascii_lowercase (attr_name a)" and ?v = "to_ascii_lowercase (trim (attr_name a))"
  let ?d = "\<lambda>a'. a'\<lparr>attr_description := trim (attr_description a)\<rparr>"
  obtain n where n: "(n, e) \<in> set (numbered 0 es)" using member_numbered assms(2) by blast
  obtain i where i: "i < length es" "numbered 0 es ! i = (n, e)"
    "find_table (pic ids f l rs es) (trim (ent_name e)) = Some i" using find_table_pic [OF assms(1) n] .
  let ?en = "enumerate (Suc n) (ent_attributes e)"
  let ?as = "map (pic_attribute ids f l e) ?en"
  have keys: "map ?k ?as = map (\<lambda>a. to_ascii_lowercase (trim (attr_name a))) (map snd ?en)"
    unfolding map_map by (intro map_cong) (auto simp: pic_attribute_def)
  have apart: "distinct (map (\<lambda>a. to_ascii_lowercase (trim (attr_name a))) (ent_attributes e))"
    using entities_apartD(4) [OF assms(1,2)] .
  have same: "?k (pic_attribute ids f l e x) = ?v \<longleftrightarrow> snd x = a" if "x \<in> set ?en" for x
  proof -
    have "snd x \<in> set (ent_attributes e)" using that enumerate_member [of "fst x" "snd x"] by simp
    then show ?thesis
      using apart assms(3) unfolding distinct_map inj_on_def by (auto simp: pic_attribute_def case_prod_beta)
  qed
  have "change_first (\<lambda>x. ?k x = ?v) ?d ?as = map (\<lambda>x. if ?k x = ?v then ?d x else x) ?as"
    using keys apart by (intro change_first_map) simp
  also have "\<dots> = map (pic_attribute ids f ?l e) ?en"
    unfolding map_map comp_def using same by (intro map_cong refl) (auto simp: pic_attribute_def)
  finally have changed: "(pic_entity ids f l (n, e))\<lparr>ent_attributes := change_first (\<lambda>x. ?k x = ?v) ?d
      (ent_attributes (pic_entity ids f l (n, e)))\<rparr> = pic_entity ids f ?l (n, e)"
    by (simp add: pic_entity_def)
  have "?v \<in> set (map ?k ?as)" unfolding keys using assms(3) by simp
  then have found: "list_ex (\<lambda>x. ?k x = ?v) (ent_attributes (pic_entity ids f l (n, e)))"
    by (auto simp: pic_entity_def list_ex_iff)
  have "(draft_entities (pic ids f l rs es))[i := pic_entity ids f ?l (n, e)] = draft_entities (pic ids f ?l rs es)"
    using i by (intro pic_update [OF assms(1)]) (auto simp: pic_entity_def pic_attribute_def)
  moreover have "draft_entities (pic ids f l rs es) ! i = pic_entity ids f l (n, e)" using i by (simp add: pic_def)
  ultimately show ?thesis
    using found changed
    by (simp add: describe_def attribute_comment_of_def i(3) eq_ignore_ascii_case_def Let_def) (simp add: pic_def)
qed

definition label_attributes :: "entity \<Rightarrow> attribute list \<Rightarrow> labels \<Rightarrow> labels" where
  "label_attributes e as l = l\<lparr>of_attribute := (\<lambda>x.
     if fst x = e \<and> snd x \<in> set as then trim (attr_description (snd x)) else of_attribute l x)\<rparr>"

definition label_entities :: "entity list \<Rightarrow> labels \<Rightarrow> labels" where
  "label_entities xs l =
     \<lparr>of_entity = (\<lambda>e. if e \<in> set xs \<and> ent_is_documented e then trim (ent_description e) else of_entity l e),
      of_attribute = (\<lambda>x. if fst x \<in> set xs \<and> snd x \<in> set (ent_attributes (fst x)) \<and> attr_is_documented (snd x)
        then trim (attr_description (snd x)) else of_attribute l x)\<rparr>"

lemma describe_attributes:
  assumes "entities_apart es" "e \<in> set es" "set as \<subseteq> set (ent_attributes e)"
  shows "fold describe (map (attribute_comment_of e) as) (pic ids f l rs es, r) =
    (pic ids f (label_attributes e as l) rs es, r)"
  using assms(3)
proof (induction as arbitrary: l)
  case Nil
  then show ?case by (simp add: label_attributes_def)
next
  case (Cons a as)
  let ?l = "l\<lparr>of_attribute := (of_attribute l)((e, a) := trim (attr_description a))\<rparr>"
  have "label_attributes e as ?l = label_attributes e (a # as) l"
    by (cases l) (auto simp: label_attributes_def fun_eq_iff)
  then show ?case using describe_attribute_pic [OF assms(1,2)] Cons by simp
qed

lemma describe_all:
  assumes "entities_apart es" "set xs \<subseteq> set es"
  shows "fold describe (comments_of xs) (pic ids f l rs es, r) = (pic ids f (label_entities xs l) rs es, r)"
  using assms(2)
proof (induction xs arbitrary: l)
  case Nil
  then show ?case by (cases l) (simp add: comments_of_def label_entities_def)
next
  case (Cons e xs)
  define l1 where "l1 = (if ent_is_documented e then l\<lparr>of_entity := (of_entity l)(e := trim (ent_description e))\<rparr> else l)"
  define l2 where "l2 = label_attributes e (filter attr_is_documented (ent_attributes e)) l1"
  have "fold describe (if ent_is_documented e then [entity_comment_of e] else []) (pic ids f l rs es, r) = (pic ids f l1 rs es, r)"
    using describe_entity_pic [OF assms(1)] Cons.prems by (simp add: l1_def)
  moreover have "fold describe (map (attribute_comment_of e) (filter attr_is_documented (ent_attributes e)))
      (pic ids f l1 rs es, r) = (pic ids f l2 rs es, r)"
    unfolding l2_def using Cons.prems by (intro describe_attributes [OF assms(1)]) auto
  moreover have "label_entities xs l2 = label_entities (e # xs) l"
  proof (rule labels.equality)
    show "of_entity (label_entities xs l2) = of_entity (label_entities (e # xs) l)"
      by (rule ext) (simp add: label_entities_def l2_def l1_def label_attributes_def)
    show "of_attribute (label_entities xs l2) = of_attribute (label_entities (e # xs) l)"
      by (rule ext, simp add: label_entities_def l2_def l1_def label_attributes_def, auto)
  qed simp
  ultimately show ?case using Cons by (simp add: comments_of_def)
qed

section \<open>Placing the pictures\<close>

definition placed :: "(nat \<Rightarrow> position) \<Rightarrow> entity list \<Rightarrow> entity list" where
  "placed p xs = map (\<lambda>(i, e). e\<lparr>ent_position := p i\<rparr>) (enumerate 0 xs)"

definition slot :: "bool \<Rightarrow> entity list \<Rightarrow> nat \<Rightarrow> position" where
  "slot positions es i = (if positions
     then position_new (whole_coordinate (pos_x (ent_position (es ! i)))) (whole_coordinate (pos_y (ent_position (es ! i))))
     else grid_slot i)"

lemma find_unique: "x \<in> set xs \<Longrightarrow> p x \<Longrightarrow> (\<And>y. y \<in> set xs \<Longrightarrow> p y \<Longrightarrow> y = x) \<Longrightarrow> List.find p xs = Some x"
  by (metis find_the)

lemma find_hint_pic:
  assumes "i < length es" "ent_name x = trim (ent_name (es ! i))"
  shows "find_hint (map (\<lambda>(n, e). position_hint n e) (enumerate 0 es)) [0..<length es] i x =
    Some (position_hint i (es ! i))"
proof -
  let ?p = "\<lambda>h. above h = nth_option [0..<length es] i \<and> same_table (hint_table h) (ent_name x)"
  have "(i, es ! i) \<in> set (enumerate 0 es)" using assms(1) by (simp add: in_set_enumerate_eq)
  then have "position_hint i (es ! i) \<in> set (map (\<lambda>(n, e). position_hint n e) (enumerate 0 es))"
    unfolding set_map by (rule rev_image_eqI) simp
  then have "List.find ?p (map (\<lambda>(n, e). position_hint n e) (enumerate 0 es)) = Some (position_hint i (es ! i))"
  proof (rule find_unique)
    show "?p (position_hint i (es ! i))"
      using assms by (simp add: position_hint_def nth_option_def same_table_def eq_ignore_ascii_case_def)
    fix h assume "h \<in> set (map (\<lambda>(n, e). position_hint n e) (enumerate 0 es))" "?p h"
    then show "h = position_hint i (es ! i)"
      using assms(1) by (auto simp: position_hint_def nth_option_def in_set_enumerate_eq)
  qed
  then show ?thesis by (simp add: find_hint_def)
qed

lemma place_pic:
  "draft_entities (place (pic ids f l rs es)
      (if b then map (\<lambda>(n, e). position_hint n e) (enumerate 0 es) else []) [0..<length es] b') =
     placed (slot (b \<and> b') es) (draft_entities (pic ids f l rs es))"
proof -
  have "place_entity (if b then map (\<lambda>(n, e). position_hint n e) (enumerate 0 es) else []) [0..<length es] b' (i, x) =
      x\<lparr>ent_position := slot (b \<and> b') es i\<rparr>"
    if "i < length es" "x = draft_entities (pic ids f l rs es) ! i" for i x
  proof -
    have "ent_name x = trim (ent_name (es ! i))"
      using that nth_numbered [OF that(1), of 0] by (simp add: pic_def pic_entity_def case_prod_beta)
    note found = find_hint_pic [OF that(1) this]
    have coordinates: "hint_x (position_hint i e) = whole_coordinate (pos_x (ent_position e))"
      "hint_y (position_hint i e) = whole_coordinate (pos_y (ent_position e))" for e
      by (simp_all add: position_hint_def)
    have "find_hint [] [0..<length es] i x = None" by (simp add: find_hint_def)
    then show ?thesis by (cases b; cases b') (simp_all add: place_entity_def slot_def found coordinates)
  qed
  then show ?thesis
    unfolding place_def placed_def
    by (auto simp: in_set_enumerate_eq pic_def intro!: map_cong)
qed

theorem import_generated:
  assumes "inj ids" "scannable options s" "comments_readable options s" "names_apart s" "sch_entities s \<noteq> []"
  defines "es \<equiv> sch_entities s"
  defines "f \<equiv> fold (add_link ids es) (references_of s) (\<lambda>_. None)"
  defines "l \<equiv> (if include_comments options then label_entities es no_labels else no_labels)"
  shows "\<exists>d m. sql_read ids (generate s options) b = Inr (d, report_default) \<and>
    draft_entities d = placed (slot (include_positions options \<and> b) es) (map (pic_entity ids f l) (numbered 0 es)) \<and>
    draft_relationships d = map (relationship_of ids es) (enumerate m (references_of s))"
proof -
  let ?p = "sort_statements (fst (scan (generate s options)))"
  have apart: "entities_apart es" using assms(4) by (simp add: entities_apart_def names_apart_def es_def)
  have refs: "list_all (reference_in es) (references_of s)"
    by (auto simp: list_all_iff reference_in_def references_of_iff es_def dest: resolve_in)
  define m where "m = sum_list (map (\<lambda>e. Suc (length (ent_attributes e))) es)"
  let ?rs = "map (relationship_of ids es) (enumerate m (references_of s))"
  have parts: "?p = \<lparr>part_tables = map parsed_table_of es, part_table_at = [0..<length es],
     part_comments = (if include_comments options then comments_of es else []),
     part_late_keys = map parsed_key_of (references_of s), part_report = report_default\<rparr>"
    unfolding es_def by (rule sort_generated [OF assms(2-4)])
  have "inline_keys (map parsed_table_of es) = []"
    by (simp add: inline_keys_def parsed_table_of_def comp_def)
  moreover have "fold (draw_table ids) (map parsed_table_of es) (empty_draft, report_default, 0) =
      (pic ids (\<lambda>_. None) no_labels [] es, report_default, m)"
    by (simp add: draw_tables empty_draft_def pic_def m_def)
  moreover have "fold (link ids) (map parsed_key_of (references_of s)) (pic ids (\<lambda>_. None) no_labels [] es, report_default, m)
      = (pic ids f no_labels ?rs es, report_default, m + length (references_of s))"
    using link_all [OF assms(1) apart refs] by (simp add: f_def)
  moreover have "fold describe (if include_comments options then comments_of es else [])
      (pic ids f no_labels ?rs es, report_default) = (pic ids f l ?rs es, report_default)"
    using describe_all [OF apart order_refl] by (simp add: l_def)
  ultimately have "sql_read ids (generate s options) b =
      Inr (place (pic ids f l ?rs es) (snd (scan (generate s options))) [0..<length es] b, report_default)"
    using assms(5) by (simp add: sql_read_def case_prod_beta parts read_parts_def Let_def es_def [symmetric])
  then show ?thesis
    using place_pic [of ids f l ?rs es "include_positions options" b]
    unfolding scan_generate(2) [OF assms(2)] es_def [symmetric]
    by (intro exI conjI) (auto simp: pic_def place_def)
qed

section \<open>The outline of a drawing\<close>

text \<open>
  Identifiers are drawn afresh on import, so drawings are compared without them: a foreign key
  counts as the names of the table and the column it points at.
\<close>

definition named_key :: "entity list \<Rightarrow> foreign_key_ref \<Rightarrow> (string \<times> string) option" where
  "named_key es ref =
     (case List.find (\<lambda>e. ent_id e = fk_entity_id ref) es of
        None \<Rightarrow> None
      | Some t \<Rightarrow> map_option (\<lambda>k. (ent_name t, attr_name k))
                    (List.find (\<lambda>a. attr_id a = fk_attribute_id ref) (ent_attributes t)))"

definition outline_attribute :: "entity list \<Rightarrow> attribute \<Rightarrow> attribute \<times> (string \<times> string) option" where
  "outline_attribute es a =
     (a\<lparr>attr_id := '''', attr_foreign_key := None\<rparr>, Option.bind (attr_foreign_key a) (named_key es))"

definition outline ::
  "entity list \<Rightarrow> (string \<times> string \<times> position \<times> (attribute \<times> (string \<times> string) option) list) list" where
  "outline es = map (\<lambda>e. (ent_name e, ent_description e, ent_position e,
     map (outline_attribute es) (ent_attributes e))) es"

text \<open>What a script can carry of an entity and of a column.\<close>

definition written_attribute :: "bool \<Rightarrow> attribute \<Rightarrow> attribute" where
  "written_attribute described a = a\<lparr>attr_name := trim (attr_name a),
     attr_description := (if described then trim (attr_description a) else ''''),
     attr_data_type := shown_type (attr_data_type a),
     attr_nullable := attr_nullable a \<and> \<not> attr_primary_key a,
     attr_unique := attr_unique a \<or> attr_primary_key a\<rparr>"

definition written :: "bool \<Rightarrow> entity \<Rightarrow> entity" where
  "written described e = e\<lparr>ent_name := trim (ent_name e),
     ent_description := (if described then trim (ent_description e) else ''''),
     ent_attributes := map (written_attribute described) (ent_attributes e)\<rparr>"

definition as_written :: "generate_options \<Rightarrow> bool \<Rightarrow> entity list \<Rightarrow> entity list" where
  "as_written options with_positions es =
     placed (slot (include_positions options \<and> with_positions) es) (map (written (include_comments options)) es)"

lemma find_enumerate: "map_option snd (List.find (\<lambda>x. p (snd x)) (enumerate n xs)) = List.find p xs"
  by (induction xs arbitrary: n) auto

lemma named_key_placed [simp]: "named_key (placed p xs) ref = named_key xs ref"
proof -
  have "List.find (\<lambda>e. ent_id e = fk_entity_id ref) (placed p xs) =
      map_option (\<lambda>(i, e). e\<lparr>ent_position := p i\<rparr>) (List.find (\<lambda>x. ent_id (snd x) = fk_entity_id ref) (enumerate 0 xs))"
    by (simp add: placed_def find_map comp_def case_prod_beta)
  then show ?thesis
    using find_enumerate [of "\<lambda>e. ent_id e = fk_entity_id ref" 0 xs]
    by (auto simp: named_key_def split: option.split)
qed

lemma outline_placed:
  "outline (placed p xs) = map (\<lambda>(i, e). (ent_name e, ent_description e, p i,
     map (outline_attribute xs) (ent_attributes e))) (enumerate 0 xs)"
proof -
  have same: "named_key (placed p xs) = named_key xs" by (rule ext) simp
  have "outline_attribute (placed p xs) = outline_attribute xs"
    by (rule ext) (simp only: outline_attribute_def same)
  then show ?thesis by (simp add: outline_def placed_def case_prod_beta)
qed

lemma named_key_written: "named_key (map (written b) (sch_entities s)) ref =
    map_option (\<lambda>(t, k). (trim (ent_name t), trim (attr_name k))) (resolve s (fk_entity_id ref) (fk_attribute_id ref))"
  by (auto simp: named_key_def find_map comp_def written_def written_attribute_def resolve_def schema_entity_def
      entity_attribute_def split: option.split)

lemma named_key_pic:
  assumes "inj ids" "key_ref ids es t k ref" "distinct (ent_attributes t)"
  shows "named_key (map (pic_entity ids f l) (numbered 0 es)) ref = Some (trim (ent_name t), trim (attr_name k))"
proof -
  obtain n i where t: "(n, t) \<in> set (numbered 0 es)" "(i, k) \<in> set (enumerate (Suc n) (ent_attributes t))"
    "ref = foreign_key_ref_new (fresh ids ''e'' n) (fresh ids ''a'' i)"
    using assms(2) by (auto simp: key_ref_def)
  have "List.find (\<lambda>x. fst x = fst (n, t)) (numbered 0 es) = Some (n, t)"
    using distinct_numbers t(1) by (rule find_key)
  moreover have "List.find (\<lambda>x. fst x = fst (i, k)) (enumerate (Suc n) (ent_attributes t)) = Some (i, k)"
    using t(2) by (intro find_key) simp_all
  ultimately show ?thesis
    by (simp add: named_key_def find_map comp_def t(3) foreign_key_ref_new_def pic_entity_def pic_attribute_def
        case_prod_beta fresh_eq [OF assms(1)])
qed

lemma fold_links:
  assumes "\<And>t k t' k'. (e, a, t, k) \<in> set xs \<Longrightarrow> (e, a, t', k') \<in> set xs \<Longrightarrow> t = t' \<and> k = k'"
  shows "(\<And>t k. (e, a, t, k) \<notin> set xs) \<Longrightarrow> fold (add_link ids es) xs f (e, a) = f (e, a)"
    and "(e, a, t, k) \<in> set xs \<Longrightarrow> fold (add_link ids es) xs f (e, a) = Some (link_of ids es t k)"
proof -
  show none: "fold (add_link ids es) xs f (e, a) = f (e, a)" if "\<And>t k. (e, a, t, k) \<notin> set xs" for f
    using that
  proof (induction xs arbitrary: f)
    case (Cons x xs)
    have "add_link ids es x f (e, a) = f (e, a)"
      using Cons.prems by (cases x) (auto simp: add_link_def)
    then show ?case using Cons by simp
  qed simp
  show "fold (add_link ids es) xs f (e, a) = Some (link_of ids es t k)" if "(e, a, t, k) \<in> set xs"
    using that assms
  proof (induction xs arbitrary: f rule: rev_induct)
    case (snoc x xs)
    obtain e' a' t' k' where x: "x = (e', a', t', k')" by (cases x) auto
    show ?case
    proof (cases "e' = e \<and> a' = a")
      case True
      then have "t' = t \<and> k' = k" using snoc.prems(2) [of t' k' t k] snoc.prems(1) by (simp add: x)
      then show ?thesis using True by (simp add: x add_link_def)
    next
      case False
      then have "(e, a, t, k) \<in> set xs" using snoc.prems(1) by (auto simp: x)
      then have "fold (add_link ids es) xs f (e, a) = Some (link_of ids es t k)"
      proof (rule snoc.IH)
        show "t1 = t2 \<and> k1 = k2" if "(e, a, t1, k1) \<in> set xs" "(e, a, t2, k2) \<in> set xs" for t1 k1 t2 k2
          using snoc.prems(2) [of t1 k1 t2 k2] that by simp
      qed
      then show ?thesis using False by (auto simp: x add_link_def)
    qed
  qed simp
qed

section \<open>A schema and its script\<close>

lemma ascii_fold: "to_ascii_lowercase u = to_ascii_lowercase v \<Longrightarrow> to_lowercase u = to_lowercase v"
proof -
  have "lower_char (lower_ascii c) = lower_char c" for c
    by (auto simp: lower_ascii_def lower_char_def is_ascii_upper_def is_uppercase_def code_point_def Let_def)
  then have "to_lowercase u = to_lowercase (to_ascii_lowercase u)" for u
    by (simp add: to_lowercase_def to_ascii_lowercase_def)
  then show "to_ascii_lowercase u = to_ascii_lowercase v \<Longrightarrow> ?thesis" by metis
qed

lemma names_distinct_folded:
  assumes "names_distinct name xs" "\<And>x. x \<in> set xs \<Longrightarrow> trim (name x) \<noteq> ''''"
  shows "distinct (map (folded \<circ> name) xs)"
  unfolding distinct_conv_nth
proof (intro allI impI)
  fix i j assume ij: "i < length (map (folded \<circ> name) xs)" "j < length (map (folded \<circ> name) xs)" "i \<noteq> j"
  have apart: "folded (name (xs ! i)) \<noteq> folded (name (xs ! j))" if "i < j" "j < length xs" for i j
  proof
    assume "folded (name (xs ! i)) = folded (name (xs ! j))"
    then have "fold_name (name (xs ! i)) = fold_name (name (xs ! j))"
      unfolding fold_name_def folded_def by (rule ascii_fold)
    moreover have "fold_name (name (xs ! i)) \<noteq> ''''" using assms(2) that by (simp add: fold_name_def to_lowercase_def)
    ultimately show False using assms(1) that unfolding names_distinct_def by blast
  qed
  show "map (folded \<circ> name) xs ! i \<noteq> map (folded \<circ> name) xs ! j"
    using ij apart [of i j] apart [of j i, THEN not_sym] by (cases i j rule: linorder_cases) simp_all
qed

lemma names_apart_if: "names_present s \<Longrightarrow> all_names_distinct s \<Longrightarrow> names_apart s"
  by (auto simp: names_apart_def names_present_def all_names_distinct_def list_all_iff intro!: names_distinct_folded)

lemma linked_names:
  assumes "inj ids" "names_apart s" "e \<in> set (sch_entities s)" "a \<in> set (ent_attributes e)"
  defines "f \<equiv> fold (add_link ids (sch_entities s)) (references_of s) (\<lambda>_. None)"
  shows "Option.bind (f (e, a)) (named_key (map (pic_entity ids f l) (numbered 0 (sch_entities s)))) =
    Option.bind (attr_foreign_key a) (named_key (map (written b) (sch_entities s)))"
proof -
  have apart: "entities_apart (sch_entities s)" using assms(2) by (simp add: entities_apart_def names_apart_def)
  have one: "t = t' \<and> k = k'" if "(e, a, t, k) \<in> set (references_of s)" "(e, a, t', k') \<in> set (references_of s)" for t k t' k'
    using that by (auto simp: references_of_iff)
  show ?thesis
  proof (cases "\<exists>t k. (e, a, t, k) \<in> set (references_of s)")
    case True
    then obtain t k where tk: "(e, a, t, k) \<in> set (references_of s)" by blast
    then obtain ref where ref: "attr_foreign_key a = Some ref"
      "resolve s (fk_entity_id ref) (fk_attribute_id ref) = Some (t, k)" by (auto simp: references_of_iff)
    have mem: "t \<in> set (sch_entities s)" "k \<in> set (ent_attributes t)" using resolve_in [OF ref(2)] by simp_all
    have "f (e, a) = Some (link_of ids (sch_entities s) t k)"
      unfolding f_def using one tk by (rule fold_links(2))
    then show ?thesis
      using named_key_pic [OF assms(1) key_ref_link_of [OF mem] entities_apartD(3) [OF apart mem(1)]]
      by (simp add: ref named_key_written)
  next
    case False
    then have "f (e, a) = None" unfolding f_def using one by (subst fold_links(1)) blast+
    moreover have "resolve s (fk_entity_id ref) (fk_attribute_id ref) = None" if "attr_foreign_key a = Some ref" for ref
      using False assms(3,4) that
      by (cases "resolve s (fk_entity_id ref) (fk_attribute_id ref)") (auto simp: references_of_iff)
    ultimately show ?thesis by (cases "attr_foreign_key a") (simp_all add: named_key_written)
  qed
qed

text \<open>The names at the two ends of a relationship.\<close>

definition relationship_names ::
  "entity list \<Rightarrow> relationship \<Rightarrow> (string \<times> string) option \<times> (string \<times> string) option \<times> cardinality" where
  "relationship_names es r =
     (named_key es (foreign_key_ref_new (from_entity_id r) (from_attribute_id r)),
      named_key es (foreign_key_ref_new (to_entity_id r) (to_attribute_id r)), rel_cardinality r)"

definition reference_names ::
  "entity \<times> attribute \<times> entity \<times> attribute \<Rightarrow> (string \<times> string) option \<times> (string \<times> string) option \<times> cardinality" where
  "reference_names = (\<lambda>(e, a, t, k). (Some (trim (ent_name t), trim (attr_name k)),
     Some (trim (ent_name e), trim (attr_name a)), OneToMany))"

lemma foreign_key_ref_new_eta [simp]: "foreign_key_ref_new (fk_entity_id r) (fk_attribute_id r) = r"
  by (simp add: foreign_key_ref_new_def)

lemma relationship_names_pic:
  assumes "inj ids" "names_apart s" "x \<in> set (references_of s)"
  shows "relationship_names (map (pic_entity ids f l) (numbered 0 (sch_entities s)))
      (relationship_of ids (sch_entities s) (j, x)) = reference_names x"
proof -
  obtain e a t k where x: "x = (e, a, t, k)" by (metis prod_cases4)
  have mem: "e \<in> set (sch_entities s)" "a \<in> set (ent_attributes e)" "t \<in> set (sch_entities s)" "k \<in> set (ent_attributes t)"
    using assms(3) resolve_in by (auto simp: x references_of_iff)
  have apart: "entities_apart (sch_entities s)" using assms(2) by (simp add: entities_apart_def names_apart_def)
  have "named_key (map (pic_entity ids f l) (numbered 0 (sch_entities s))) (link_of ids (sch_entities s) y z) =
      Some (trim (ent_name y), trim (attr_name z))"
    if "y \<in> set (sch_entities s)" "z \<in> set (ent_attributes y)" for y z
    by (rule named_key_pic [OF assms(1) key_ref_link_of [OF that] entities_apartD(3) [OF apart that(1)]])
  from this [OF mem(1,2)] this [OF mem(3,4)] show ?thesis
    by (simp add: x relationship_names_def reference_names_def relationship_of_def linked_relationship_def relationship_new_def)
qed

lemma relationship_names_placed [simp]: "relationship_names (placed p xs) = relationship_names xs"
  by (rule ext) (simp add: relationship_names_def)

lemma outline_pic_attributes:
  assumes "inj ids" "names_apart s" "e \<in> set (sch_entities s)" "set as \<subseteq> set (ent_attributes e)"
    and "\<And>a. a \<in> set as \<Longrightarrow> of_attribute l (e, a) = (if c then trim (attr_description a) else '''')"
  defines "f \<equiv> fold (add_link ids (sch_entities s)) (references_of s) (\<lambda>_. None)"
  shows "map (outline_attribute (map (pic_entity ids f l) (numbered 0 (sch_entities s))))
      (map (pic_attribute ids f l e) (enumerate n as)) =
    map (outline_attribute (map (written c) (sch_entities s))) (map (written_attribute c) as)"
  using assms(4,5)
proof (induction as arbitrary: n)
  case (Cons a as)
  have "outline_attribute (map (pic_entity ids f l) (numbered 0 (sch_entities s))) (pic_attribute ids f l e (n, a)) =
      outline_attribute (map (written c) (sch_entities s)) (written_attribute c a)"
    using linked_names [OF assms(1-3), of a l c, folded f_def] Cons.prems
    by (simp add: outline_attribute_def pic_attribute_def written_attribute_def)
  then show ?case using Cons by simp
qed simp

lemma outline_pic:
  fixes c :: bool and p :: "nat \<Rightarrow> position"
  assumes "inj ids" "names_apart s"
  defines "es \<equiv> sch_entities s"
  defines "f \<equiv> fold (add_link ids es) (references_of s) (\<lambda>_. None)"
  defines "l \<equiv> (if c then label_entities es no_labels else no_labels)"
  shows "outline (placed p (map (pic_entity ids f l) (numbered 0 es))) = outline (placed p (map (written c) es))"
  unfolding outline_placed
proof (rule nth_equalityI, goal_cases)
  case (2 i)
  then have i: "i < length es" by simp
  obtain n where n: "numbered 0 es ! i = (n, es ! i)" using nth_numbered [OF i, of 0] by (metis prod.collapse)
  have "of_attribute l (es ! i, a) = (if c then trim (attr_description a) else '''')"
    if "a \<in> set (ent_attributes (es ! i))" for a
    using that i by (simp add: l_def label_entities_def no_labels_def attr_is_documented_def)
  then have "map (outline_attribute (map (pic_entity ids f l) (numbered 0 es))) (ent_attributes (pic_entity ids f l (n, es ! i))) =
      map (outline_attribute (map (written c) es)) (ent_attributes (written c (es ! i)))"
    using outline_pic_attributes [OF assms(1,2), of "es ! i" "ent_attributes (es ! i)" l c "Suc n"] i
    by (simp add: pic_entity_def written_def f_def es_def)
  moreover have "of_entity l (es ! i) = (if c then trim (ent_description (es ! i)) else '''')"
    using i by (simp add: l_def label_entities_def no_labels_def ent_is_documented_def)
  ultimately show ?case
    using i by (simp add: nth_enumerate_eq n) (simp add: pic_entity_def written_def)
qed simp

theorem outline_generated:
  assumes "inj ids" "scannable options s" "comments_readable options s" "names_apart s" "sch_entities s \<noteq> []"
  shows "\<exists>d. sql_read ids (generate s options) b = Inr (d, report_default) \<and>
    outline (draft_entities d) = outline (as_written options b (sch_entities s)) \<and>
    map (relationship_names (draft_entities d)) (draft_relationships d) = map reference_names (references_of s)"
proof -
  obtain d m where d: "sql_read ids (generate s options) b = Inr (d, report_default)"
    "draft_entities d = placed (slot (include_positions options \<and> b) (sch_entities s))
       (map (pic_entity ids (fold (add_link ids (sch_entities s)) (references_of s) (\<lambda>_. None))
         (if include_comments options then label_entities (sch_entities s) no_labels else no_labels))
       (numbered 0 (sch_entities s)))"
    "draft_relationships d = map (relationship_of ids (sch_entities s)) (enumerate m (references_of s))"
    using import_generated [OF assms, of b] by blast
  have "relationship_names (draft_entities d) (relationship_of ids (sch_entities s) x) = reference_names (snd x)"
    if "x \<in> set (enumerate m (references_of s))" for x
    using relationship_names_pic [OF assms(1,4), of "snd x" _ _ "fst x"] enumerate_member [of "fst x" "snd x"] that
    by (simp add: d(2))
  then have "map (relationship_names (draft_entities d)) (draft_relationships d) =
      map (\<lambda>x. reference_names (snd x)) (enumerate m (references_of s))"
    by (simp add: d(3))
  also have "\<dots> = map reference_names (references_of s)"
    using map_map [of reference_names snd "enumerate m (references_of s)"] by (simp add: comp_def)
  finally have relationships: "map (relationship_names (draft_entities d)) (draft_relationships d) =
      map reference_names (references_of s)" .
  have "outline (draft_entities d) = outline (as_written options b (sch_entities s))"
    unfolding d(2) as_written_def by (rule outline_pic [OF assms(1,4)])
  then show ?thesis using d(1) relationships by blast
qed

end
