(* ===== verification/Examples.thy ===== *)
theory Examples
  imports Isolation Schema_Spec Server Rpc_Dump Recovery_Mail Script_Import
begin

text \<open>
  A small world the examples run in: ids printed in decimal, libraries that keep the laws the
  development relies on, the tables the migrations leave with one person signed up, no outages.
\<close>

section \<open>One stored schema\<close>

text \<open>Ids printed in decimal, one stored schema, no outages.\<close>

definition decimal_env :: store_env where
  "decimal_env = \<lparr>parse_uuid = \<lambda>s. if s \<noteq> [] \<and> list_all is_ascii_digit s then Some (of_nat (digits_value s)) else None,
     show_uuid = \<lambda>u. show_nat (unat u), decode_error = ''invalid type: null''\<rparr>"

definition calm :: "nat \<Rightarrow> faults" where
  "calm = (\<lambda>_ _. None)"

definition example_store :: store where
  "example_store = snd (service_create (services decimal_env calm 7 0) 1 sample_schema empty_store)"

lemma decimal_round_trip [simp]: "parse_uuid decimal_env (show_uuid decimal_env u) = Some u"
  by (simp add: decimal_env_def show_nat_digits)

lemma sample_layout: "layout_finite (draft_entities sample_schema)"
  by (simp add: sample_schema_def layout_finite_def sample_defs position_new_def coordinate_decodes_def
      f64_of_nat_finite)

lemma sample_name: "check_draft sample_schema = Inr ()"
  unfolding check_draft_iff by (simp add: sample_schema_def SAMPLE_SCHEMA_NAME_def MAX_NAME_LENGTH_def text_simps)

lemma example_created:
  "service_create (services decimal_env calm 7 0) 1 sample_schema empty_store =
     (Inr (schema_new (show_uuid decimal_env 7) sample_schema 0), example_store)"
proof -
  have "fst (service_create (services decimal_env calm 7 0) 1 sample_schema empty_store) =
      Inr (schema_new (show_uuid decimal_env 7) sample_schema 0)"
    by (rule create_answers) (simp_all add: sample_name sample_layout calm_def empty_store_def name_taken_def owned_rows_def)
  then show ?thesis by (simp add: example_store_def prod_eq_iff)
qed

lemma example_rows:
  "\<exists>row. row_id row = 7 \<and> schema_rows example_store = [row] \<and>
     owner_rows example_store = [\<lparr>own_user = 1, own_schema = 7, own_created_at = 0\<rparr>]"
proof -
  have "pg_create decimal_env (calm 0) 7 0 1 sample_schema empty_store =
      (Inr (schema_new (show_uuid decimal_env 7) sample_schema 0), example_store)"
    using example_created by (simp add: service_create_def sample_name)
  then show ?thesis
  proof (rule pg_createE)
    fix row
    assume "row_id row = 7" and st: "example_store = empty_store\<lparr>schema_rows := schema_rows empty_store @ [row],
      owner_rows := owner_rows empty_store @ [\<lparr>own_user = 1, own_schema = 7,
        own_created_at = created_at (schema_new (show_uuid decimal_env 7) sample_schema 0)\<rparr>]\<rparr>"
    then show ?thesis unfolding st by (intro exI [of _ row]) (simp add: empty_store_def schema_new_def)
  qed
qed

lemma example_reachable: "reachable decimal_env example_store"
  using reachable_write [OF reachable_init, of decimal_env calm 7 0 "Create_schema 1 sample_schema"]
  by (simp add: example_store_def)

section \<open>One person signed up\<close>

text \<open>A hash is the password behind a dollar sign, a digest the text itself.\<close>

definition toy_crypto :: crypto_lib where
  "toy_crypto = \<lparr>bcrypt_hash = \<lambda>salt p. if length p < 60 then Inr (CHR ''$'' # p) else Inl ''too long'',
     bcrypt_verify = \<lambda>p h. Inr (h = CHR ''$'' # p), sha256_hex = \<lambda>s. s,
     hex_encode = map (\<lambda>b. char_of (unat b))\<rparr>"

text \<open>A signer that knows the claims of one person, and refuses to sign others.\<close>

definition toy_signed :: "(string \<times> claims) list" where
  "toy_signed =
     [(''access'', [''user_id'' \<mapsto> JString ''5'', ''roles'' \<mapsto> JArray [JString ''Developer''], ''exp'' \<mapsto> JUnsigned 900]),
      (''refresh'', [''user_id'' \<mapsto> JString ''5'', ''exp'' \<mapsto> JUnsigned 3600])]"

definition toy_jwt :: jwt_lib where
  "toy_jwt =
     \<lparr>jwt_encode = \<lambda>c. case List.find (\<lambda>(_, c'). c' = c) toy_signed of Some (t, _) \<Rightarrow> Inr t | None \<Rightarrow> Inl ''unknown claims'',
      jwt_decode = \<lambda>now t. case map_of toy_signed t of
          None \<Rightarrow> Inl ''invalid signature''
        | Some c \<Rightarrow> (case c ''exp'' of
            Some (JUnsigned n) \<Rightarrow> if int n < now then Inl ''expired'' else Inr c
          | _ \<Rightarrow> Inl ''missing exp'')\<rparr>"

definition toy_google :: google_lib where
  "toy_google = \<lparr>gl_post = \<lambda>_. Inr \<lparr>http_status = 200, http_body = Inr ''exchange''\<rparr>,
     gl_urlencode = \<lambda>_. None,
     gl_parse = \<lambda>s. if s = ''exchange'' then Inr (JObject [(''id_token'', JString ''header.claims.signature'')])
       else Inr (JObject [(''email'', JString ''Ada@X.io''), (''email_verified'', JBool True), (''name'', JString ''Ada Lovelace'')]),
     gl_base64 = Inr\<rparr>"

definition toy_service :: auth_service where
  "toy_service = \<lparr>as_jwt = toy_jwt, as_crypto = toy_crypto, as_google = toy_google,
     as_credentials = \<lparr>gc_client_id = ''id'', gc_client_secret = ''secret'', gc_redirect_uri = ''uri''\<rparr>,
     as_env = decimal_env, as_valid_email = \<lambda>s. CHR ''@'' \<in> set s, as_token_ttl = 900, as_refresh_token_ttl = 3600\<rparr>"

definition toy_request :: "timestamp \<Rightarrow> auth_request" where
  "toy_request now = \<lparr>rq_now = now, rq_user_id = 5, rq_schema_id = 7, rq_salt = '''', rq_bytes = [65, 66],
     rq_faults = \<lambda>_ _. None, rq_outages = calm, rq_mail_fault = None\<rparr>"

definition toy_registration :: registration where
  "toy_registration = \<lparr>reg_name = ''Ada Lovelace'', reg_email = '' Ada@x.io'', reg_password = ''secret123''\<rparr>"

definition ada :: user_row where
  "ada = \<lparr>us_id = 5, us_user_name = ''ada@x.io'', us_avatar_id = '''', us_avatar_url = None, us_email = ''ada@x.io'',
     us_password = ''$secret123'', us_first_name = ''Ada'', us_last_name = ''Lovelace'', us_status_id = 1, us_department_id = 1\<rparr>"

definition signed_up_db :: iam_db where
  "signed_up_db = (migrated_db 1)\<lparr>db_users := db_users (migrated_db 1) @ [ada], db_user_roles := [(1, 1), (5, 2)]\<rparr>"

definition signed_up_world :: world where
  "signed_up_world = \<lparr>w_iam = signed_up_db,
     w_schemas = snd (service_create (services decimal_env calm 7 0) 5 sample_schema empty_store), w_outbox = []\<rparr>"

lemma toy_bcrypt_sound: "bcrypt_sound toy_crypto"
  by (auto simp: bcrypt_sound_def toy_crypto_def)

lemma toy_jwt_sound: "jwt_sound toy_jwt"
  unfolding jwt_sound_def
proof (intro allI impI)
  fix claims expires_at token now
  assume exp: "claims ''exp'' = Some (json_i64 expires_at)" and enc: "jwt_encode toy_jwt claims = Inr token"
  then have "(token, claims) \<in> set toy_signed"
    by (auto simp: toy_jwt_def split: option.splits prod.splits dest!: find_Some)
  then show "if expires_at < now then \<exists>e. jwt_decode toy_jwt now token = Inl e else jwt_decode toy_jwt now token = Inr claims"
    using exp by (auto simp: toy_jwt_def toy_signed_def json_i64_def split: if_splits)
qed

lemma toy_created:
  "service_create (services decimal_env calm 7 0) 5 sample_schema empty_store =
     (Inr (schema_new (show_uuid decimal_env 7) sample_schema 0), w_schemas signed_up_world)"
proof -
  have "fst (service_create (services decimal_env calm 7 0) 5 sample_schema empty_store) =
      Inr (schema_new (show_uuid decimal_env 7) sample_schema 0)"
    by (rule create_answers) (simp_all add: sample_name sample_layout calm_def empty_store_def name_taken_def owned_rows_def)
  then show ?thesis by (simp add: signed_up_world_def prod_eq_iff)
qed

lemma toy_create_user:
  "create_user (\<lambda>_. None) 5 \<lparr>nu_email = ''ada@x.io'', nu_user_name = ''ada@x.io'', nu_first_name = ''Ada'', nu_last_name = ''Lovelace'',
     nu_avatar_url = None, nu_password = ''$secret123'', nu_roles = sign_up_roles\<rparr> (migrated_db 1) = (Inr 5, signed_up_db)"
  by (simp add: create_user_def migrated_db_def active_status_def insert_user_def user_row_violation_def user_row_too_long_def
      role_pairs_def sign_up_roles_def signed_up_db_def ada_def)

lemma toy_texts [simp]:
  "clean_email '' Ada@x.io'' = ''ada@x.io''" "trim ''Ada Lovelace'' = ''Ada Lovelace''"
  "split_name ''Ada Lovelace'' = (''Ada'', ''Lovelace'')"
  by code_simp+

lemma toy_tokens:
  "generate_tokens toy_service (toy_request 0) (identity_of signed_up_db ada) =
     Inr \<lparr>tk_token = ''access'', tk_refresh_token = ''refresh''\<rparr>"
proof -
  have roles: "role_names signed_up_db 5 = [''Developer'']"
    by (simp add: role_names_def signed_up_db_def migrated_db_def)
  have show5: "show_uuid decimal_env 5 = ''5''" by code_simp
  show ?thesis
    by (simp add: generate_tokens_def generate_jwt_def toy_service_def toy_jwt_def access_claims_def refresh_claims_def identity_of_def
        ada_def roles show5 seconds_def toy_request_def json_i64_def toy_signed_def map_err_def fun_eq_iff)
      (rule exI [of _ "''roles''"], simp)
qed

lemma toy_fields [simp]:
  "as_env toy_service = decimal_env" "as_jwt toy_service = toy_jwt" "as_crypto toy_service = toy_crypto"
  "as_google toy_service = toy_google" "as_token_ttl toy_service = 900" "as_refresh_token_ttl toy_service = 3600"
  "rq_now (toy_request now) = now" "rq_user_id (toy_request now) = 5" "rq_schema_id (toy_request now) = 7"
  "rq_faults (toy_request now) = (\<lambda>_ _. None)" "rq_outages (toy_request now) = calm" "rq_mail_fault (toy_request now) = None"
  by (simp_all add: toy_service_def toy_request_def)

lemma toy_hash: "bcrypt_hash toy_crypto salt ''secret123'' = Inr ''$secret123''"
  by (simp add: toy_crypto_def)

lemma no_faults_calm [simp]: "db_calm (\<lambda>_. None)"
  by (simp add: db_calm_def)

lemma toy_checked:
  "check_registration toy_service \<lparr>reg_name = ''Ada Lovelace'', reg_email = ''ada@x.io'', reg_password = ''secret123''\<rparr> = Inr ()"
  by (simp add: check_registration_def toy_service_def MIN_PASSWORD_LENGTH_def)

lemma toy_free: "find_user_by_email (\<lambda>_. None) ''ada@x.io'' (migrated_db 1) = Inr None"
  by (simp add: find_user_by_email_def find_user_calm) (simp add: migrated_db_def)

text \<open>The address is free, the account, the sample and the tokens are made.\<close>

lemma toy_registers:
  "register toy_service (toy_request 0) toy_registration (initial_world 1) =
     (Inr \<lparr>tk_token = ''access'', tk_refresh_token = ''refresh''\<rparr>, signed_up_world)"
proof -
  have found: "find_user_by_id (\<lambda>_. None) 5 signed_up_db = Inr (Some (identity_of signed_up_db ada))"
    by (simp add: find_user_by_id_def find_user_calm) (simp add: signed_up_db_def migrated_db_def ada_def)
  show ?thesis
    using toy_free found toy_checked toy_create_user toy_tokens toy_created toy_hash
    by (simp add: register_def toy_registration_def initial_world_def Let_def act_defs map_err_def hash_password_def seed_def
        require_user_by_id_def) (simp add: signed_up_world_def)
qed

definition toy_server :: server where
  "toy_server = \<lparr>sv_auth = toy_service,
     sv_lib = \<lparr>rl_rfc = \<lambda>t. show_int t, rl_print = \<lambda>_. ''{}'', rl_parse = \<lambda>_. Inl ''not json'', rl_ids = show_nat\<rparr>,
     sv_valid_url = \<lambda>_. True, sv_super_role = ''Admin''\<rparr>"

lemma signed_up_reachable: "system_reachable toy_server signed_up_world"
proof -
  have "serve toy_server (toy_request 0) None (Auth_rpc_call (Rpc_register toy_registration)) (initial_world 1) = signed_up_world"
    by (simp add: toy_server_def guard_call_def access_for_def toy_registers and_then_def)
  then show ?thesis using step [OF start [of toy_server 1]] by metis
qed

lemma signed_up_fields [simp]: "w_iam signed_up_world = signed_up_db" "ada \<in> set (db_users signed_up_db)"
  by (simp_all add: signed_up_world_def signed_up_db_def)

lemma toy_found: "find_user_by_email (\<lambda>_. None) ''ada@x.io'' signed_up_db = Inr (Some (identity_of signed_up_db ada))"
  by (simp add: find_user_by_email_def find_user_calm) (simp add: signed_up_db_def migrated_db_def ada_def)

lemma toy_changed: "bcrypt_hash toy_crypto salt ''changed!'' = Inr ''$changed!''"
  by (simp add: toy_crypto_def)

definition toy_account :: google_account where
  "toy_account = \<lparr>ga_email = ''Ada@X.io'', ga_email_verified = True, ga_name = ''Ada Lovelace'', ga_picture = None\<rparr>"

lemma toy_account_for: "account_for toy_google (as_credentials toy_service) code = Inr toy_account"
  by (simp add: account_for_def toy_google_def toy_service_def toy_account_def bind_ok_def map_err_def read_exchange_def account_from_def
      text_simps) code_simp

lemma toy_google_texts [simp]: "clean_email ''Ada@X.io'' = ''ada@x.io''"
  by code_simp

lemma toy_google_signs_in:
  "login_with_google toy_service (toy_request 0) code signed_up_world =
     (Inr \<lparr>tk_token = ''access'', tk_refresh_token = ''refresh''\<rparr>, signed_up_world)"
proof -
  have "idn_first_name (identity_of signed_up_db ada) = ''Ada''" "idn_last_name (identity_of signed_up_db ada) = ''Lovelace''"
    "idn_avatar_url (identity_of signed_up_db ada) = None"
    by (simp_all add: identity_of_def ada_def)
  then show ?thesis using toy_found toy_tokens
    by (simp add: login_with_google_def toy_account_for toy_account_def Let_def map_err_def follow_google_profile_def)
qed

lemma toy_token: "random_token toy_crypto (rq_bytes (toy_request now)) = ''AB''" "hash_token toy_crypto t = t"
proof -
  show "random_token toy_crypto (rq_bytes (toy_request now)) = ''AB''"
    unfolding random_token_def toy_request_def toy_crypto_def by (simp; code_simp)
qed (simp add: hash_token_def toy_crypto_def)

lemma toy_authenticates:
  assumes "iam_ok (w_iam w)" and "ada \<in> set (db_users (w_iam w))"
  shows "authenticate toy_service (toy_request 0) (Some ''Bearer access'') w = (Inr (identity_of (w_iam w) ada), w)"
proof -
  have "bearer_token (Some ''Bearer access'') = Some ''access''" by code_simp
  moreover have "get_identity toy_service (toy_request 0) ''access'' w = (Inr (identity_of (w_iam w) ada), w)"
    using token_identity(1) [of toy_service ada "toy_request 0" signed_up_db ada _ w "toy_request 0", OF _ _ toy_tokens]
      toy_jwt_sound assms
    by (simp add: seconds_def)
  ultimately show ?thesis by (simp add: authenticate_def on_error_def)
qed

lemma toy_authenticated:
  "authenticate toy_service (toy_request 0) (Some ''Bearer access'') signed_up_world = (Inr (identity_of signed_up_db ada), signed_up_world)"
  using toy_authenticates [of signed_up_world] system_reachable_ok [OF signed_up_reachable] by (simp add: world_ok_def)

lemma toy_id [simp]: "idn_id (identity_of signed_up_db ada) = 5"
  by (simp add: identity_of_def ada_def)

lemma toy_row: "List.find (\<lambda>r. us_id r = 5) (db_users signed_up_db) = Some ada"
  by (simp add: signed_up_db_def migrated_db_def ada_def)

lemma toy_maps: "map_user signed_up_db ada \<noteq> None"
  by (simp add: map_user_def signed_up_db_def migrated_db_def ada_def)

lemma toy_admin_role: "(1, ''Admin'') \<in> set (db_roles signed_up_db)"
  by (simp add: signed_up_db_def migrated_db_def)

lemma toy_roles: "role_names signed_up_db 5 = [''Developer'']"
  by (simp add: role_names_def signed_up_db_def migrated_db_def)

lemma toy_can:
  "can (engine_of ''Admin'' (toy_request 0) signed_up_world) 5 action \<longleftrightarrow>
     (case split_action action of None \<Rightarrow> False | Some (r, n) \<Rightarrow> db_holds signed_up_db 5 r n)"
  by (simp add: can_def engine_of_def role_bypass_def pg_rbac_store_def get_roles_def has_permission_def db_holds_def toy_roles
      split: option.split)

lemma toy_holds:
  "db_holds signed_up_db 5 ''Schemas'' ''Create''" "\<not> db_holds signed_up_db 5 ''Users'' ''Delete''"
  "split_action ''Schemas.Create'' = Some (''Schemas'', ''Create'')" "split_action ''Users.Delete'' = Some (''Users'', ''Delete'')"
  by code_simp+

lemma toy_owned: "list_ex (\<lambda>row. row_id row = 7) (owned_rows (w_schemas signed_up_world) 5)"
proof -
  have "pg_create decimal_env (calm 0) 7 0 5 sample_schema empty_store =
      (Inr (schema_new (show_uuid decimal_env 7) sample_schema 0), w_schemas signed_up_world)"
    using toy_created by (simp add: service_create_def sample_name split: prod.splits sum.splits)
  then show ?thesis by (rule pg_createE) (auto simp: owned_rows_def owns_def)
qed

text \<open>The same person with the role Staff, which holds no permission.\<close>

definition staff_db :: iam_db where
  "staff_db = signed_up_db\<lparr>db_user_roles := [(1, 1), (5, 3)]\<rparr>"

definition staff_world :: world where
  "staff_world = signed_up_world\<lparr>w_iam := staff_db\<rparr>"

lemma staff_ok: "iam_ok (w_iam staff_world)"
  by (simp add: staff_world_def staff_db_def iam_ok_def users_distinct_def users_linked_def roles_linked_def signed_up_db_def migrated_db_def
      user_row_too_long_def ada_def)

lemma staff_authenticated:
  "authenticate toy_service (toy_request 0) (Some ''Bearer access'') staff_world = (Inr (identity_of (w_iam staff_world) ada), staff_world)"
  by (rule toy_authenticates [OF staff_ok]) (simp add: staff_world_def staff_db_def)

lemma staff_refused: "\<not> can (engine_of ''Admin'' (toy_request 0) staff_world) (idn_id (identity_of (w_iam staff_world) ada)) ''Schemas.Delete''"
proof
  assume "can (engine_of ''Admin'' (toy_request 0) staff_world) (idn_id (identity_of (w_iam staff_world) ada)) ''Schemas.Delete''"
  then have "can (engine_of ''Admin'' (toy_request 0) staff_world) 5 ''Schemas.Delete''" by (simp add: identity_of_def ada_def)
  moreover have "role_names (w_iam staff_world) 5 = [''Staff'']"
    by (simp add: staff_world_def staff_db_def role_names_def signed_up_db_def migrated_db_def)
  moreover have "\<not> db_holds staff_db 5 ''Schemas'' ''Delete''" "split_action ''Schemas.Delete'' = Some (''Schemas'', ''Delete'')"
    by code_simp+
  ultimately show False
    by (simp add: can_def engine_of_def role_bypass_def pg_rbac_store_def get_roles_def has_permission_def db_holds_def staff_world_def)
qed

section \<open>Scripts, messages\<close>

lemma inj_show_nat: "inj show_nat"
  by (rule inj_on_inverseI [of _ digits_value]) simp

lemma sample_scannable: "scannable options (sample_stored i now)" "comments_readable options (sample_stored i now)"
proof -
  show "scannable options (sample_stored i now)"
    by (simp add: scannable_def sample_fields sample_defs newline_def text_simps)
  show "comments_readable options (sample_stored i now)"
    by (simp add: comments_readable_def sample_fields sample_defs attr_is_documented_def text_simps)
qed

text \<open>A table whose name goes on after a line break; the verifier has nothing against it.\<close>

definition broken_line_schema :: schema where
  "broken_line_schema =
     schema_new ''s'' \<lparr>draft_name = ''s'', draft_description = '''',
       draft_entities = [(entity_new ''e'' (''a'' @ [newline] @ ''drop table users; --''))
         \<lparr>ent_attributes := [as_primary_key (attribute_new ''k'' ''id'' (simple Uuid))]\<rparr>],
       draft_relationships = []\<rparr> 0"

lemma broken_line_valid: "is_valid (verify broken_line_schema)"
  unfolding verify_valid_iff well_formed_def
proof (intro conjI)
  note defs = broken_line_schema_def schema_new_def entity_new_def attribute_new_def as_primary_key_def simple_def
  show "names_present broken_line_schema" "types_in_range broken_line_schema" "ends_resolve broken_line_schema"
    "keys_present broken_line_schema" "references_sound broken_line_schema" "relationships_backed broken_line_schema"
    by (simp_all add: defs names_present_def types_in_range_def ends_resolve_def keys_present_def references_sound_def
        reference_sound_def relationships_backed_def parameters_in_range_def takes_length_def takes_precision_def
        newline_def text_simps)
  show "all_names_distinct broken_line_schema"
    unfolding all_names_distinct_def names_distinct_def by (simp add: defs)
  show "no_required_cycle broken_line_schema"
    by (simp add: no_required_cycle_def required_edges_def reference_edges_def edges_of_def defs acyclic_def)
qed

text \<open>The import writes a default value back from its tokens, and tears the sign of a cast apart.\<close>

lemma cast_is_stored_apart:
  "map (map pc_default_value \<circ> pt_columns) (part_tables (sort_statements (fst (scan ''create table a (b int default 0::int)'')))) =
     [[Some ''0 : : int'']]"
  by code_simp

text \<open>A message as the sign-in of the gRPC port receives it.\<close>

definition login_message :: "pfield list" where
  "login_message = [PField ''email'' Kind_string False (Some (PString ''ada@x'')),
     PField ''password'' Kind_string False (Some (PString ''pw''))]"

end
