(* ===== verification/Spec2Isabelle.thy ===== *)
theory Spec2Isabelle
  imports Examples
begin

text \<open>
  A verification of SchemaForge, the backend of an editor for database schemas. People sign in,
  draw tables, columns and relationships on a canvas, and have the drawing checked, turned into
  PostgreSQL, exported, imported and compared. The program is the Rust crate under \<^verbatim>\<open>src/src\<close>; paths
  below are relative to it.

  \<^bold>\<open>The parts and their theories.\<close> Each theory models a part of the program as functions that compute,
  one definition for each function of the source and mostly under its name, and proves its lemmas
  after the definitions.

  \<^item> \<^verbatim>\<open>SF_Prelude\<close>: text, numbers and lists as Rust has them (\<open>trim\<close>, \<open>split_once\<close>, case folding, decimal
    printing, UTF-8 lengths), with the simp rules the components share. A character is a byte of
    Latin-1; where its UTF-8 length counts, it is counted.
  \<^item> \<^verbatim>\<open>Float64\<close>: the doubles of the canvas as bit patterns, with printing, reading and rounding.
  \<^item> \<^verbatim>\<open>Domain\<close>, \<^verbatim>\<open>Diagnostics\<close>: \<^verbatim>\<open>module/schema/core/domain\<close>.
  \<^item> \<^verbatim>\<open>Verifier_Checks\<close>, \<^verbatim>\<open>Cycles\<close>, \<^verbatim>\<open>Cycles_Correct\<close>, \<^verbatim>\<open>Verifier\<close>: \<^verbatim>\<open>core/service/verifier\<close>. A locale states
    what it is for a check to decide a condition, each check is an interpretation of it, and the
    verifier decides their conjunction. The cycle search keeps the arrays and the stack of the
    source; its fuel is the number of nodes, which is proved to be enough.
  \<^item> \<^verbatim>\<open>Generator\<close>: \<^verbatim>\<open>core/service/generator\<close>. \<^verbatim>\<open>Sql_Scan\<close>, \<^verbatim>\<open>Sql_Cursor\<close>, \<^verbatim>\<open>Sql_Table\<close>, \<^verbatim>\<open>Sql_Read\<close>, \<^verbatim>\<open>Exchange_Json\<close>,
    \<^verbatim>\<open>Compare\<close>: \<^verbatim>\<open>core/service/exchange\<close>. \<^verbatim>\<open>Sample\<close>: \<^verbatim>\<open>core/sample.rs\<close>.
  \<^item> \<^verbatim>\<open>Sql_Lex\<close>, \<^verbatim>\<open>Script_Lex\<close>, \<^verbatim>\<open>Script_Read\<close>, \<^verbatim>\<open>Script_Import\<close>: the way of a generated script through the import.
    The scanner is shown to cut a text into lexemes, the script to be the lexemes meant by the
    generator, each statement to be read as the table, key or comment it was written for, and the
    passes of the import to put them together again. They prove; they model no further code.
  \<^item> \<^verbatim>\<open>Repository\<close>, \<^verbatim>\<open>Schema_Service\<close>, \<^verbatim>\<open>Schema_Spec\<close>: \<^verbatim>\<open>adapter/repository/postgres.rs\<close> and
    \<^verbatim>\<open>core/service/schema.rs\<close>. The state is the two tables; a statement may fail at any point, and a
    transaction that fails leaves the tables as they were. The locale \<open>schema_store\<close> is the contract of a
    repository, \<open>backed_service\<close> what the service makes of it, and \<^verbatim>\<open>Schema_Spec\<close> an abstract machine of
    one map for each user that the service refines.
  \<^item> \<^verbatim>\<open>Errdef\<close>, \<^verbatim>\<open>Pagination\<close>, \<^verbatim>\<open>Validation\<close>, \<^verbatim>\<open>Credentials\<close>: \<^verbatim>\<open>package/errdef.rs\<close>, \<^verbatim>\<open>pagination.rs\<close>, \<^verbatim>\<open>validation.rs\<close>,
    \<^verbatim>\<open>crypto.rs\<close>, \<^verbatim>\<open>jwt\<close> and \<^verbatim>\<open>auth/google.rs\<close>.
  \<^item> \<^verbatim>\<open>Iam_Store\<close>, \<^verbatim>\<open>Rbac\<close>, \<^verbatim>\<open>Auth\<close>, \<^verbatim>\<open>Auth_Correct\<close>, \<^verbatim>\<open>Iam\<close>: the account tables, \<^verbatim>\<open>package/rbac\<close>, \<^verbatim>\<open>package/auth\<close> and
    \<^verbatim>\<open>module/iam\<close>. An operation maps a world (account tables, schema tables, mail sent) to a result
    and a world; \<open>and_then\<close> is the operator \<open>?\<close> and keeps what was done before an error. The locales
    \<open>permission_store\<close> and \<open>listing_store\<close> are the contract between the engine and its store.
  \<^item> \<^verbatim>\<open>Gateway\<close>, \<^verbatim>\<open>Wire\<close>, \<^verbatim>\<open>Schema_Rpc\<close>, \<^verbatim>\<open>Payload\<close>, \<^verbatim>\<open>Schema_Http\<close>: the middleware and guards of
    \<^verbatim>\<open>server/middlewares\<close>, the handlers and routes of both ports, and the translation between their
    messages and the domain.
  \<^item> \<^verbatim>\<open>Config\<close>, \<^verbatim>\<open>Server\<close>: \<^verbatim>\<open>package/env.rs\<close> and \<^verbatim>\<open>config\<close>; the commands of \<^verbatim>\<open>main.rs\<close>, the order of the migrations
    (\<^verbatim>\<open>database\<close>, \<^verbatim>\<open>provider/mod.rs\<close>), the services of the gRPC port (\<^verbatim>\<open>server/grpc.rs\<close>), the answers of \<^verbatim>\<open>module/health\<close>, \<^verbatim>\<open>package/response.rs\<close> and \<^verbatim>\<open>masked.rs\<close>.
  \<^item> \<^verbatim>\<open>Rpc_Log\<close>, \<^verbatim>\<open>Rpc_Dump\<close>: the frames of a gRPC body, the blanking of messages, the body that copies itself
    for the log, request ids and outcomes (\<^verbatim>\<open>rpc_body.rs\<close>, \<^verbatim>\<open>rpc_context.rs\<close>, \<^verbatim>\<open>request_context.rs\<close>).
  \<^item> \<^verbatim>\<open>Emailer\<close>, \<^verbatim>\<open>Recovery_Mail\<close>: filling and sending a mail, \<^verbatim>\<open>package/emailer\<close> with its template, and the mail
    of a password recovery.
  \<^item> \<^verbatim>\<open>System\<close>, \<^verbatim>\<open>Isolation\<close>: every call of the server as a step of one machine that starts with the tables
    the migrations leave, its reachable states, and who can change what.
  \<^item> \<^verbatim>\<open>Examples\<close>: a small world with one person signed up, in which the examples run.

  \<^bold>\<open>Parameters.\<close> What is not the program's own is an argument with its documented behaviour as a named
  hypothesis: bcrypt (\<open>bcrypt_sound\<close>), the token signer (\<open>jwt_sound\<close>), the parsers of JSON, UUIDs, URLs and
  addresses, the HTTP client of the Google exchange, the printing of timestamps, the decoder of
  messages, the SMTP transport, the migrators of sqlx. The clock, the ids
  and the random bytes a request draws and the failures of the database and the mailer it meets are
  fields of the request, so a theorem about all requests covers every clock and every failure.

  \<^bold>\<open>What is shown.\<close> The verifier accepts exactly the well-formed schemas, and the script is handed out
  only for those. The store keeps unique names for each owner, is isolated between owners through
  every port, and refines the machine of owner maps; created, replaced and deleted schemas are seen
  as such. JSON files and stored drawings come back as they were, and the import reads the generated
  SQL back as the schema it was written for. Logged messages hold no secret, and the mail of
  a recovery holds its link. Signing in needs the password or a
  verified Google address, tokens name their account until they expire, recovery links work once,
  and the permission engine fails closed. Both ports read a schema alike. Some theorems state
  behaviour that looks unintended: any account can take the super role, deleted users still sign
  in, HTTP asks for no permission where gRPC does, a failed sign-up leaves its account, a huge page
  number wraps, a percent sign in the database password is lost, and a line break in a table name
  turns the rest of the name into SQL of the script.

  \<^bold>\<open>Loops.\<close> All recursion is total: structural, or by a measure (the scanner and the reader of tables on
  what is left of the text, frames on the bytes left). Only the component search takes fuel, the
  number of nodes, and it is proved to return with it.

  \<^bold>\<open>Not modelled.\<close> The transports (axum, tonic, prost, serde), the connection pool, the tracing
  subscriber, the listeners with their shutdown, the wiring of the services into routers and the
  API documentation: they call libraries and decide nothing. A mail of the account
  machine is an entry of the outbox, before it is rendered. Requests run one after another:
  a request's own transaction is atomic, and the locks the source takes for a name are what makes
  that faithful for writes of one owner. The HTTP handlers take payloads as serde has read them.
\<close>

section \<open>The verifier\<close>

text \<open>
  C1: The verifier accepts a schema, reporting no error, exactly when the schema is well formed:
  every name is present and unique, type parameters are in range, relationship ends exist, every
  table has a primary key, every foreign key points at a key of a compatible type, relationships are
  backed by a foreign key and no cycle of required references exists.
\<close>

theorem verify_decides_well_formed: "is_valid (verify s) \<longleftrightarrow> well_formed s"
  by (rule verify_valid_iff)

text \<open>
  C5: On every graph whose edges stay within its nodes the component search of the cycle check
  returns, and what it returns are the strongly connected components of two or more nodes, each
  once, sorted and in order.
\<close>

theorem search_finds_components:
  assumes "\<forall>(u, v) \<in> set edges. u < n \<and> v < n"
  shows "\<exists>cs. strongly_connected n edges = Some cs \<and> sorted cs \<and> distinct cs \<and>
    (\<forall>c \<in> set cs. sorted c \<and> distinct c) \<and>
    set ` set cs = {C. is_scc (set edges) C \<and> 2 \<le> card C}"
  using assms by (rule strongly_connected_correct)

theorem search_finds_components_witness:
  "\<exists>cs. strongly_connected 4 [(0, 1), (1, 2), (2, 0), (2, 3)] = Some cs \<and> sorted cs \<and> distinct cs \<and>
    set ` set cs = {C. is_scc {(0, 1), (1, 2), (2, 0), (2, 3)} C \<and> 2 \<le> card C}"
  using search_finds_components [of "[(0, 1), (1, 2), (2, 0), (2, 3)]" 4] by auto

text \<open>
  C13: The cycle check reports each group of tables that reference each other in a cycle once, in a
  diagnostic that names exactly the tables of the group, and the report is refused exactly when
  the foreign keys that cannot be null form a cycle.
\<close>

theorem cycles_reported:
  "\<exists>cycles. distinct cycles \<and>
     set ` set cycles = {C. is_scc (set (all_edges s)) C \<and> 2 \<le> card C} \<and>
     map element_ids (diagnostics (check_cycles s report_default)) =
       map (map (\<lambda>i. ent_id (sch_entities s ! i))) cycles \<and>
     (is_valid (check_cycles s report_default) \<longleftrightarrow> acyclic (set (required_edges s)))"
proof -
  obtain cycles blocked where "distinct cycles"
    "set ` set cycles = {C. is_scc (set (all_edges s)) C \<and> 2 \<le> card C}"
    "\<And>r. diagnostics (check_cycles s r) = diagnostics r @ map (cycle_diagnostic s blocked) cycles"
    using check_cycles_runs [of s] by metis
  moreover have "is_valid (check_cycles s report_default) \<longleftrightarrow> acyclic (set (required_edges s))"
    using cycles.valid_iff [of s report_default] by (simp add: no_required_cycle_def)
  ultimately show ?thesis
    by (intro exI [of _ cycles]) (simp add: cycle_diagnostic_fields comp_def report_default_def)
qed

section \<open>The service\<close>

text \<open>
  C6: SQL is handed out only for a schema the verifier accepts: when a request for DDL is answered,
  the dialect is PostgreSQL, the report is the verifier's on the schema the target names, and the
  script is the generator's if that schema is well formed and empty otherwise.
\<close>

theorem ddl_only_for_well_formed:
  assumes "service_generate_ddl (services env outages new_id now) caller request st = Inr g"
  shows "gr_dialect request = Postgres \<and>
    (\<exists>s. resolve_target (services env outages new_id now) 0 caller (gr_target request) st = Inr s \<and>
      gen_report g = verify s \<and>
      gen_ddl g = (if well_formed s then generate s (gr_options request) else ''''))"
  using assms by (rule generate_ddl_answer) blast

theorem ddl_only_for_well_formed_witness:
  "\<exists>s. resolve_target (services decimal_env calm 9 0) 0 1 (Draft (sample_stored ''s'' 0)) empty_store = Inr s \<and>
     well_formed s"
proof -
  define request where "request = \<lparr>gr_target = Draft (sample_stored ''s'' 0), gr_dialect = Postgres,
    gr_options = generate_options_default\<rparr>"
  have "service_generate_ddl (services decimal_env calm 9 0) 1 request empty_store =
      Inr \<lparr>gen_ddl = generate (sample_stored ''s'' 0) generate_options_default, gen_report = verify (sample_stored ''s'' 0)\<rparr>"
    by (simp add: request_def service_generate_ddl_def generator_for_def resolve_target_def sample_valid)
  from ddl_only_for_well_formed [OF this] show ?thesis
    using sample_valid [of "''s''" 0] by (auto simp: request_def resolve_target_def verify_valid_iff)
qed

text \<open>
  C9: In every store that requests can lead to, whoever sends them and whatever fails, ids are
  unique, every schema belongs to at most one user, and no user has two schemas whose names differ
  only in case.
\<close>

theorem reachable_store_consistent:
  assumes "reachable env st"
  shows "distinct (map row_id (schema_rows st)) \<and> distinct (map own_schema (owner_rows st)) \<and>
    own_schema ` set (owner_rows st) \<subseteq> row_id ` set (schema_rows st) \<and>
    (\<forall>owner. \<forall>r1 \<in> set (owned_rows st owner). \<forall>r2 \<in> set (owned_rows st owner).
       to_lowercase (row_name r1) = to_lowercase (row_name r2) \<longrightarrow> row_id r1 = row_id r2)"
  using reachable_ok [OF assms] unfolding store_ok_def names_unique_def .

theorem reachable_store_consistent_witness:
  "reachable decimal_env example_store \<and> distinct (map row_id (schema_rows example_store))"
  using reachable_store_consistent [OF example_reachable] example_reachable by blast

text \<open>
  C17: A request the service refuses leaves the store as it was, whatever the reason.
\<close>

theorem refused_request_changes_nothing:
  "(\<forall>e st'. service_create (services env outages new_id now) caller d st = (Inl e, st') \<longrightarrow> st' = st) \<and>
   (\<forall>e st'. service_replace (services env outages new_id now) caller ident d st = (Inl e, st') \<longrightarrow> st' = st) \<and>
   (\<forall>e st'. service_delete (services env outages new_id now) caller ident st = (Inl e, st') \<longrightarrow> st' = st)"
  by (intro conjI allI impI) (rule live.create_refused live.replace_refused live.delete_refused, assumption)+

theorem refused_request_changes_nothing_witness:
  "snd (service_delete (services decimal_env calm 9 0) 2 ''seven'' example_store) = example_store"
proof -
  have "fst (service_delete (services decimal_env calm 9 0) 2 ''seven'' example_store) = Inl (to_error SchemaNotFound)"
    by (simp add: service_delete_def pg_delete_def decimal_env_def map_err_def text_simps)
  then show ?thesis
    using refused_request_changes_nothing [of decimal_env calm 9 0 2 sample_schema example_store "''seven''"]
    by (metis prod.collapse)
qed



text \<open>
  C15: Creating succeeds whenever nothing stands against it: the name is given and not too long, the
  user has no schema of that name, the fresh id is unused, every coordinate is finite and no
  statement fails. The answer is the draft under the new id.
\<close>

theorem create_succeeds:
  assumes "trim (draft_name d) \<noteq> ''''" "length (draft_name d) \<le> 120"
    and "\<not> name_taken st caller (draft_name d) None" and "new_id \<notin> row_id ` set (schema_rows st)"
    and "layout_finite (draft_entities d)" and "outages 0 = (\<lambda>_. None)"
  shows "fst (service_create (services env outages new_id now) caller d st) =
    Inr (schema_new (show_uuid env new_id) d now)"
  using assms by (intro create_answers) (simp_all add: check_draft_iff MAX_NAME_LENGTH_def)

theorem create_succeeds_witness:
  "fst (service_create (services decimal_env calm 7 0) 1 sample_schema empty_store) =
     Inr (schema_new (show_uuid decimal_env 7) sample_schema 0)"
  using sample_name unfolding check_draft_iff MAX_NAME_LENGTH_def
  by (intro create_succeeds)
    (simp_all add: sample_layout calm_def empty_store_def name_taken_def owned_rows_def)



text \<open>
  C18: Reading the pages of a listing from the first to the last gives every schema of the caller
  exactly once and nothing else, and every page reports the number of them as the total.
\<close>

theorem listing_is_complete:
  assumes "reachable env st" and "1 \<le> per" "per \<le> 100" "int pages \<le> 2 ^ 56"
    and "length (owned_rows st caller) \<le> pages * per" and "outages 0 = (\<lambda>_. None)"
  shows "\<exists>rows. set rows = set (owned_rows st caller) \<and> distinct (map row_id rows) \<and>
    (\<forall>k < pages. \<exists>page. service_index (services env outages new_id now) caller (paged (of_nat (k + 1)) (of_nat per)) st =
        Inr page \<and> total_count (pd_meta page) = of_nat (length rows) \<and>
        pd_data page = map (map_summary env) (take per (drop (k * per) rows))) \<and>
    concat (map (\<lambda>k. take per (drop (k * per) rows)) [0..<pages]) = rows"
  using reachable_ok [OF assms(1)] assms(2-6) by (rule index_complete)

theorem listing_is_complete_witness:
  "\<exists>page. service_index (services decimal_env calm 8 1) 1 (paged 1 10) example_store = Inr page \<and>
     total_count (pd_meta page) = of_nat (length (owned_rows example_store 1))"
proof -
  have "length (owned_rows example_store 1) \<le> 1 * 10"
    using example_rows by (auto simp: owned_rows_def)
  from listing_is_complete [OF example_reachable _ _ _ this, of calm 8 1]
  obtain rows page where rows: "set rows = set (owned_rows example_store 1)" "distinct (map row_id rows)"
    "service_index (services decimal_env calm 8 1) 1 (paged 1 10) example_store = Inr page"
    "total_count (pd_meta page) = of_nat (length rows)"
    by (auto simp: calm_def)
  have "length rows = length (owned_rows example_store 1)"
    using rows(1,2) reachable_ok [OF example_reachable]
    by (metis distinct_card distinct_filter distinct_map owned_rows_def store_ok_def)
  then show ?thesis using rows by auto
qed

section \<open>Files\<close>

text \<open>
  C12: A schema exported as a JSON file and imported again comes back as the same draft, with
  nothing reported, for every schema the format can carry (trimmed ids, parameters only on types
  that take them, relationships between its own tables, finite coordinates) and every JSON printer
  the parser reads back.
\<close>

theorem json_file_round_trip:
  assumes "exportable s" and "\<forall>e \<in> set (sch_entities s). position_finite (ent_position e)"
    and "parse (print (document_doc s True)) = Inr (document_doc s True)"
    and "service_export print svc caller \<lparr>er_target = Draft s, er_format = Json_format, er_include_positions = True\<rparr> st = Inr doc"
  shows "service_import parse ids now
      \<lparr>ir_content = exp_content doc, ir_format = Json_format, ir_include_positions = True\<rparr> =
    Inr \<lparr>imp_draft = schema_new '''' (draft s) now, imp_report = report_default\<rparr>"
proof -
  have "exp_content doc = json_write print s True"
    using assms(4) by (auto simp: service_export_def resolve_target_def export_def)
  then show ?thesis
    by (simp add: service_import_def import_def json_round_trip assms(1-3))
qed

lemma sample_exportable:
  "exportable (sample_stored ''s'' 0)" "\<forall>e \<in> set (sch_entities (sample_stored ''s'' 0)). position_finite (ent_position e)"
  unfolding exportable_def sample_fields
  by (simp_all add: sample_relationships relationship_new_def sample_defs entity_clean_def attribute_clean_def id_clean_def
      type_clean_def position_finite_def position_new_def f64_of_nat_finite text_simps)

theorem json_file_round_trip_witness:
  "\<exists>doc. service_export (\<lambda>_. ''{}'') (services decimal_env calm 9 0) 1
      \<lparr>er_target = Draft (sample_stored ''s'' 0), er_format = Json_format, er_include_positions = True\<rparr> empty_store = Inr doc \<and>
    service_import (\<lambda>_. Inr (document_doc (sample_stored ''s'' 0) True)) (\<lambda>_. '''') 5
      \<lparr>ir_content = exp_content doc, ir_format = Json_format, ir_include_positions = True\<rparr> =
    Inr \<lparr>imp_draft = schema_new '''' (draft (sample_stored ''s'' 0)) 5, imp_report = report_default\<rparr>"
proof -
  obtain doc where "service_export (\<lambda>_. ''{}'') (services decimal_env calm 9 0) 1
      \<lparr>er_target = Draft (sample_stored ''s'' 0), er_format = Json_format, er_include_positions = True\<rparr> empty_store = Inr doc"
    by (simp add: service_export_def resolve_target_def export_def)
  moreover from json_file_round_trip [OF sample_exportable _ this] have
    "service_import (\<lambda>_. Inr (document_doc (sample_stored ''s'' 0) True)) (\<lambda>_. '''') 5
      \<lparr>ir_content = exp_content doc, ir_format = Json_format, ir_include_positions = True\<rparr> =
    Inr \<lparr>imp_draft = schema_new '''' (draft (sample_stored ''s'' 0)) 5, imp_report = report_default\<rparr>" by simp
  ultimately show ?thesis by blast
qed


text \<open>
  Comparing a drawing with itself finds no difference, when foreign keys held under one name
  point at one name and, if positions are compared, no coordinate is NaN.
\<close>

theorem comparing_with_itself_is_equal:
  assumes "holders_consistent d" and "with_positions \<longrightarrow> list_all layout_known (draft_entities d)"
  shows "is_equal (compare d d with_positions)"
  using compare_self_quiet [OF assms] by (rule quiet_is_equal)

theorem comparing_with_itself_is_equal_witness:
  "is_equal (compare (draft (sample_stored ''s'' 0)) (draft (sample_stored ''s'' 0)) False)"
  by (rule comparing_with_itself_is_equal)
    (simp_all add: holders_consistent_def references_def draft_def sample_fields sample_defs point_at_def same_def
      sample_schema_def schema_new_def text_simps)



text \<open>
  An imported draft has exactly the tables of the script's \<open>CREATE TABLE\<close> statements, with the
  columns read for each, in their order; foreign keys, comments and layout only add to them.
\<close>

theorem imported_tables:
  assumes "sql_read ids content b = Inr (d, r)"
  shows "map (\<lambda>e. (ent_name e, map attr_name (ent_attributes e))) (draft_entities d) =
    map (\<lambda>t. (pt_name t, map pc_name (pt_columns t))) (part_tables (sort_statements (fst (scan content))))"
  using sql_read_names [OF assms] by (simp add: drawn_names_def)

theorem imported_tables_witness:
  "\<exists>d r. sql_read (\<lambda>_. '''') ''create table a (b int)'' True = Inr (d, r) \<and>
     map (\<lambda>e. (ent_name e, map attr_name (ent_attributes e))) (draft_entities d) = [(''a'', [''b''])]"
proof -
  have tables: "map (\<lambda>t. (pt_name t, map pc_name (pt_columns t)))
      (part_tables (sort_statements (fst (scan ''create table a (b int)'')))) = [(''a'', [''b''])]" by code_simp
  then obtain d r where "sql_read (\<lambda>_. '''') ''create table a (b int)'' True = Inr (d, r)"
    by (fastforce simp: sql_read_def case_prod_beta Let_def)
  with imported_tables [OF this] tables show ?thesis by auto
qed

text \<open>
  C4: The script the generator writes for a schema the verifier accepts is read back by the import
  without a warning. The tables come back in their order, with the trimmed names, the columns, the
  type parameters the kind of a type takes, keys, flags, default values and foreign keys, with the
  descriptions if the script has comments, and with their rounded places if it has positions and
  the import wants them, else in a grid; each foreign key also gives a relationship, one to many.
  What is asked of the schema is that a default value is an expression the scanner reads and prints
  as it was and that no table name breaks its line (\<open>scannable\<close>), and that a described column has no
  full stop in its name (\<open>comments_readable\<close>); of the ids drawn, that they differ.
\<close>

theorem script_is_read_back:
  assumes "is_valid (verify s)" "sch_entities s \<noteq> []" "inj ids"
    and "scannable options s" "comments_readable options s"
  shows "\<exists>d. sql_read ids (generate s options) with_positions = Inr (d, report_default) \<and>
    outline (draft_entities d) = outline (as_written options with_positions (sch_entities s)) \<and>
    map (relationship_names (draft_entities d)) (draft_relationships d) = map reference_names (references_of s)"
proof -
  have "names_apart s" using assms(1) by (intro names_apart_if) (simp_all add: verify_valid_iff well_formed_def)
  then show ?thesis by (rule outline_generated [OF assms(3,4,5) _ assms(2)])
qed

theorem script_is_read_back_witness:
  "\<exists>d. sql_read show_nat (generate (sample_stored ''s'' 0) generate_options_default) True = Inr (d, report_default) \<and>
    map ent_name (draft_entities d) = [''users'', ''posts'', ''comments'']"
proof -
  obtain d where d: "sql_read show_nat (generate (sample_stored ''s'' 0) generate_options_default) True = Inr (d, report_default)"
    "outline (draft_entities d) = outline (as_written generate_options_default True (sch_entities (sample_stored ''s'' 0)))"
    using script_is_read_back [OF sample_valid _ inj_show_nat sample_scannable, of "''s''" 0 generate_options_default True]
    by (auto simp: sample_fields)
  have names: "map fst (outline es) = map ent_name es" for es by (simp add: outline_def comp_def)
  have "map ent_name (draft_entities d) = map (trim \<circ> ent_name) (sch_entities (sample_stored ''s'' 0))"
    unfolding names [symmetric] d(2)
    by (simp add: names as_written_def placed_def written_def case_prod_beta comp_def sample_fields)
  then show ?thesis using d(1) by (simp add: sample_fields sample_defs text_simps)
qed

text \<open>
  C30: The layout comments of a script are not escaped: a table whose name has a line break leaves the
  comment, and what follows in the name, words closed by a semicolon, is the first statement of the
  script. The verifier accepts such a schema.
\<close>

theorem name_runs_as_sql:
  assumes "include_positions options" "sch_entities s = e # es" "plain_words ws"
    and "trim (ent_name e) = u @ newline # join '' '' ws @ ''; --''" "newline \<notin> set u"
  shows "\<exists>more. map st_tokens (fst (scan (generate s options))) = map TWord ws # more"
  using assms by (rule name_breaks_out)

theorem name_runs_as_sql_witness:
  "is_valid (verify broken_line_schema) \<and>
   (\<exists>more. map st_tokens (fst (scan (generate broken_line_schema generate_options_default))) =
     [TWord ''drop'', TWord ''table'', TWord ''users''] # more)"
proof -
  have "trim (''a'' @ [newline] @ ''drop table users; --'') = ''a'' @ newline # join '' '' [''drop'', ''table'', ''users''] @ ''; --''"
    by (simp add: newline_def text_simps)
  moreover have "plain_words [''drop'', ''table'', ''users'']"
    by (simp add: plain_words_def keyword_simps)
  ultimately show ?thesis
    using name_runs_as_sql [of generate_options_default broken_line_schema _ "[]" "[''drop'', ''table'', ''users'']" "''a''"]
      broken_line_valid
    by (simp add: broken_line_schema_def schema_new_def entity_new_def generate_options_default_def newline_def)
qed

text \<open>
  C38: The name of a foreign key constraint fits the 63 bytes PostgreSQL keeps, and it is cut only
  when it does not fit, to the longest run of whole characters that does.
\<close>

theorem constraint_name_fits:
  "bytes_len (constraint_name table col) \<le> 63 \<and>
   (\<exists>t. ''fk_'' @ trim table @ ''_'' @ trim col = constraint_name table col @ t \<and>
     (t \<noteq> [] \<longrightarrow> 63 < bytes_len (constraint_name table col @ [hd t])))"
  unfolding constraint_name_def by (rule cut_identifier_spec)

theorem constraint_name_fits_witness: "bytes_len (constraint_name ''posts'' ''user_id'') \<le> 63"
  using constraint_name_fits [of "''posts''" "''user_id''"] by simp

section \<open>Errors and pages\<close>

text \<open>
  Whatever the query string says, the page is at least 1, the page size is between 1 and 100
  and the order is empty, ascending or descending; and a request already in range is kept.
\<close>

theorem list_request_in_range:
  "request_ok (from_query pairs) \<and> request_ok (paged page per) \<and> (request_ok r \<longrightarrow> normalize r = r)"
  by (simp add: from_query_def paged_def normalize_ok normalize_idem)

theorem list_request_in_range_witness: "normalize list_request_default = list_request_default"
  using list_request_in_range [of "[]" 1 1 list_request_default]
  by (simp add: request_ok_def list_request_default_def DEFAULT_PER_PAGE_def)

text \<open>
  The number of pages is the total divided by the page size, rounded up, and a next page is
  offered exactly when rows remain after the current one.
\<close>

theorem page_links:
  assumes "0 \<le> sint tot" "1 \<le> sint per" "0 \<le> sint cur" "sint cur < 2 ^ 63 - 1"
  shows "sint (total_pages (pd_meta (data_new xs tot cur per))) = (sint tot + sint per - 1) div sint per \<and>
    (next_page (pd_meta (data_new xs tot cur per)) \<noteq> None \<longleftrightarrow> sint cur * sint per < sint tot)"
  using data_new_pages [OF assms(1,2)] next_page_iff [OF assms] by blast

theorem page_links_witness: "next_page (pd_meta (data_new ([] :: unit list) 21 2 10)) \<noteq> None"
  using page_links [of 21 10 2 "[] :: unit list"] by simp


section \<open>Accounts\<close>

text \<open>
  C10: In every state the server can reach, signing in with an address and a password succeeds exactly
  for the account that address belongs to, if it has a password and the password is the one its hash
  was made from; every other attempt gets the same answer, and no attempt changes anything.
\<close>

theorem sign_in_needs_the_password:
  assumes "system_reachable sv w" and "db_calm (rq_faults rq 0)"
  shows "generate_token svc rq email password w =
    ((case List.find (opens svc email password) (db_users (w_iam w)) of
        Some r \<Rightarrow> generate_tokens svc rq (identity_of (w_iam w) r)
      | None \<Rightarrow> Inl (unauthorized INVALID_CREDENTIALS)), w)"
  using system_reachable_ok [OF assms(1)] assms(2) by (simp add: login_decides world_ok_def)

theorem sign_in_needs_the_password_witness:
  "generate_token toy_service (toy_request 0) ''ada@x.io'' ''wrong'' signed_up_world =
     (Inl (unauthorized INVALID_CREDENTIALS), signed_up_world) \<and>
   generate_token toy_service (toy_request 0) ''ada@x.io'' ''secret123'' signed_up_world =
     (Inr \<lparr>tk_token = ''access'', tk_refresh_token = ''refresh''\<rparr>, signed_up_world)"
proof -
  note login = sign_in_needs_the_password [OF signed_up_reachable, of "toy_request 0" toy_service "''ada@x.io''"]
  have "List.find (opens toy_service ''ada@x.io'' ''wrong'') (db_users signed_up_db) = None"
    "List.find (opens toy_service ''ada@x.io'' ''secret123'') (db_users signed_up_db) = Some ada"
    by (simp_all add: opens_def signed_up_db_def migrated_db_def ada_def toy_crypto_def)
  then show ?thesis using login [of "''wrong''"] login [of "''secret123''"] toy_tokens by simp
qed

text \<open>
  C19: A token names the account it was issued for, with the roles it has when the token is presented,
  up to the second the token expires; from then on it is refused. The refresh token is accepted as an
  access token too, for its own, longer life.
\<close>

theorem tokens_identify_until_expiry:
  assumes "jwt_sound (as_jwt svc)" and "parse_uuid (as_env svc) (show_uuid (as_env svc) (us_id r)) = Some (us_id r)"
    and "generate_tokens svc rq (identity_of db0 r0) = Inr t" and "us_id r0 = us_id r"
    and "system_reachable sv w" and "r \<in> set (db_users (w_iam w))" and "db_calm (rq_faults rq2 0)"
  shows "(seconds (rq_now rq2) \<le> seconds (rq_now rq + as_token_ttl svc * 1000000) \<longrightarrow>
      get_identity svc rq2 (tk_token t) w = (Inr (identity_of (w_iam w) r), w)) \<and>
    (seconds (rq_now rq2) \<le> seconds (rq_now rq + as_refresh_token_ttl svc * 1000000) \<longrightarrow>
      get_identity svc rq2 (tk_refresh_token t) w = (Inr (identity_of (w_iam w) r), w)) \<and>
    (seconds (rq_now rq + as_token_ttl svc * 1000000) < seconds (rq_now rq2) \<longrightarrow>
      (\<exists>e. get_identity svc rq2 (tk_token t) w = (Inl e, w) \<and> app_code e = UNAUTHORIZED))"
proof -
  have "iam_ok (w_iam w)" using system_reachable_ok [OF assms(5)] by (simp add: world_ok_def)
  then show ?thesis using token_identity [OF assms(1-4) _ assms(6,7)] by blast
qed

theorem tokens_identify_until_expiry_witness:
  "get_identity toy_service (toy_request 900000000) ''access'' signed_up_world =
     (Inr (identity_of signed_up_db ada), signed_up_world) \<and>
   get_identity toy_service (toy_request 901000000) ''refresh'' signed_up_world =
     (Inr (identity_of signed_up_db ada), signed_up_world) \<and>
   (\<exists>e. get_identity toy_service (toy_request 901000000) ''access'' signed_up_world = (Inl e, signed_up_world))"
proof -
  have "ada \<in> set (db_users (w_iam signed_up_world))" by simp
  note t = tokens_identify_until_expiry [OF _ _ toy_tokens refl signed_up_reachable this]
  show ?thesis
    using t [of "toy_request 900000000"] t [of "toy_request 901000000"] toy_jwt_sound
    by (auto simp: seconds_def)
qed



text \<open>
  C32: Signing up is not all or nothing: when the store accepts the account and then fails to keep its
  first schema, the caller gets the failure, the account stays, and trying again with the same
  address is refused as taken.
\<close>

theorem failed_sign_up_leaves_the_account:
  assumes "system_reachable sv w"
    and "check_registration svc \<lparr>reg_name = trim (reg_name raw), reg_email = clean_email (reg_email raw), reg_password = reg_password raw\<rparr> = Inr ()"
    and "find_user_by_email (rq_faults rq 0) (clean_email (reg_email raw)) (w_iam w) = Inr None"
    and "bcrypt_hash (as_crypto svc) (rq_salt rq) (reg_password raw) = Inr h"
    and "create_user (rq_faults rq 1) (rq_user_id rq)
      \<lparr>nu_email = clean_email (reg_email raw), nu_user_name = clean_email (reg_email raw),
       nu_first_name = fst (split_name (trim (reg_name raw))), nu_last_name = snd (split_name (trim (reg_name raw))),
       nu_avatar_url = None, nu_password = h, nu_roles = sign_up_roles\<rparr> (w_iam w) = (Inr u, db)"
    and "service_create (services (as_env svc) (rq_outages rq) (rq_schema_id rq) (rq_now rq)) u sample_schema (w_schemas w) = (Inl e, st)"
  shows "\<exists>w'. register svc rq raw w = (Inl e, w') \<and> u \<in> us_id ` set (db_users (w_iam w')) \<and> w_schemas w' = w_schemas w \<and>
    (\<forall>rq2. db_calm (rq_faults rq2 0) \<longrightarrow> register svc rq2 raw w' = (Inl (conflict EMAIL_TAKEN), w'))"
proof -
  let ?w' = "w\<lparr>w_iam := db, w_schemas := st\<rparr>"
  have "iam_ok (w_iam w)" using system_reachable_ok [OF assms(1)] by (simp add: world_ok_def)
  then obtain row where row: "u = rq_user_id rq" "us_id row = rq_user_id rq" "db_users db = db_users (w_iam w) @ [row]"
      "us_email row = clean_email (reg_email raw)"
    by (rule created_account [OF assms(5)], intro that) simp_all
  have "st = w_schemas w" using live.create_refused [OF assms(6)] .
  moreover have "register svc rq raw w = (Inl e, ?w')" using assms(2-6) by (rule register_seed_fails)
  moreover have "register svc rq2 raw ?w' = (Inl (conflict EMAIL_TAKEN), ?w')" if "db_calm (rq_faults rq2 0)" for rq2
  proof -
    have "List.find (\<lambda>r. us_email r = clean_email (reg_email raw)) (db_users db) \<noteq> None"
      using row by (auto simp: find_None_iff)
    then obtain i where "find_user_by_email (rq_faults rq2 0) (clean_email (reg_email raw)) (w_iam ?w') = Inr (Some i)"
      unfolding find_user_by_email_def by (auto simp: find_user_calm [OF \<open>db_calm (rq_faults rq2 0)\<close>])
    with assms(2) show ?thesis by (rule register_taken)
  qed
  ultimately show ?thesis using row by (intro exI [of _ ?w']) simp
qed

theorem failed_sign_up_leaves_the_account_witness:
  "\<exists>e w'. register toy_service ((toy_request 0)\<lparr>rq_outages := \<lambda>_ _. Some ''down''\<rparr>) toy_registration (initial_world 1) = (Inl e, w') \<and>
     register toy_service (toy_request 1) toy_registration w' = (Inl (conflict EMAIL_TAKEN), w')"
proof -
  let ?rq = "(toy_request 0)\<lparr>rq_outages := \<lambda>_ _. Some ''down''\<rparr>"
  have down: "service_create (services decimal_env (\<lambda>_ _. Some ''down'') 7 0) 5 sample_schema empty_store =
      (Inl (to_error (Storage ''down'')), empty_store)"
    by (simp add: service_create_def sample_name pg_create_def map_err_def split_beta Let_def)
  have "\<exists>w'. register toy_service ?rq toy_registration (initial_world 1) = (Inl (to_error (Storage ''down'')), w') \<and>
      5 \<in> us_id ` set (db_users (w_iam w')) \<and> w_schemas w' = w_schemas (initial_world 1) \<and>
      (\<forall>rq2. db_calm (rq_faults rq2 0) \<longrightarrow> register toy_service rq2 toy_registration w' = (Inl (conflict EMAIL_TAKEN), w'))"
  proof (rule failed_sign_up_leaves_the_account [OF start [of toy_server 1], where h = "''$secret123''" and db = signed_up_db and st = empty_store])
    show "create_user (rq_faults ?rq 1) (rq_user_id ?rq)
      \<lparr>nu_email = clean_email (reg_email toy_registration), nu_user_name = clean_email (reg_email toy_registration),
       nu_first_name = fst (split_name (trim (reg_name toy_registration))), nu_last_name = snd (split_name (trim (reg_name toy_registration))),
       nu_avatar_url = None, nu_password = ''$secret123'', nu_roles = sign_up_roles\<rparr> (w_iam (initial_world 1)) = (Inr 5, signed_up_db)"
      using toy_create_user by (simp add: toy_registration_def initial_world_def)
  qed (use down in \<open>simp_all add: toy_registration_def initial_world_def toy_checked toy_free toy_hash\<close>)
  then obtain w' where "register toy_service ?rq toy_registration (initial_world 1) = (Inl (to_error (Storage ''down'')), w')"
    "register toy_service (toy_request 1) toy_registration w' = (Inl (conflict EMAIL_TAKEN), w')" by auto
  then show ?thesis by blast
qed



text \<open>
  C21: Signing in with Google is answered only for an address Google has verified, as the account with
  that address, which is made if there is none; no account there was before loses or gains a role, or
  has another address or password afterwards.
\<close>

theorem google_sign_in_keeps_access:
  assumes "system_reachable sv w" and "login_with_google svc rq code w = (Inr t, w')"
  shows "\<exists>account user r. account_for (as_google svc) (as_credentials svc) code = Inr account \<and> ga_email_verified account \<and>
    r \<in> set (db_users (w_iam w')) \<and> us_email r = clean_email (ga_email account) \<and> us_id r = idn_id user \<and>
    generate_tokens svc rq user = Inr t \<and> same_access (w_iam w) (w_iam w')"
proof -
  have "iam_ok (w_iam w)" using system_reachable_ok [OF assms(1)] by (simp add: world_ok_def)
  then show ?thesis using assms(2) google_effects by metis
qed

theorem google_sign_in_keeps_access_witness:
  "\<exists>w' r. login_with_google toy_service (toy_request 0) ''code'' signed_up_world =
       (Inr \<lparr>tk_token = ''access'', tk_refresh_token = ''refresh''\<rparr>, w') \<and>
     r \<in> set (db_users (w_iam w')) \<and> us_email r = ''ada@x.io'' \<and> same_access signed_up_db (w_iam w')"
proof -
  have w': "login_with_google toy_service (toy_request 0) ''code'' signed_up_world =
      (Inr \<lparr>tk_token = ''access'', tk_refresh_token = ''refresh''\<rparr>, signed_up_world)"
    by (rule toy_google_signs_in)
  show ?thesis using google_sign_in_keeps_access [OF signed_up_reachable w'] w' toy_account_for
    by (auto simp: toy_account_def)
qed

section \<open>Access\<close>

text \<open>
  C7: Whatever sequence of calls the server has answered, over both ports, with whatever failures of
  the database and the mailer: ids, addresses and user names are unique, every account has a status
  and a department that exist and fields that fit their columns, roles are held by accounts that
  exist, an address has one pending reset at most, and the store of schemas is consistent.
\<close>

theorem system_tables_consistent:
  assumes "system_reachable sv w"
  shows "distinct (map us_id (db_users (w_iam w))) \<and> distinct (map us_email (db_users (w_iam w))) \<and>
    distinct (map us_user_name (db_users (w_iam w))) \<and>
    (\<forall>r \<in> set (db_users (w_iam w)). us_status_id r \<in> fst ` set (db_statuses (w_iam w)) \<and>
       us_department_id r \<in> dp_id ` set (db_departments (w_iam w)) \<and> \<not> user_row_too_long r) \<and>
    (\<forall>(u, r) \<in> set (db_user_roles (w_iam w)). u \<in> us_id ` set (db_users (w_iam w)) \<and> r \<in> fst ` set (db_roles (w_iam w))) \<and>
    distinct (db_user_roles (w_iam w)) \<and> distinct (map rst_email (db_resets (w_iam w))) \<and> store_ok (w_schemas w)"
  using system_reachable_ok [OF assms] unfolding world_ok_def iam_ok_parts by auto

theorem system_tables_consistent_witness:
  "system_reachable toy_server signed_up_world \<and> distinct (map us_id (db_users signed_up_db)) \<and> store_ok (w_schemas signed_up_world)"
  using system_tables_consistent [OF signed_up_reachable] signed_up_reachable by simp

text \<open>
  C3: No call, whatever it is and whoever sends it, changes what a person can read of the schemas,
  unless the token it carries names that person, or it is a sign-up and the person is the new account.
\<close>

theorem only_the_owner_changes_schemas:
  assumes "system_reachable sv w"
    and "pg_view (as_env (sv_auth sv)) (w_schemas (serve sv rq header c w)) p \<noteq> pg_view (as_env (sv_auth sv)) (w_schemas w) p"
  shows "(\<exists>user. fst (identify (sv_auth sv) rq header w) = Inr user \<and> idn_id user = p) \<or>
    signs_up c \<and> p = rq_user_id rq \<and> p \<notin> us_id ` set (db_users (w_iam w))"
  using system_reachable_ok [OF assms(1)] assms(2) by (rule serve_isolated)

theorem only_the_owner_changes_schemas_witness:
  "pg_view decimal_env (w_schemas (serve toy_server (toy_request 0) None (Auth_rpc_call (Rpc_register toy_registration)) (initial_world 1))) 5 \<noteq>
     pg_view decimal_env (w_schemas (initial_world 1)) 5 \<and>
   5 \<notin> us_id ` set (db_users (migrated_db 1))"
proof -
  have served: "serve toy_server (toy_request 0) None (Auth_rpc_call (Rpc_register toy_registration)) (initial_world 1) = signed_up_world"
    by (simp add: toy_server_def guard_call_def access_for_def toy_registers and_then_def)
  have "service_find_by_id (services decimal_env calm 8 1) 0 5 (show_uuid decimal_env 7) (w_schemas signed_up_world) =
      Inr (schema_new (show_uuid decimal_env 7) sample_schema 0)"
    using create_find [OF empty_store_ok toy_created, of calm 0 8 1] by (simp add: calm_def schema_new_def)
  then have "pg_view decimal_env (w_schemas signed_up_world) 5 7 \<noteq> None"
    using live.find_own [of decimal_env calm 8 1 0 5 "show_uuid decimal_env 7"] by fastforce
  then have changed: "pg_view decimal_env (w_schemas signed_up_world) 5 \<noteq> pg_view decimal_env (w_schemas (initial_world 1)) 5"
    by (auto simp: initial_world_def view_empty)
  moreover have "fst (identify toy_service (toy_request 0) None (initial_world 1)) = Inl malformed"
    by (simp add: identify_def bearer_token_def)
  ultimately show ?thesis
    using only_the_owner_changes_schemas [OF start [of toy_server 1], of "toy_request 0" None "Auth_rpc_call (Rpc_register toy_registration)" 5]
      served
    by (simp add: toy_server_def initial_world_def)
qed

text \<open>
  C8: A call of the gRPC schema service changes nothing, or it makes one write in the name of the
  account its token names, which the permission engine has granted the action the method requires.
\<close>

theorem schema_calls_are_authorised:
  "snd (serve_schema_rpc lib svc super rq header request w) = w \<or>
   (\<exists>user a wr. fst (identify svc rq header w) = Inr user \<and>
      access_for (SCHEMA_SERVICE @ schema_method request) = Requires a \<and> can (engine_of super rq w) (idn_id user) a \<and>
      writer wr = idn_id user \<and>
      snd (serve_schema_rpc lib svc super rq header request w) =
        w\<lparr>w_schemas := apply_write (schemas_of svc rq) wr (w_schemas w)\<rparr>)"
  by (rule serve_schema_rpc_cases)

text \<open>
  C22: The permission engine fails closed: whichever of its queries fail, it grants an action only to
  the holder of the super role, or of a role with the permission the action spells, resource and name
  on either side of the first dot.
\<close>

theorem permission_check_fails_closed:
  assumes "can (engine_of super rq w) u action"
  shows "super \<in> set (role_names (w_iam w) u) \<or>
    (\<exists>r n. action = r @ ''.'' @ n \<and> CHR ''.'' \<notin> set r \<and> db_holds (w_iam w) u r n)"
  using assms pg_rbac.can_sound [of super "rq_faults rq 1" "rq_faults rq 2" "rq_faults rq 3" "w_iam w" u action]
  by (simp add: engine_of_def)

theorem permission_check_fails_closed_witness:
  "can (engine_of ''Admin'' (toy_request 0) signed_up_world) 5 ''Schemas.Create'' \<and> \<not> ''Admin'' \<in> set (role_names signed_up_db 5) \<and>
   (\<exists>r n. ''Schemas.Create'' = r @ ''.'' @ n \<and> db_holds signed_up_db 5 r n)"
proof -
  have can: "can (engine_of ''Admin'' (toy_request 0) signed_up_world) 5 ''Schemas.Create''"
    by (simp add: toy_can toy_holds)
  then show ?thesis using permission_check_fails_closed [OF can] toy_roles by auto
qed

text \<open>
  C23: Asking the engine for any of several actions, which reads the listing of permissions once, is
  asking for each in turn, in the tables as the migrations link them and when no query fails.
\<close>

theorem asking_for_any_is_asking_for_each:
  assumes "modules_linked db" and "f1 0 = None" "f2 0 = None" "f3 0 = None" and "actions \<noteq> []"
  shows "can_any \<lparr>super_role = super, rbac_store = pg_rbac_store f1 f2 f3 db\<rparr> u actions \<longleftrightarrow>
    (\<exists>action \<in> set actions. can \<lparr>super_role = super, rbac_store = pg_rbac_store f1 f2 f3 db\<rparr> u action)"
  using assms by (rule pg_can_any)

theorem asking_for_any_is_asking_for_each_witness:
  "can_any \<lparr>super_role = ''Admin'', rbac_store = pg_rbac_store (\<lambda>_. None) (\<lambda>_. None) (\<lambda>_. None) (migrated_db 1)\<rparr> 1 [''Users.View All''] \<longleftrightarrow>
   can \<lparr>super_role = ''Admin'', rbac_store = pg_rbac_store (\<lambda>_. None) (\<lambda>_. None) (\<lambda>_. None) (migrated_db 1)\<rparr> 1 ''Users.View All''"
  using asking_for_any_is_asking_for_each [OF migrated_modules, of "\<lambda>_. None" "\<lambda>_. None" "\<lambda>_. None" "[''Users.View All'']" "''Admin''" 1 1]
  by simp

text \<open>
  C28: Anybody with an account can take the super role: the route that edits a user asks for no
  permission and its payload adds roles. One request later every action is granted.
\<close>

theorem any_user_can_become_admin:
  assumes "authenticate svc rq header w = (Inr user, w)"
    and "List.find (\<lambda>r. us_id r = idn_id user) (db_users (w_iam w)) = Some r" and "map_user (w_iam w) r \<noteq> None"
    and "(i, super) \<in> set (db_roles (w_iam w))" and "db_calm (rq_faults rq 4)"
  shows "\<exists>w'. iam_routes print svc super rq header (Patch_user (idn_id user) (update_user_default\<lparr>up_add_roles := Some [super]\<rparr>)) w =
      (Inr (Done ''successfully update user''), w') \<and>
    (\<forall>rq2 action. rq_faults rq2 1 0 = None \<longrightarrow> can (engine_of super rq2 w') (idn_id user) action)"
proof -
  obtain w' where "iam_routes print svc super rq header (Patch_user (idn_id user) (update_user_default\<lparr>up_add_roles := Some [super]\<rparr>)) w =
      (Inr (Done ''successfully update user''), w')" and "super \<in> set (role_names (w_iam w') (idn_id user))"
    using assms by (rule patch_user_grants)
  then show ?thesis using super_role_can by (intro exI [of _ w']) blast
qed

theorem any_user_can_become_admin_witness:
  "\<not> can (engine_of ''Admin'' (toy_request 0) signed_up_world) 5 ''Users.Delete'' \<and>
   (\<exists>w'. iam_routes (\<lambda>_. ''{}'') toy_service ''Admin'' (toy_request 0) (Some ''Bearer access'')
       (Patch_user 5 (update_user_default\<lparr>up_add_roles := Some [''Admin'']\<rparr>)) signed_up_world = (Inr (Done ''successfully update user''), w') \<and>
     can (engine_of ''Admin'' (toy_request 0) w') 5 ''Users.Delete'')"
proof -
  have "\<exists>w'. iam_routes (\<lambda>_. ''{}'') toy_service ''Admin'' (toy_request 0) (Some ''Bearer access'')
       (Patch_user (idn_id (identity_of signed_up_db ada)) (update_user_default\<lparr>up_add_roles := Some [''Admin'']\<rparr>)) signed_up_world =
      (Inr (Done ''successfully update user''), w') \<and>
    (\<forall>rq2 action. rq_faults rq2 1 0 = None \<longrightarrow> can (engine_of ''Admin'' rq2 w') (idn_id (identity_of signed_up_db ada)) action)"
    by (rule any_user_can_become_admin [OF toy_authenticated, where r = ada and i = 1]) (simp_all add: toy_row toy_maps toy_admin_role)
  then show ?thesis by (auto simp: toy_id toy_can toy_holds toy_roles)
qed

text \<open>
  C27: What people change of their own profile cannot give them anything: no role, address, password
  or status of any account changes, and no other account changes at all.
\<close>

theorem own_profile_edit_is_confined:
  assumes "iam_routes print svc super rq header (Patch_my_user f) w = (Inr a, w')"
  shows "\<exists>user. authenticate svc rq header w = (Inr user, w) \<and> same_access (w_iam w) (w_iam w') \<and>
    map us_status_id (db_users (w_iam w')) = map us_status_id (db_users (w_iam w)) \<and>
    filter (\<lambda>r. us_id r \<noteq> idn_id user) (db_users (w_iam w')) = filter (\<lambda>r. us_id r \<noteq> idn_id user) (db_users (w_iam w))"
  using assms by (rule patch_my_user_safe) blast

theorem own_profile_edit_is_confined_witness:
  "\<exists>a w'. iam_routes (\<lambda>_. ''{}'') toy_service ''Admin'' (toy_request 0) (Some ''Bearer access'')
       (Patch_my_user (update_user_default\<lparr>up_add_roles := Some [''Admin'']\<rparr>)) signed_up_world = (Inr a, w') \<and>
     same_access signed_up_db (w_iam w')"
proof -
  have "fst (user_partial_update toy_crypto s (\<lambda>_. None) 5 (restricted_to_self (update_user_default\<lparr>up_add_roles := Some [''Admin'']\<rparr>)) signed_up_db) =
      Inr ()" for s
    using toy_row toy_maps
    by (auto simp: user_partial_update_def checked_password_def restricted_to_self_def update_user_default_def tx_statement_def users_partial_update_def
        has_no_column_changes_def keep_tables_def map_err_def require_user_def users_find_by_id_def users_find_def hydrate_def)
  then obtain a w' where "iam_routes (\<lambda>_. ''{}'') toy_service ''Admin'' (toy_request 0) (Some ''Bearer access'')
       (Patch_my_user (update_user_default\<lparr>up_add_roles := Some [''Admin'']\<rparr>)) signed_up_world = (Inr a, w')"
    using toy_authenticated by (auto simp: iam_routes_def on_tables_def and_then_def split_beta)
  with own_profile_edit_is_confined [OF this] show ?thesis by auto
qed



section \<open>The two ports\<close>

text \<open>
  C24: The HTTP port reads a schema exactly as the gRPC port reads the message that carries the same
  fields, types and cardinalities named instead of numbered: the same draft, or the same violations
  under the same paths.
\<close>

theorem both_ports_read_alike:
  "h_draft_from p = draft_from (hs_name p) (hs_description p) (map message_entity (hs_entities p))
     (map message_relationship (hs_relationships p))"
  by (rule draft_read_alike)



text \<open>
  C31: The two ports do not ask the same: an account without the permission is refused to delete a
  schema over gRPC, while over HTTP the same account's request goes through to the service.
\<close>

theorem http_deletes_without_permission:
  assumes "authenticate svc rq header w = (Inr user, w)" and "\<not> can (engine_of super rq w) (idn_id user) ''Schemas.Delete''"
  shows "serve_schema_rpc lib svc super rq header (Delete_call i) w = (Inl (unauthorized ''unauthorized action''), w) \<and>
    schema_routes lib svc rq header (Http_delete i) w =
      (let (r, st) = service_delete (schemas_of svc rq) (idn_id user) i (w_schemas w)
       in (map_sum id (\<lambda>_. Http_deleted ''Schema deleted successfully'' i) r, w\<lparr>w_schemas := st\<rparr>))"
  using ports_differ [OF assms] by blast

theorem http_deletes_without_permission_witness:
  "serve_schema_rpc (sv_lib toy_server) toy_service ''Admin'' (toy_request 0) (Some ''Bearer access'') (Delete_call ''7'') staff_world =
     (Inl (unauthorized ''unauthorized action''), staff_world) \<and>
   fst (schema_routes (sv_lib toy_server) toy_service (toy_request 0) (Some ''Bearer access'') (Http_delete ''7'') staff_world) =
     Inr (Http_deleted ''Schema deleted successfully'' ''7'')"
proof -
  have "fst (service_delete (services decimal_env calm 7 0) 5 (show_uuid decimal_env 7) (w_schemas signed_up_world)) = Inr ()"
    using toy_owned by (simp add: service_delete_def pg_delete_def calm_def map_err_def)
  moreover have "show_uuid decimal_env 7 = ''7''" by code_simp
  ultimately show ?thesis
    using http_deletes_without_permission [OF staff_authenticated staff_refused, of "sv_lib toy_server" "''7''"]
    by (simp add: schemas_of_def staff_world_def identity_of_def ada_def Let_def split_beta)
qed

section \<open>Refinement\<close>

text \<open>
  C2: The store refines its specification: a map from users and ids to schemas, in which a request is
  refused without effect or changes one entry of its caller, and only if the name is free, the id
  fresh or the caller's own. Every store the service can reach is a state of that machine, and every
  request it serves there is one of its steps, whichever statements fail.
\<close>

theorem store_refines_owner_maps:
  assumes "reachable env st"
  shows "spec_reachable env (pg_view env st) \<and>
    spec_write env new_id now w (pg_view env st) (pg_view env (apply_write (services env outages new_id now) w st))"
  using reachable_refines [OF assms] write_refines [OF reachable_ok [OF assms] reachable_decodes [OF assms]] by blast

theorem store_refines_owner_maps_witness:
  "spec_write decimal_env 8 1 (Delete_schema 1 ''7'') (pg_view decimal_env example_store)
     (pg_view decimal_env (apply_write (services decimal_env calm 8 1) (Delete_schema 1 ''7'') example_store))"
  using store_refines_owner_maps [OF example_reachable] by blast

section \<open>Messages and mails\<close>



text \<open>
  C37: Copying a body for the log is not seen by anybody: every poll answers what the body inside
  answers. One line is written for a body, when it ends or is dropped with something read, holding
  the bytes up to its first end, and none for a body that was dropped unread.
\<close>

theorem body_is_logged_once:
  "snd (dump_polls ps (dump_new, [])) = map fst ps \<and>
   snd (dump_drop (fst (dump_polls ps (dump_new, [])))) =
     (if list_ex ends_at ps then [bytes_of (until_end ps)]
      else if bytes_of ps = [] then [] else [bytes_of (until_end ps)])"
  using dump_polls_outs dump_life [of dump_new ps "[]"] by (simp add: dump_new_def)

text \<open>
  C36: The mail of a password recovery carries its link: after a recovery that is answered one mail
  to the address waits in the outbox, and its body is the template with the name of the account in
  both places for a name and with the callback address followed by the token as the target of the
  button, in whatever order the map of values is visited. Name, address and token must hold no brace,
  which the hexadecimal digits of a token never do.
\<close>

theorem recovery_mail_carries_the_link:
  assumes "password_recovery svc rq email uri w = (Inr x, w')"
    and "no_brace uri" "no_brace (random_token (as_crypto svc) (rq_bytes rq))"
    and "\<forall>r \<in> set (db_users (w_iam w)). us_email r = email \<longrightarrow> no_brace (us_user_name r)"
  shows "\<exists>m r a b c d. w_outbox w' = w_outbox w @ [m] \<and> mail_to m = email \<and>
    r \<in> set (db_users (w_iam w)) \<and> us_email r = email \<and>
    TEMPLATES = [(mail_template m,
      a @ ''{{username}}'' @ b @ ''{{username}}'' @ c @ ''<a href=\"{{callbackURI}}\"'' @ d)] \<and>
    (\<forall>order. set order = set (mail_data m) \<and> distinct (map fst order) \<longrightarrow>
      render_mail TEMPLATES (mail_template m) order =
        Inr (a @ us_user_name r @ b @ us_user_name r @ c @ ''<a href=\"'' @ uri @
          random_token (as_crypto svc) (rq_bytes rq) @ ''\"'' @ d))"
  using assms by (rule recovery_mail)

theorem recovery_mail_carries_the_link_witness:
  "\<exists>w1 m a b c d. password_recovery toy_service (toy_request 0) ''ada@x.io'' ''https://x.io/'' signed_up_world = (Inr (), w1) \<and>
     w_outbox w1 = w_outbox signed_up_world @ [m] \<and>
     TEMPLATES = [(mail_template m,
       a @ ''{{username}}'' @ b @ ''{{username}}'' @ c @ ''<a href=\"{{callbackURI}}\"'' @ d)]"
proof -
  obtain w1 where w1: "password_recovery toy_service (toy_request 0) ''ada@x.io'' ''https://x.io/'' signed_up_world = (Inr (), w1)"
    using toy_found
    by (simp add: password_recovery_def and_then_def or_unknown_def store_write_def map_err_def delete_password_reset_def
        create_password_reset_def send_html_def Let_def toy_token)
  moreover have "\<forall>r \<in> set (db_users (w_iam signed_up_world)). us_email r = ''ada@x.io'' \<longrightarrow> no_brace (us_user_name r)"
    by (simp add: signed_up_db_def migrated_db_def ada_def no_brace_def)
  ultimately show ?thesis
    using recovery_mail_carries_the_link [of toy_service "toy_request 0" "''ada@x.io''" "''https://x.io/''" signed_up_world "()" w1]
    by (simp add: toy_token no_brace_def) blast
qed

section \<open>Starting the server\<close>

text \<open>
  The server reads its settings exactly when the secrets of the tokens and of Google are set and
  every other variable it reads is unset, blank or has a value of its type and width; a value that
  cannot be read is an error, never the default.
\<close>

theorem settings_load_iff_readable: "(\<exists>c. load_config vars = Inr c) \<longleftrightarrow> bootable vars"
  using load_config_iff [of vars] by (cases "load_config vars") simp_all



end
